(* ===== verification/LintScope.thy ===== *)
theory LintScope
  imports Prelude
begin

text \<open>
  What a lint or test gate runs: the stack a workspace has (\<open>utils/stack_detector.py\<close>) and the
  commands that judge the files a branch changed
  (\<open>mastermind/scheme_executor/lint_scope.py\<close>). A workspace is what the code reads of it: which
  relative paths are files, and the JSON value of a file that parses as one. The list of changed
  files comes from git and is an argument.
\<close>

section \<open>POSIX paths\<close>

text \<open>
  \<open>PurePosixPath\<close> of a relative path: its components, without empty ones and without \<open>.\<close>; the empty
  list is the path \<open>.\<close>.
\<close>

fun split_on :: "char \<Rightarrow> string \<Rightarrow> string list" where
  "split_on c [] = [[]]"
| "split_on c (x # xs) =
     (if x = c then [] # split_on c xs
      else (case split_on c xs of [] \<Rightarrow> [[x]] | y # ys \<Rightarrow> (x # y) # ys))"

definition path_parts :: "string \<Rightarrow> string list" where
  "path_parts p = filter (\<lambda>s. s \<noteq> [] \<and> s \<noteq> ''.'') (split_on (CHR ''/'') p)"

definition path_str :: "string list \<Rightarrow> string" where
  "path_str ps = (if ps = [] then ''.'' else join_with ''/'' ps)"

definition path_name :: "string \<Rightarrow> string" where
  "path_name p = (case rev (path_parts p) of [] \<Rightarrow> [] | n # _ \<Rightarrow> n)"

text \<open>\<open>name.rfind('.')\<close>, and \<open>suffix\<close>: from the last dot, unless it is the first or last character.\<close>

definition rfind_dot :: "string \<Rightarrow> nat option" where
  "rfind_dot s =
     (case filter (\<lambda>i. s ! i = CHR ''.'') [0..<length s] of [] \<Rightarrow> None | is \<Rightarrow> Some (last is))"

definition path_suffix :: "string \<Rightarrow> string" where
  "path_suffix p =
     (let n = path_name p in
      case rfind_dot n of
        None \<Rightarrow> []
      | Some i \<Rightarrow> if 0 < i \<and> i < length n - 1 then drop i n else [])"

section \<open>Stacks\<close>

record stack =
  stack_name :: string
  test_command :: "string list"
  lint_command :: "string list"
  install_command :: "string list option"
  is_monorepo :: bool

definition python_stack :: stack where
  "python_stack =
     \<lparr>stack_name = ''python'', test_command = [''python'', ''-m'', ''pytest'', ''--no-header'', ''-q''],
      lint_command = [''python'', ''-m'', ''ruff'', ''check'', ''.''], install_command = None,
      is_monorepo = False\<rparr>"

definition node_pnpm_stack :: "bool \<Rightarrow> stack" where
  "node_pnpm_stack monorepo =
     \<lparr>stack_name = ''node-pnpm'', test_command = [''pnpm'', ''run'', ''--if-present'', ''test''],
      lint_command = [''pnpm'', ''run'', ''--if-present'', ''lint''],
      install_command = Some [''pnpm'', ''install'', ''--frozen-lockfile''], is_monorepo = monorepo\<rparr>"

definition node_npm_stack :: stack where
  "node_npm_stack =
     \<lparr>stack_name = ''node-npm'',
      test_command = [''npm'', ''run'', ''--if-present'', ''test'', ''--'', ''--passWithNoTests''],
      lint_command = [''npm'', ''run'', ''--if-present'', ''lint''],
      install_command = Some [''npm'', ''ci''], is_monorepo = False\<rparr>"

definition go_stack :: stack where
  "go_stack =
     \<lparr>stack_name = ''go'', test_command = [''go'', ''test'', ''./...''],
      lint_command = [''go'', ''vet'', ''./...''], install_command = None, is_monorepo = False\<rparr>"

definition rust_stack :: stack where
  "rust_stack =
     \<lparr>stack_name = ''rust'', test_command = [''cargo'', ''test''],
      lint_command = [''cargo'', ''clippy'', ''--'', ''-D'', ''warnings''], install_command = None,
      is_monorepo = False\<rparr>"

definition java_maven_stack :: stack where
  "java_maven_stack =
     \<lparr>stack_name = ''java-maven'', test_command = [''mvn'', ''test''],
      lint_command = [''mvn'', ''verify'', ''-DskipTests''], install_command = None,
      is_monorepo = False\<rparr>"

definition java_gradle_stack :: stack where
  "java_gradle_stack =
     \<lparr>stack_name = ''java-gradle'', test_command = [''./gradlew'', ''test''],
      lint_command = [''./gradlew'', ''check'', ''-x'', ''test''], install_command = None,
      is_monorepo = False\<rparr>"

definition unknown_stack :: stack where
  "unknown_stack =
     \<lparr>stack_name = ''unknown'', test_command = [], lint_command = [], install_command = None,
      is_monorepo = False\<rparr>"

text \<open>
  A file holds a JSON object or is not readable JSON. Of an object the code reads whether
  \<open>eslintConfig\<close> is a key and the keys of two sections.
\<close>

datatype file_content =
    Manifest (has_eslint_config: bool) (manifest_deps: "string list") (manifest_dev_deps: "string list")
  | Other

type_synonym workspace = "(string, file_content) dict"

definition is_file :: "workspace \<Rightarrow> string \<Rightarrow> bool" where
  "is_file ws p = (dict_get ws (path_str (path_parts p)) \<noteq> None)"

definition detect_stack :: "workspace \<Rightarrow> stack" where
  "detect_stack ws =
     (if is_file ws ''pyproject.toml'' \<or> is_file ws ''setup.py'' \<or> is_file ws ''requirements.txt''
      then python_stack
      else if is_file ws ''Cargo.toml'' then rust_stack
      else if is_file ws ''go.mod'' then go_stack
      else if is_file ws ''pom.xml'' then java_maven_stack
      else if is_file ws ''build.gradle'' \<or> is_file ws ''build.gradle.kts'' then java_gradle_stack
      else if is_file ws ''package.json''
      then (if is_file ws ''pnpm-lock.yaml'' then node_pnpm_stack (is_file ws ''turbo.json'')
            else node_npm_stack)
      else unknown_stack)"

section \<open>Commands and plans\<close>

record check_command =
  argv :: "string list"
  cwd :: string

record lint_plan =
  plan_commands :: "check_command list"
  skip_reason :: string

definition python_extensions :: "string list" where
  "python_extensions = [''.py'']"

definition node_extensions :: "string list" where
  "node_extensions = [''.js'', ''.jsx'', ''.mjs'', ''.cjs'', ''.ts'', ''.tsx'', ''.mts'', ''.cts'']"

definition go_extensions :: "string list" where
  "go_extensions = [''.go'']"

definition rust_extensions :: "string list" where
  "rust_extensions = [''.rs'']"

definition jvm_extensions :: "string list" where
  "jvm_extensions = [''.java'', ''.kt'', ''.kts'', ''.groovy'']"

definition rust_manifests :: "string list" where
  "rust_manifests = [''Cargo.toml'', ''Cargo.lock'']"

definition jvm_manifests :: "string list" where
  "jvm_manifests =
     [''pom.xml'', ''build.gradle'', ''build.gradle.kts'', ''settings.gradle'', ''settings.gradle.kts'']"

definition eslint_configs :: "string list" where
  "eslint_configs =
     [''eslint.config.js'', ''eslint.config.mjs'', ''eslint.config.cjs'', ''eslint.config.ts'',
      ''eslint.config.mts'', ''eslint.config.cts'', ''.eslintrc'', ''.eslintrc.js'', ''.eslintrc.cjs'',
      ''.eslintrc.json'', ''.eslintrc.yaml'', ''.eslintrc.yml'']"

definition with_suffix :: "string list \<Rightarrow> string list \<Rightarrow> string list" where
  "with_suffix paths exts = filter (\<lambda>p. path_suffix p \<in> set exts) paths"

text \<open>\<open>_as_arg\<close>: a relative path never starts like a command-line flag.\<close>

definition as_arg :: "string \<Rightarrow> string" where
  "as_arg p = (if p = ''.'' \<or> prefix ''./'' p \<or> prefix ''/'' p then p else ''./'' @ p)"

definition files_plan :: "string list \<Rightarrow> string list \<Rightarrow> string \<Rightarrow> lint_plan" where
  "files_plan base_argv files language =
     (if files = [] then \<lparr>plan_commands = [], skip_reason = ''no changed '' @ language @ '' files to lint''\<rparr>
      else \<lparr>plan_commands = [\<lparr>argv = base_argv @ map as_arg files, cwd = ''.''\<rparr>], skip_reason = []\<rparr>)"

definition whole_project_plan ::
  "stack \<Rightarrow> string list \<Rightarrow> string list \<Rightarrow> string list \<Rightarrow> string \<Rightarrow> lint_plan" where
  "whole_project_plan st changed exts manifests language =
     (if \<exists>p\<in>set changed. path_suffix p \<in> set exts \<or> path_name p \<in> set manifests
      then \<lparr>plan_commands = [\<lparr>argv = lint_command st, cwd = ''.''\<rparr>], skip_reason = []\<rparr>
      else \<lparr>plan_commands = [], skip_reason = ''no changed '' @ language @ '' files to lint''\<rparr>)"

section \<open>Node packages\<close>

text \<open>\<open>_ancestors\<close> and \<open>_nearest_package_dir\<close>, on the components of a directory.\<close>

function ancestors :: "string list \<Rightarrow> string list list" where
  "ancestors ps = ps # (if ps = [] then [] else ancestors (butlast ps))"
  by pat_completeness auto
termination by (relation "measure length") auto

declare ancestors.simps [simp del]

function nearest_dir :: "workspace \<Rightarrow> string list \<Rightarrow> string list" where
  "nearest_dir ws ps =
     (if is_file ws (path_str (ps @ [''package.json''])) \<or> ps = [] then ps
      else nearest_dir ws (butlast ps))"
  by pat_completeness auto
termination by (relation "measure (length \<circ> snd)") auto

declare nearest_dir.simps [simp del]

definition nearest_package_dir :: "workspace \<Rightarrow> string \<Rightarrow> string" where
  "nearest_package_dir ws p = path_str (nearest_dir ws (butlast (path_parts p)))"

datatype lint_scope_error =
    GitFailed string | UnreadableManifest string | NoScopingRule string

text \<open>The loop of \<open>_eslint_configured\<close> over the directories up to the root of the workspace.\<close>

fun eslint_in :: "workspace \<Rightarrow> string list list \<Rightarrow> lint_scope_error + bool" where
  "eslint_in ws [] = Inr False"
| "eslint_in ws (d # ds) =
     (if \<exists>name\<in>set eslint_configs. is_file ws (path_str (d @ [name])) then Inr True
      else (case dict_get ws (path_str (d @ [''package.json''])) of
              None \<Rightarrow> eslint_in ws ds
            | Some Other \<Rightarrow> Inl (UnreadableManifest (path_str d))
            | Some (Manifest cfg deps dev) \<Rightarrow>
                if cfg \<or> ''eslint'' \<in> set deps \<or> ''eslint'' \<in> set dev then Inr True
                else eslint_in ws ds))"

definition eslint_configured :: "workspace \<Rightarrow> string \<Rightarrow> lint_scope_error + bool" where
  "eslint_configured ws package_dir = eslint_in ws (ancestors (path_parts package_dir))"

text \<open>\<open>groups.setdefault(dir, []).append(path)\<close> over the files.\<close>

definition group_files :: "workspace \<Rightarrow> string list \<Rightarrow> (string, string list) dict" where
  "group_files ws files =
     fold (\<lambda>p groups. let d = nearest_package_dir ws p
                       in dict_set groups d (dict_get_or groups d [] @ [p])) files []"

definition relative_to :: "string \<Rightarrow> string \<Rightarrow> string" where
  "relative_to package_dir p =
     (if package_dir \<noteq> ''.'' then path_str (drop (length (path_parts package_dir)) (path_parts p)) else p)"

definition package_command :: "string list \<Rightarrow> string \<Rightarrow> string list \<Rightarrow> check_command" where
  "package_command runner d grp =
     \<lparr>argv = runner @ map (\<lambda>p. as_arg (relative_to d p)) grp, cwd = d\<rparr>"

fun package_commands ::
  "workspace \<Rightarrow> string list \<Rightarrow> (string \<times> string list) list \<Rightarrow> lint_scope_error + check_command list" where
  "package_commands ws runner [] = Inr []"
| "package_commands ws runner ((d, grp) # rest) =
     res_bind (eslint_configured ws d) (\<lambda>configured.
     res_bind (package_commands ws runner rest) (\<lambda>cs.
     Inr (if configured
          then package_command runner d grp # cs else cs)))"

definition eslint_runner :: "stack \<Rightarrow> string list" where
  "eslint_runner st =
     (if stack_name st = ''node-pnpm'' then [''pnpm'', ''exec'', ''eslint'']
      else [''npx'', ''--no-install'', ''eslint''])"

definition node_plan :: "stack \<Rightarrow> workspace \<Rightarrow> string list \<Rightarrow> lint_scope_error + lint_plan" where
  "node_plan st ws files =
     (if files = []
      then Inr \<lparr>plan_commands = [], skip_reason = ''no changed JavaScript/TypeScript files to lint''\<rparr>
      else res_bind (package_commands ws (eslint_runner st) (sort_key fst (group_files ws files))) (\<lambda>cs.
           Inr (if cs = []
                then \<lparr>plan_commands = [],
                      skip_reason = ''changed JavaScript/TypeScript files have no ESLint configured''\<rparr>
                else \<lparr>plan_commands = cs, skip_reason = []\<rparr>)))"

section \<open>Planning a gate\<close>

definition go_packages :: "string list \<Rightarrow> string list" where
  "go_packages files =
     sort (remdups (map (\<lambda>p. as_arg (path_str (butlast (path_parts p)))) files))"

definition plan_lint :: "stack \<Rightarrow> workspace \<Rightarrow> string list \<Rightarrow> lint_scope_error + lint_plan" where
  "plan_lint st ws changed =
     (let existing = filter (is_file ws) changed; name = stack_name st in
      if name = ''python''
      then Inr (files_plan (filter (\<lambda>a. a \<noteq> ''.'') (lint_command st) @ [''--force-exclude''])
                  (with_suffix existing python_extensions) ''Python'')
      else if name = ''node-npm'' \<or> name = ''node-pnpm''
      then node_plan st ws (with_suffix existing node_extensions)
      else if name = ''go''
      then (let packages = go_packages (with_suffix existing go_extensions) in
            Inr (if packages = [] then \<lparr>plan_commands = [], skip_reason = ''no changed Go files to lint''\<rparr>
                 else \<lparr>plan_commands = [\<lparr>argv = [''go'', ''vet''] @ packages, cwd = ''.''\<rparr>], skip_reason = []\<rparr>))
      else if name = ''rust''
      then Inr (whole_project_plan st changed rust_extensions rust_manifests ''Rust'')
      else if name = ''java-maven'' \<or> name = ''java-gradle''
      then Inr (whole_project_plan st changed jvm_extensions jvm_manifests ''JVM'')
      else Inl (NoScopingRule name))"

definition plan_fix :: "stack \<Rightarrow> workspace \<Rightarrow> string list \<Rightarrow> lint_scope_error + lint_plan" where
  "plan_fix st ws changed =
     (if stack_name st \<notin> {''python'', ''node-npm'', ''node-pnpm''}
      then Inr \<lparr>plan_commands = [], skip_reason = ''no auto-fixer for the '' @ stack_name st @ '' stack''\<rparr>
      else res_bind (plan_lint st ws changed) (\<lambda>p.
           Inr \<lparr>plan_commands = map (\<lambda>c. \<lparr>argv = argv c @ [''--fix''], cwd = cwd c\<rparr>) (plan_commands p),
                skip_reason = skip_reason p\<rparr>))"

section \<open>Shell rendering\<close>

text \<open>\<open>shlex.quote\<close>: words of safe ASCII characters stay, anything else is single-quoted.\<close>

definition shell_safe :: "char \<Rightarrow> bool" where
  "shell_safe c =
     (let n = of_char c :: nat in
      (48 \<le> n \<and> n \<le> 57) \<or> (65 \<le> n \<and> n \<le> 90) \<or> (97 \<le> n \<and> n \<le> 122) \<or> c \<in> set ''_@%+=:,./-'')"

definition quote_char :: char where
  "quote_char = CHR 0x27"

definition shlex_quote :: "string \<Rightarrow> string" where
  "shlex_quote s =
     (if s = [] then [quote_char, quote_char]
      else if list_all shell_safe s then s
      else [quote_char] @
           concat (map (\<lambda>c. if c = quote_char then [quote_char, CHR 0x22, quote_char, CHR 0x22, quote_char] else [c]) s) @
           [quote_char])"

definition shlex_join :: "string list \<Rightarrow> string" where
  "shlex_join ws = join_with '' '' (map shlex_quote ws)"

definition to_shell_script :: "check_command list \<Rightarrow> string option \<Rightarrow> string" where
  "to_shell_script cs install =
     (let runs = join_with '' '' (map (\<lambda>c. ''( cd '' @ shlex_quote (cwd c) @ '' && '' @ shlex_join (argv c) @ '' ) || rc=$?;'') cs);
          body = ''rc=0; '' @ runs @ '' exit $rc''
      in if str_truthy install then ''{ '' @ the install @ ''; } && { '' @ body @ ''; }'' else body)"

section \<open>Paths and groups\<close>

lemma split_on_nonempty [simp]: "split_on c s \<noteq> []"
  by (induction s) (auto split: list.splits)

lemma split_on_no_sep: "c \<notin> set s \<Longrightarrow> split_on c s = [s]"
  by (induction s) auto

lemma split_on_append:
  "c \<notin> set s \<Longrightarrow> split_on c (s @ c # t) = s # split_on c t"
  by (induction s) auto

lemma split_on_join:
  "ps \<noteq> [] \<Longrightarrow> \<forall>p\<in>set ps. c \<notin> set p \<Longrightarrow> split_on c (join_with [c] ps) = ps"
  by (induction ps rule: induct_list012) (auto simp: split_on_no_sep split_on_append)

lemma split_on_parts: "p \<in> set (split_on c s) \<Longrightarrow> c \<notin> set p"
proof (induction s arbitrary: p)
  case Nil
  then show ?case by simp
next
  case (Cons x s)
  then show ?case by (cases "split_on c s") (auto split: if_splits)
qed

text \<open>The components a path can have; printing and parsing such a list are inverse.\<close>

definition proper_parts :: "string list \<Rightarrow> bool" where
  "proper_parts ps \<longleftrightarrow> (\<forall>p\<in>set ps. p \<noteq> [] \<and> p \<noteq> ''.'' \<and> CHR ''/'' \<notin> set p)"

lemma proper_path_parts [simp]: "proper_parts (path_parts p)"
  by (auto simp: proper_parts_def path_parts_def dest: split_on_parts)

lemma proper_parts_butlast [intro]: "proper_parts ps \<Longrightarrow> proper_parts (butlast ps)"
  by (auto simp: proper_parts_def dest: in_set_butlastD)

lemma proper_parts_drop [intro]: "proper_parts ps \<Longrightarrow> proper_parts (drop n ps)"
  by (auto simp: proper_parts_def dest: in_set_dropD)

lemma path_parts_str [simp]: "proper_parts ps \<Longrightarrow> path_parts (path_str ps) = ps"
  using split_on_join [of ps "CHR ''/''"]
  by (auto simp: path_parts_def path_str_def proper_parts_def filter_id_conv)

lemma path_parts_dot [simp]: "path_parts ''.'' = []"
  by (simp add: path_parts_def)

lemma nearest_dir_prefix: "prefix (nearest_dir ws ps) ps"
proof (induction ws ps rule: nearest_dir.induct)
  case (1 ws ps)
  then show ?case
    by (subst nearest_dir.simps) (auto intro: prefix_order.trans [OF _ prefixeq_butlast])
qed

lemma nearest_dir_proper: "proper_parts ps \<Longrightarrow> proper_parts (nearest_dir ws ps)"
  using nearest_dir_prefix [of ws ps] by (auto simp: proper_parts_def dest: set_mono_prefix)

lemma nearest_package_dir_prefix:
  "prefix (path_parts (nearest_package_dir ws p)) (path_parts p)"
  unfolding nearest_package_dir_def
  using nearest_dir_prefix [of ws "butlast (path_parts p)"] prefixeq_butlast [of "path_parts p"]
  by (auto simp: nearest_dir_proper proper_parts_butlast intro: prefix_order.trans)

text \<open>The relative path of a file in its package is the path of the file.\<close>

lemma relative_to_parts:
  assumes "d = nearest_package_dir ws p"
  shows "path_parts d @ path_parts (relative_to d p) = path_parts p"
proof -
  from assms nearest_package_dir_prefix [of ws p] obtain r where r: "path_parts p = path_parts d @ r"
    by (auto simp: prefix_def)
  then have "proper_parts r" using proper_path_parts [of p] by (auto simp: proper_parts_def)
  with r show ?thesis by (cases "d = ''.''") (simp_all add: relative_to_def)
qed

lemma group_files_get:
  "dict_get (group_files ws files) d =
     (let l = filter (\<lambda>p. nearest_package_dir ws p = d) files in if l = [] then None else Some l)"
  by (induction files rule: rev_induct) (auto simp: group_files_def Let_def dict_get_or_def)

lemma group_files_distinct: "distinct (dict_keys (group_files ws files))"
  by (induction files rule: rev_induct) (auto simp: group_files_def Let_def)

lemma group_files_mem:
  "(d, grp) \<in> set (group_files ws files) \<longleftrightarrow>
     grp = filter (\<lambda>p. nearest_package_dir ws p = d) files \<and> grp \<noteq> []"
  unfolding map_of_eq_Some_iff [OF group_files_distinct, symmetric] group_files_get Let_def by auto

section \<open>What the commands judge\<close>

lemma package_commands_eq:
  "package_commands ws runner gs = Inr cs \<Longrightarrow>
     cs = map (\<lambda>(d, grp). package_command runner d grp)
            (filter (\<lambda>g. eslint_configured ws (fst g) = Inr True) gs)"
proof (induction gs arbitrary: cs)
  case Nil
  then show ?case by simp
next
  case (Cons g gs)
  obtain d grp where g: "g = (d, grp)" by (cases g)
  with Cons.prems obtain b cs' where "eslint_configured ws d = Inr b" "package_commands ws runner gs = Inr cs'"
    "cs = (if b then package_command runner d grp # cs' else cs')"
    by (auto simp: res_bind_Inr_iff)
  with Cons.IH [of cs'] g show ?case by simp
qed

lemma node_plan_mem:
  assumes "node_plan st ws files = Inr plan"
  shows "c \<in> set (plan_commands plan) \<longleftrightarrow>
    (\<exists>d grp. grp = filter (\<lambda>p. nearest_package_dir ws p = d) files \<and> grp \<noteq> [] \<and>
       eslint_configured ws d = Inr True \<and>
       c = package_command (eslint_runner st) d grp)"
proof (cases "files = []")
  case True
  with assms show ?thesis by (auto simp: node_plan_def)
next
  case False
  with assms obtain cs where
    "package_commands ws (eslint_runner st) (sort_key fst (group_files ws files)) = Inr cs"
    and "plan_commands plan = cs"
    by (auto simp: node_plan_def res_bind_Inr_iff split: if_splits)
  with package_commands_eq [OF this(1)] show ?thesis by (auto simp: group_files_mem image_iff)
qed

lemma as_arg_no_flag: "\<exists>c rest. as_arg p = c # rest \<and> c \<in> {CHR ''.'', CHR ''/''}"
  by (auto simp: as_arg_def prefix_def)

text \<open>Every file argument of a lint command names a changed file that exists and has the right suffix.\<close>

definition judges_changed :: "workspace \<Rightarrow> string list \<Rightarrow> string list \<Rightarrow> string list \<Rightarrow> check_command \<Rightarrow> bool" where
  "judges_changed ws changed exts runner c \<longleftrightarrow>
     (\<exists>files. files \<noteq> [] \<and> argv c = runner @ map as_arg files \<and>
        (\<forall>f\<in>set files. \<exists>p\<in>set changed. is_file ws p \<and> path_suffix p \<in> set exts \<and>
           path_parts (cwd c) @ path_parts f = path_parts p))"

lemma python_plan_judges:
  assumes "plan_lint python_stack ws changed = Inr plan" "c \<in> set (plan_commands plan)"
  shows "judges_changed ws changed python_extensions [''python'', ''-m'', ''ruff'', ''check'', ''--force-exclude''] c"
  using assms
  by (auto simp: plan_lint_def python_stack_def files_plan_def Let_def judges_changed_def with_suffix_def
      intro!: exI [of _ "filter (\<lambda>p. path_suffix p \<in> set python_extensions) (filter (is_file ws) changed)"]
      split: if_splits)

lemma node_plan_judges:
  assumes "node_plan st ws (with_suffix (filter (is_file ws) changed) node_extensions) = Inr plan"
    and "c \<in> set (plan_commands plan)"
  shows "judges_changed ws changed node_extensions (eslint_runner st) c"
proof -
  let ?files = "with_suffix (filter (is_file ws) changed) node_extensions"
  from assms obtain d grp where grp: "grp = filter (\<lambda>p. nearest_package_dir ws p = d) ?files" "grp \<noteq> []"
    and c: "c = package_command (eslint_runner st) d grp"
    by (auto simp: node_plan_mem)
  have "path_parts d @ path_parts (relative_to d p) = path_parts p" if "p \<in> set grp" for p
    using that grp by (intro relative_to_parts) auto
  with grp show ?thesis
    unfolding judges_changed_def c package_command_def
    by (intro exI [of _ "map (relative_to d) grp"]) (auto simp: with_suffix_def)
qed

text \<open>And every changed file of a package with ESLint is an argument of the command of its package.\<close>

lemma node_plan_complete:
  assumes "node_plan st ws files = Inr plan" "p \<in> set files"
    and "eslint_configured ws (nearest_package_dir ws p) = Inr True"
  shows "\<exists>c\<in>set (plan_commands plan). cwd c = nearest_package_dir ws p \<and>
           as_arg (relative_to (nearest_package_dir ws p) p) \<in> set (argv c)"
proof -
  let ?d = "nearest_package_dir ws p"
  let ?grp = "filter (\<lambda>q. nearest_package_dir ws q = ?d) files"
  let ?c = "package_command (eslint_runner st) ?d ?grp"
  have "?grp \<noteq> []" using assms(2) by (auto simp: filter_empty_conv)
  with assms(3) have "?c \<in> set (plan_commands plan)"
    unfolding node_plan_mem [OF assms(1)] by blast
  moreover have "as_arg (relative_to ?d p) \<in> set (argv ?c)"
    using assms(2) by (auto simp: package_command_def)
  moreover have "cwd ?c = ?d" by (simp add: package_command_def)
  ultimately show ?thesis by blast
qed

text \<open>A plan without commands says why, and a fix plan only adds the fixer's flag.\<close>

lemma plan_lint_skip:
  "plan_lint st ws changed = Inr plan \<Longrightarrow> plan_commands plan = [] \<longleftrightarrow> skip_reason plan \<noteq> []"
  by (auto simp: plan_lint_def files_plan_def whole_project_plan_def node_plan_def Let_def res_bind_Inr_iff
      split: if_splits)

lemma plan_fix_skip:
  "plan_fix st ws changed = Inr plan \<Longrightarrow> plan_commands plan = [] \<longleftrightarrow> skip_reason plan \<noteq> []"
  by (auto simp: plan_fix_def res_bind_Inr_iff plan_lint_skip split: if_splits)

lemma detect_stack_scoped:
  "stack_name (detect_stack ws) = ''unknown'' \<or> (\<nexists>n. plan_lint (detect_stack ws) ws changed = Inl (NoScopingRule n))"
proof -
  have no_rule: "res_bind (package_commands ws r gs) f \<noteq> Inl (NoScopingRule n)" if "\<And>cs. \<exists>x. f cs = Inr x" for r gs f n
  proof -
    have 1: "eslint_in ws ds \<noteq> Inl (NoScopingRule n)" for ds
      by (induction ds) (auto split: option.splits file_content.splits)
    have "package_commands ws r gs \<noteq> Inl (NoScopingRule n)"
    proof (induction gs)
      case (Cons g gs)
      with 1 show ?case
        by (cases g; cases "eslint_configured ws (fst g)"; cases "package_commands ws r gs")
          (auto simp: eslint_configured_def)
    qed simp
    with that show ?thesis by (cases "package_commands ws r gs") (auto, metis Inr_not_Inl)
  qed
  show ?thesis
    by (auto simp: detect_stack_def plan_lint_def node_plan_def python_stack_def rust_stack_def go_stack_def
        java_maven_stack_def java_gradle_stack_def node_pnpm_stack_def node_npm_stack_def unknown_stack_def Let_def no_rule)
qed

end
