(* ===== verification/SchemeModel.thy ===== *)
theory SchemeModel
  imports Prelude
begin

text \<open>
  The data contracts of \<open>henchmen/models/scheme.py\<close>, \<open>models/llm.py\<close>, \<open>models/task.py\<close> and
  \<open>models/operative.py\<close>: enumerations as datatypes, Pydantic models as records, field constraints
  as the checks of a constructor that may fail.
\<close>

section \<open>Enumerations\<close>

datatype node_type = DETERMINISTIC | AGENTIC

datatype model_tier = COMPLEX | LIGHT | REASONING

fun tier_value :: "model_tier \<Rightarrow> string" where
  "tier_value COMPLEX = ''default/complex''"
| "tier_value LIGHT = ''default/light''"
| "tier_value REASONING = ''default/reasoning''"

text \<open>\<open>ModelTier(value)\<close>: the tier of a value, or the \<open>ValueError\<close> of an unknown one.\<close>

definition tier_of_value :: "string \<Rightarrow> model_tier option" where
  "tier_of_value s = find (\<lambda>t. tier_value t = s) [COMPLEX, LIGHT, REASONING]"

definition is_tier_value :: "string \<Rightarrow> bool" where
  "is_tier_value s = (s \<in> set (map tier_value [COMPLEX, LIGHT, REASONING]))"

datatype tool_set =
    TS_code_edit | TS_code_intel | TS_context | TS_git_ops
  | TS_github | TS_jira | TS_slack | TS_test_runner

datatype edge_condition = Pass | Fail

datatype task_source = SLACK | JIRA | GITHUB | CLI

fun source_value :: "task_source \<Rightarrow> string" where
  "source_value SLACK = ''slack''"
| "source_value JIRA = ''jira''"
| "source_value GITHUB = ''github''"
| "source_value CLI = ''cli''"

datatype task_priority = CRITICAL | HIGH | NORMAL | LOW

datatype task_type = BUGFIX | FEATURE | REFACTOR

datatype operative_status =
    SPAWNING | INITIALIZING | EXECUTING | REPORTING | COMPLETED | FAILED
  | TIMED_OUT | BLOCKED | INTERRUPTED

text \<open>
  The instruction of an agentic node is prose. The four shared prompts are kept by name: each is a
  non-blank literal, and no code inspects more of it than whether it is blank.
\<close>

datatype template =
    BUGFIX_INSTRUCTION_TEMPLATE | FEATURE_INSTRUCTION_TEMPLATE
  | PLAN_INSTRUCTION_TEMPLATE | FIX_TESTS_INSTRUCTION_TEMPLATE

datatype instruction = Shared template | Literal string

fun instruction_blank :: "instruction \<Rightarrow> bool" where
  "instruction_blank (Shared t) = False"
| "instruction_blank (Literal s) = (py_strip s = [])"

section \<open>Scheme nodes, edges and definitions\<close>

record arsenal_requirement =
  tool_sets :: "tool_set list"
  allow_destructive :: bool

record dossier_requirement =
  fetch_files :: bool
  fetch_rules :: bool
  fetch_related_prs :: bool
  fetch_related_issues :: bool
  code_search_symbols :: "string list"

definition default_dossier_requirement :: dossier_requirement where
  "default_dossier_requirement =
     \<lparr>fetch_files = False, fetch_rules = False, fetch_related_prs = False,
      fetch_related_issues = False, code_search_symbols = []\<rparr>"

record step_budget =
  base_steps :: int
  min_steps :: int
  sb_max_steps :: int
  extension_steps :: int
  max_extensions :: int
  early_exit_on_commit :: bool

datatype validation_error = FieldConstraint string | BaseExceedsMax int int

text \<open>
  Construction of a \<open>StepBudget\<close>: the field bounds (\<open>ge=1\<close>, \<open>ge=0\<close>) in field order, then the
  model validator.
\<close>

definition make_step_budget :: "int \<Rightarrow> int \<Rightarrow> int \<Rightarrow> int \<Rightarrow> int \<Rightarrow> validation_error + step_budget" where
  "make_step_budget base mn mx ext maxext =
     (if base < 1 then Inl (FieldConstraint ''base_steps'')
      else if mn < 1 then Inl (FieldConstraint ''min_steps'')
      else if mx < 1 then Inl (FieldConstraint ''max_steps'')
      else if ext < 0 then Inl (FieldConstraint ''extension_steps'')
      else if maxext < 0 then Inl (FieldConstraint ''max_extensions'')
      else if base > mx then Inl (BaseExceedsMax base mx)
      else Inr \<lparr>base_steps = base, min_steps = mn, sb_max_steps = mx,
                extension_steps = ext, max_extensions = maxext, early_exit_on_commit = True\<rparr>)"

definition valid_step_budget :: "step_budget \<Rightarrow> bool" where
  "valid_step_budget b \<longleftrightarrow>
     1 \<le> base_steps b \<and> 1 \<le> min_steps b \<and> 1 \<le> sb_max_steps b \<and>
     0 \<le> extension_steps b \<and> 0 \<le> max_extensions b \<and> base_steps b \<le> sb_max_steps b"

record scheme_node =
  node_id :: string
  node_name :: string
  node_kind :: node_type
  sn_arsenal :: "arsenal_requirement option"
  sn_dossier :: "dossier_requirement option"
  max_steps :: int
  sn_step_budget :: "step_budget option"
  timeout_seconds :: int
  instruction_template :: "instruction option"
  model_name :: "string option"

text \<open>The bounds Pydantic checks when a \<open>SchemeNode\<close> is built.\<close>

definition valid_node_fields :: "scheme_node \<Rightarrow> bool" where
  "valid_node_fields n \<longleftrightarrow>
     1 \<le> max_steps n \<and> 1 \<le> timeout_seconds n \<and>
     (case sn_step_budget n of None \<Rightarrow> True | Some b \<Rightarrow> valid_step_budget b)"

definition step_budget_defaults :: "(string, step_budget) dict" where
  "step_budget_defaults =
     [(''implement_fix'',
         \<lparr>base_steps = 30, min_steps = 15, sb_max_steps = 50, extension_steps = 10,
          max_extensions = 2, early_exit_on_commit = True\<rparr>),
      (''implement_feature'',
         \<lparr>base_steps = 50, min_steps = 20, sb_max_steps = 70, extension_steps = 10,
          max_extensions = 2, early_exit_on_commit = True\<rparr>),
      (''fix_tests'',
         \<lparr>base_steps = 15, min_steps = 5, sb_max_steps = 25, extension_steps = 5,
          max_extensions = 2, early_exit_on_commit = True\<rparr>),
      (''analyze_goal'',
         \<lparr>base_steps = 5, min_steps = 3, sb_max_steps = 10, extension_steps = 5,
          max_extensions = 1, early_exit_on_commit = True\<rparr>)]"

definition get_effective_budget :: "scheme_node \<Rightarrow> validation_error + step_budget" where
  "get_effective_budget n =
     (case sn_step_budget n of
        Some b \<Rightarrow> Inr b
      | None \<Rightarrow>
          (case dict_get step_budget_defaults (node_id n) of
             Some b \<Rightarrow> Inr b
           | None \<Rightarrow> make_step_budget (max_steps n) (max 5 (max_steps n div 3)) (max_steps n) 0 0))"

record scheme_edge =
  from_node :: string
  to_node :: string
  edge_cond :: "edge_condition option"

record scheme_definition =
  scheme_id :: string
  scheme_name :: string
  scheme_version :: string
  scheme_nodes :: "scheme_node list"
  scheme_edges :: "scheme_edge list"

section \<open>Tasks and operative reports\<close>

record task_context =
  ctx_repo :: string
  ctx_branch :: "string option"
  thread_messages :: "string list option"
  issue_fields :: "(string, string) dict option"
  pr_diff :: "string option"

record henchmen_task =
  task_id :: string
  task_source_of :: task_source
  source_id :: string
  title :: string
  description :: string
  task_ctx :: task_context
  priority :: task_priority
  task_type_of :: "task_type option"
  created_by :: string

definition branch_name :: "string \<Rightarrow> string" where
  "branch_name tid = ''henchmen/'' @ take 8 tid"

record operative_report =
  rep_operative_id :: string
  rep_status :: operative_status
  rep_summary :: string
  rep_error :: "string option"
  rep_block_reason :: "string option"
  rep_files_changed :: "string list"
  rep_model_name :: string
  rep_input_tokens :: int
  rep_output_tokens :: int
  rep_cost_usd :: rat

section \<open>Properties of the data model\<close>

lemma make_step_budget_valid:
  "make_step_budget b mn mx e me = Inr s \<Longrightarrow> valid_step_budget s"
  by (auto simp: make_step_budget_def valid_step_budget_def split: if_splits)

lemma tier_of_value_tier [simp]: "tier_of_value (tier_value t) = Some t"
  by (cases t) (simp_all add: tier_of_value_def)

lemma is_tier_value_iff: "is_tier_value s \<longleftrightarrow> tier_of_value s \<noteq> None"
  by (auto simp: is_tier_value_def tier_of_value_def)

lemma step_budget_defaults_valid:
  "dict_get step_budget_defaults k = Some b \<Longrightarrow> valid_step_budget b"
  by (auto simp: step_budget_defaults_def valid_step_budget_def split: if_splits)

lemma effective_budget_cases:
  assumes "valid_node_fields n"
  obtains b where "get_effective_budget n = Inr b" "valid_step_budget b"
proof (cases "sn_step_budget n")
  case (Some b)
  with assms show ?thesis by (intro that [of b]) (auto simp: get_effective_budget_def valid_node_fields_def)
next
  case None
  show ?thesis
  proof (cases "dict_get step_budget_defaults (node_id n)")
    case (Some b)
    with None show ?thesis
      by (intro that [of b]) (auto simp: get_effective_budget_def dest: step_budget_defaults_valid)
  next
    case none: None
    let ?r = "make_step_budget (max_steps n) (max 5 (max_steps n div 3)) (max_steps n) 0 0"
    from assms obtain b where "?r = Inr b"
      by (auto simp: valid_node_fields_def make_step_budget_def)
    with None none show ?thesis
      by (intro that [of b]) (auto simp: get_effective_budget_def dest: make_step_budget_valid)
  qed
qed

end
