(* ===== verification/Host.thy ===== *)
theory Host
  imports LintScope SchemeModel
begin

text \<open>
  The effects of the orchestration code. The outside (processes, files, GitHub) is a \<open>host\<close>: a
  function of everything done so far, so a computation is a function on the history of its events
  and a theorem about all hosts covers every behaviour of the outside. Python exceptions are the
  \<open>Inl\<close> results; \<open>wp\<close> is the weakest precondition the proofs compute with.
\<close>

section \<open>Events and exceptions\<close>

datatype principal = Self | Unprivileged

text \<open>
  A subprocess: who it runs as, its arguments and directory, the GitHub token the caller puts into its
  environment (\<open>None\<close>: none is added) and what is written to its stdin.
\<close>

record process_call =
  pc_user :: principal
  pc_argv :: "string list"
  pc_cwd :: string
  pc_env_token :: "string option"
  pc_stdin :: "string option"

datatype event =
    Exec process_call
  | FetchToken string
  | HandOver string
  | IsolateGitDir
  | RemoveTree string
  | ListPulls string string
  | CreatePull string string string string
  | LabelPull
  | DispatchLair string string
  | Checkpoint string

type_synonym history = "event list"

datatype exn =
    Runtime string
  | LintScopeExn lint_scope_error
  | GitHubAuthExn string
  | OsExn string
  | TimeoutExn
  | OtherExn string

fun lint_scope_text :: "lint_scope_error \<Rightarrow> string" where
  "lint_scope_text (GitFailed s) = s"
| "lint_scope_text (UnreadableManifest d) = d @ ''/package.json is not readable JSON''"
| "lint_scope_text (NoScopingRule n) = ''no lint scoping rule for stack '' @ [quote_char] @ n @ [quote_char]"

fun exn_text :: "exn \<Rightarrow> string" where
  "exn_text (Runtime s) = s"
| "exn_text (LintScopeExn e) = lint_scope_text e"
| "exn_text (GitHubAuthExn s) = s"
| "exn_text (OsExn s) = s"
| "exn_text TimeoutExn = []"
| "exn_text (OtherExn s) = s"

text \<open>
  What the outside answers, given the history up to and including the event: a process ends with an
  exit code, stdout and stderr, cannot be started or times out, and a pipe delivers its output in some
  chunks; an ownership change or move may raise \<open>OSError\<close>; the credentials provider returns a token
  or raises \<open>GitHubAuthError\<close>; the workspace is whatever files are there at this point; GitHub lists
  and creates pull requests (their \<open>html_url\<close> is an https URL); a Lair returns the report of its
  operative or fails. \<open>h_redact\<close> stands for the secret patterns of \<open>utils/redaction.py\<close>, \<open>h_cpus\<close> for
  the float rendering of the CPU limit.
\<close>

record pull_request =
  pull_ref :: string
  pull_path :: string
  pull_number :: int

definition pull_url :: "pull_request \<Rightarrow> string" where
  "pull_url p = ''https://'' @ pull_path p"

record host =
  h_exec :: "history \<Rightarrow> exn + (int \<times> string \<times> string)"
  h_fs_op :: "history \<Rightarrow> string option"
  h_token :: "history \<Rightarrow> string + string"
  h_files :: "history \<Rightarrow> workspace"
  h_has_git :: "history \<Rightarrow> bool"
  h_is_root :: bool
  h_pulls :: "history \<Rightarrow> exn + pull_request list"
  h_create_pull :: "history \<Rightarrow> exn + pull_request"
  h_lair :: "history \<Rightarrow> exn + (string \<times> operative_report)"
  h_chunks :: "history \<Rightarrow> string \<Rightarrow> string list"
  h_uuid :: "history \<Rightarrow> string"
  h_cpus :: "string \<Rightarrow> string"
  h_redact :: "string \<Rightarrow> string"

section \<open>Computations\<close>

type_synonym 'a io = "history \<Rightarrow> (exn + 'a) \<times> history"

definition io_return :: "'a \<Rightarrow> 'a io" where
  "io_return a t = (Inr a, t)"

definition io_raise :: "exn \<Rightarrow> 'a io" where
  "io_raise e t = (Inl e, t)"

definition io_bind :: "'a io \<Rightarrow> ('a \<Rightarrow> 'b io) \<Rightarrow> 'b io" where
  "io_bind m f t = (case m t of (Inl e, t') \<Rightarrow> (Inl e, t') | (Inr a, t') \<Rightarrow> f a t')"

text \<open>\<open>try ... except\<close>: the handler says which exceptions it takes.\<close>

definition io_catch :: "'a io \<Rightarrow> (exn \<Rightarrow> 'a io option) \<Rightarrow> 'a io" where
  "io_catch m handler t =
     (case m t of
        (Inr a, t') \<Rightarrow> (Inr a, t')
      | (Inl e, t') \<Rightarrow> (case handler e of None \<Rightarrow> (Inl e, t') | Some k \<Rightarrow> k t'))"

text \<open>\<open>try ... finally\<close> with a clean-up that does not raise.\<close>

definition io_finally :: "'a io \<Rightarrow> unit io \<Rightarrow> 'a io" where
  "io_finally m fin t = (case m t of (r, t') \<Rightarrow> (case fin t' of (Inl e, t'') \<Rightarrow> (Inl e, t'') | (Inr _, t'') \<Rightarrow> (r, t'')))"

definition io_history :: "history io" where
  "io_history t = (Inr t, t)"

definition emit :: "event \<Rightarrow> unit io" where
  "emit e t = (Inr (), e # t)"

definition exec :: "host \<Rightarrow> process_call \<Rightarrow> (int \<times> string \<times> string) io" where
  "exec h c t = (h_exec h (Exec c # t), Exec c # t)"

definition files :: "host \<Rightarrow> workspace io" where
  "files h t = (Inr (h_files h t), t)"

text \<open>An ownership change or a move: the \<open>OSError\<close> it raises, or done.\<close>

definition fs_op :: "host \<Rightarrow> event \<Rightarrow> unit io" where
  "fs_op h e t =
     (case h_fs_op h (e # t) of Some msg \<Rightarrow> (Inl (OsExn msg), e # t) | None \<Rightarrow> (Inr (), e # t))"

definition fetch_token :: "host \<Rightarrow> string \<Rightarrow> string io" where
  "fetch_token h repo t =
     (case h_token h (FetchToken repo # t) of
        Inl msg \<Rightarrow> (Inl (GitHubAuthExn msg), FetchToken repo # t)
      | Inr tok \<Rightarrow> (Inr tok, FetchToken repo # t))"

text \<open>An event the outside answers with a value or an exception.\<close>

definition ask :: "(history \<Rightarrow> exn + 'a) \<Rightarrow> event \<Rightarrow> 'a io" where
  "ask f e t = (f (e # t), e # t)"

text \<open>A command run in sequence for each element, collecting the results.\<close>

fun io_map :: "('a \<Rightarrow> 'b io) \<Rightarrow> 'a list \<Rightarrow> 'b list io" where
  "io_map f [] = io_return []"
| "io_map f (x # xs) = io_bind (f x) (\<lambda>y. io_bind (io_map f xs) (\<lambda>ys. io_return (y # ys)))"

section \<open>Weakest preconditions\<close>

definition wp :: "'a io \<Rightarrow> ('a \<Rightarrow> history \<Rightarrow> bool) \<Rightarrow> (exn \<Rightarrow> history \<Rightarrow> bool) \<Rightarrow> history \<Rightarrow> bool" where
  "wp m Q E t \<longleftrightarrow> (case m t of (Inr a, t') \<Rightarrow> Q a t' | (Inl e, t') \<Rightarrow> E e t')"

named_theorems wp_simps \<open>weakest preconditions of the computations\<close>

lemma wp_return [wp_simps]: "wp (io_return a) Q E = Q a"
  by (simp add: wp_def io_return_def fun_eq_iff)

lemma wp_raise [wp_simps]: "wp (io_raise e) Q E = E e"
  by (simp add: wp_def io_raise_def fun_eq_iff)

lemma wp_bind [wp_simps]: "wp (io_bind m f) Q E = wp m (\<lambda>a. wp (f a) Q E) E"
  by (auto simp: wp_def io_bind_def fun_eq_iff split: prod.splits sum.splits)

lemma wp_catch [wp_simps]:
  "wp (io_catch m handler) Q E = wp m Q (\<lambda>e. case handler e of None \<Rightarrow> E e | Some k \<Rightarrow> wp k Q E)"
  by (auto simp: wp_def io_catch_def fun_eq_iff split: prod.splits sum.splits option.splits)

lemma wp_finally [wp_simps]:
  "wp (io_finally m fin) Q E = wp m (\<lambda>a. wp fin (\<lambda>_. Q a) E) (\<lambda>e. wp fin (\<lambda>_. E e) E)"
  by (auto simp: wp_def io_finally_def fun_eq_iff split: prod.splits sum.splits)

lemma wp_history [wp_simps]: "wp io_history Q E = (\<lambda>t. Q t t)"
  by (simp add: wp_def io_history_def fun_eq_iff)

lemma wp_emit [wp_simps]: "wp (emit e) Q E = (\<lambda>t. Q () (e # t))"
  by (simp add: wp_def emit_def fun_eq_iff)

lemma wp_exec [wp_simps]:
  "wp (exec h c) Q E =
     (\<lambda>t. case h_exec h (Exec c # t) of Inr r \<Rightarrow> Q r (Exec c # t) | Inl e \<Rightarrow> E e (Exec c # t))"
  by (auto simp: wp_def exec_def fun_eq_iff)

lemma wp_ask [wp_simps]:
  "wp (ask f e) Q E = (\<lambda>t. case f (e # t) of Inr r \<Rightarrow> Q r (e # t) | Inl x \<Rightarrow> E x (e # t))"
  by (auto simp: wp_def ask_def fun_eq_iff)

lemma wp_files [wp_simps]: "wp (files h) Q E = (\<lambda>t. Q (h_files h t) t)"
  by (simp add: wp_def files_def fun_eq_iff)

lemma wp_fs_op [wp_simps]:
  "wp (fs_op h e) Q E =
     (\<lambda>t. case h_fs_op h (e # t) of Some msg \<Rightarrow> E (OsExn msg) (e # t) | None \<Rightarrow> Q () (e # t))"
  by (auto simp: wp_def fs_op_def fun_eq_iff split: option.splits)

lemma wp_fetch_token [wp_simps]:
  "wp (fetch_token h repo) Q E =
     (\<lambda>t. case h_token h (FetchToken repo # t) of
             Inr tok \<Rightarrow> Q tok (FetchToken repo # t)
           | Inl msg \<Rightarrow> E (GitHubAuthExn msg) (FetchToken repo # t))"
  by (auto simp: wp_def fetch_token_def fun_eq_iff split: sum.splits)

lemma wp_mono:
  "wp m Q E t \<Longrightarrow> (\<And>a t'. Q a t' \<Longrightarrow> Q' a t') \<Longrightarrow> (\<And>e t'. E e t' \<Longrightarrow> E' e t') \<Longrightarrow> wp m Q' E' t"
  by (auto simp: wp_def split: prod.splits sum.splits)

lemma wp_conj: "wp m (\<lambda>a t'. Q a t' \<and> Q' a t') (\<lambda>e t'. E e t' \<and> E' e t') t \<longleftrightarrow> wp m Q E t \<and> wp m Q' E' t"
  by (auto simp: wp_def split: prod.splits sum.splits)

text \<open>From a computed precondition to the result of a run.\<close>

lemma wp_Inr: "wp m Q E t \<Longrightarrow> m t = (Inr a, t') \<Longrightarrow> Q a t'"
  by (simp add: wp_def)

lemma wp_Inl: "wp m Q E t \<Longrightarrow> m t = (Inl e, t') \<Longrightarrow> E e t'"
  by (simp add: wp_def)

lemma wp_map_invariant:
  assumes "\<And>x t'. x \<in> set xs \<Longrightarrow> I t' \<Longrightarrow> wp (f x) (\<lambda>_. I) (\<lambda>_. I) t'" "I t"
  shows "wp (io_map f xs) (\<lambda>_. I) (\<lambda>_. I) t"
  using assms
proof (induction xs arbitrary: t)
  case Nil
  then show ?case by (simp add: wp_simps)
next
  case (Cons x xs)
  have rest: "wp (io_map f xs) (\<lambda>_. I) (\<lambda>_. I) t'" if "I t'" for t'
    using that Cons.prems(1) by (intro Cons.IH) auto
  from Cons.prems have "wp (f x) (\<lambda>_. I) (\<lambda>_. I) t" by simp
  then show ?case by (auto simp: wp_simps rest elim: wp_mono)
qed

end
