(* ===== verification/GateIsolation.thy ===== *)
theory GateIsolation
  imports CiGate
begin

text \<open>
  Token isolation inside the gate container, the rule \<open>ci_gate.py\<close> states in its header: repository
  code runs as an unprivileged user, never before the token is gone from the git remote, and the one
  process that gets the token again (the push of \<open>fix\<close>) starts after all repository code has been
  killed and with a git directory repository code never had access to. The rule is a predicate on
  the history of events, shown for every host whose git leaves a \<open>.git\<close> after a successful clone.
\<close>


section \<open>The isolation rule\<close>

definition is_clone :: "process_call \<Rightarrow> bool" where
  "is_clone c \<longleftrightarrow> take 2 (pc_argv c) = [''git'', ''clone'']"

definition is_set_url :: "process_call \<Rightarrow> bool" where
  "is_set_url c \<longleftrightarrow> take 3 (pc_argv c) = [''git'', ''remote'', ''set-url'']"

text \<open>
  Reading a history from its newest event: no repository code has run; the last clone was followed
  by a successful reset of the remote; the last thing the sandbox user ran is the kill of all its
  processes; repository code only ran after the git directory was moved away.
\<close>

definition no_repo_code :: "history \<Rightarrow> bool" where
  "no_repo_code t \<longleftrightarrow> (\<forall>c. Exec c \<in> set t \<longrightarrow> pc_user c = Self)"

fun remote_clean :: "host \<Rightarrow> history \<Rightarrow> bool" where
  "remote_clean h [] = True"
| "remote_clean h (Exec c # t) =
     (if pc_user c = Self \<and> is_clone c then False
      else if pc_user c = Self \<and> is_set_url c \<and> exited_zero h (Exec c # t) then True
      else remote_clean h t)"
| "remote_clean h (e # t) = remote_clean h t"

fun quiesced :: "history \<Rightarrow> bool" where
  "quiesced [] = True"
| "quiesced (Exec c # t) = (if pc_user c = Unprivileged then c = kill_call else quiesced t)"
| "quiesced (e # t) = quiesced t"

fun git_moved :: "history \<Rightarrow> bool" where
  "git_moved [] = False"
| "git_moved (IsolateGitDir # t) = no_repo_code t"
| "git_moved (e # t) = git_moved t"

text \<open>
  The isolation rule for a process started after \<open>t\<close>: repository code gets no token and finds none
  in the remote; a process with a token runs as the gate itself, with no repository code alive and
  the git directory out of its reach; a clone happens before any repository code.
\<close>

definition call_allowed :: "host \<Rightarrow> process_call \<Rightarrow> history \<Rightarrow> bool" where
  "call_allowed h c t \<longleftrightarrow>
     (if pc_user c = Unprivileged then pc_env_token c = None \<and> remote_clean h t
      else (pc_env_token c \<noteq> None \<longrightarrow> quiesced t \<and> git_moved t) \<and> (is_clone c \<longrightarrow> no_repo_code t))"

fun isolated :: "host \<Rightarrow> history \<Rightarrow> bool" where
  "isolated h [] = True"
| "isolated h (Exec c # t) = (isolated h t \<and> call_allowed h c t)"
| "isolated h (e # t) = isolated h t"

text \<open>What git guarantees: a successful clone leaves a \<open>.git\<close> until the gate moves it away.\<close>

fun cloned :: "host \<Rightarrow> history \<Rightarrow> bool" where
  "cloned h [] = False"
| "cloned h (Exec c # t) = ((pc_user c = Self \<and> is_clone c \<and> exited_zero h (Exec c # t)) \<or> cloned h t)"
| "cloned h (IsolateGitDir # t) = False"
| "cloned h (e # t) = cloned h t"

definition git_kept :: "host \<Rightarrow> bool" where
  "git_kept h \<longleftrightarrow> (\<forall>t. cloned h t \<longrightarrow> h_has_git h t)"

text \<open>The stages of a gate.\<close>

definition before_clone :: "host \<Rightarrow> history \<Rightarrow> bool" where
  "before_clone h t \<longleftrightarrow> isolated h t \<and> no_repo_code t"

definition after_clone :: "host \<Rightarrow> history \<Rightarrow> bool" where
  "after_clone h t \<longleftrightarrow> isolated h t \<and> no_repo_code t \<and> cloned h t"

definition remote_reset :: "host \<Rightarrow> history \<Rightarrow> bool" where
  "remote_reset h t \<longleftrightarrow> isolated h t \<and> remote_clean h t"

definition fix_ready :: "host \<Rightarrow> history \<Rightarrow> bool" where
  "fix_ready h t \<longleftrightarrow> isolated h t \<and> remote_clean h t \<and> git_moved t"

definition pushing :: "host \<Rightarrow> history \<Rightarrow> bool" where
  "pushing h t \<longleftrightarrow> isolated h t \<and> quiesced t \<and> git_moved t"

lemma self_call_fields [simp]:
  "pc_user (self_call a d) = Self" "pc_env_token (self_call a d) = None" "pc_argv (self_call a d) = a"
  by (simp_all add: self_call_def)

lemma sandbox_call_fields [simp]:
  "pc_user (sandbox_call a d) = Unprivileged" "pc_env_token (sandbox_call a d) = None"
  by (simp_all add: sandbox_call_def)

lemma isolated_call_fields [simp]:
  "pc_user (isolated_call ws a tok) = Self" "\<not> is_clone (isolated_call ws a tok)" "\<not> is_set_url (isolated_call ws a tok)"
  by (simp_all add: isolated_call_def is_clone_def is_set_url_def)

lemma no_repo_code_simps [simp]:
  "no_repo_code []"
  "no_repo_code (Exec c # t) \<longleftrightarrow> pc_user c = Self \<and> no_repo_code t"
  "no_repo_code (HandOver d # t) \<longleftrightarrow> no_repo_code t"
  "no_repo_code (IsolateGitDir # t) \<longleftrightarrow> no_repo_code t"
  by (auto simp: no_repo_code_def)

lemma no_repo_code_quiesced: "no_repo_code t \<Longrightarrow> quiesced t"
proof (induction t)
  case (Cons e t)
  then show ?case by (cases e) (auto simp: no_repo_code_def)
qed simp

lemma self_keeps:
  assumes "\<not> is_clone (self_call a d)"
  shows "after_clone h t \<Longrightarrow> after_clone h (Exec (self_call a d) # t)"
    "remote_reset h t \<Longrightarrow> remote_reset h (Exec (self_call a d) # t)"
  using assms by (auto simp: after_clone_def remote_reset_def call_allowed_def)

lemma sandbox_keeps:
  "remote_reset h t \<Longrightarrow> remote_reset h (Exec (sandbox_call a d) # t)"
  "fix_ready h t \<Longrightarrow> fix_ready h (Exec (sandbox_call a d) # t)"
  by (auto simp: remote_reset_def fix_ready_def call_allowed_def)

lemma isolated_call_keeps:
  "pushing h t \<Longrightarrow> pushing h (Exec (isolated_call ws a tok) # t)"
  by (auto simp: pushing_def call_allowed_def)

lemma clone_repo_isolated:
  assumes "before_clone h t"
  shows "wp (clone_repo h repo branch ws token) (\<lambda>_. after_clone h) (\<lambda>_. isolated h) t"
  using assms
  by (auto simp: clone_repo_def wp_simps before_clone_def after_clone_def call_allowed_def clone_call_def is_clone_def
      exited_zero_def split: sum.splits)

lemma clone_and_detect_isolated:
  assumes "before_clone h t"
  shows "wp (clone_and_detect h label repo branch token ws)
    (\<lambda>d. case d of Inl _ \<Rightarrow> isolated h | Inr _ \<Rightarrow> after_clone h) (\<lambda>_. isolated h) t"
  unfolding clone_and_detect_def wp_simps
  by (rule wp_mono [OF clone_repo_isolated [OF assms]])
    (auto simp: wp_simps Let_def after_clone_def split: exn.splits)

lemma scope_git_isolated:
  assumes "after_clone h t" "\<not> is_clone (self_call (''git'' # args) ws)"
  shows "wp (scope_git h ws args) (\<lambda>_. after_clone h) (\<lambda>_. after_clone h) t"
  using self_keeps(1) [OF assms(2) assms(1)]
  by (auto simp: scope_git_def wp_simps split: sum.splits)

lemma changed_files_isolated:
  assumes "after_clone h t"
  shows "wp (changed_files h ws base) (\<lambda>_. after_clone h) (\<lambda>_. after_clone h) t"
  unfolding changed_files_def wp_simps
  by (rule wp_mono [OF scope_git_isolated [OF assms]])
    (auto simp: is_clone_def intro!: wp_mono [OF scope_git_isolated])

lemma after_clone_isolated [intro]: "after_clone h t \<Longrightarrow> isolated h t"
  by (simp add: after_clone_def)

lemma scope_gate_isolated:
  assumes "after_clone h t"
  shows "wp (scope_gate h check base token ws st) (\<lambda>_. after_clone h) (\<lambda>_. isolated h) t"
proof (cases "check = CmdTests")
  case True
  with assms show ?thesis by (simp add: scope_gate_def wp_simps)
next
  case False
  show ?thesis
    unfolding scope_gate_def if_not_P [OF False] wp_simps
    by (rule wp_mono [OF changed_files_isolated [OF assms]])
      (auto simp: wp_simps io_of_plan_def split: exn.splits sum.splits)
qed

lemma plan_gate_isolated:
  assumes "before_clone h t"
  shows "wp (plan_gate h check repo branch base token ws None)
    (\<lambda>p. case p of Inl _ \<Rightarrow> isolated h | Inr _ \<Rightarrow> after_clone h) (\<lambda>_. isolated h) t"
  unfolding plan_gate_def wp_simps option.case
  by (rule wp_mono [OF clone_and_detect_isolated [OF assms]])
    (auto simp: wp_simps split: sum.splits intro!: wp_mono [OF scope_gate_isolated])

lemma strip_remote_token_isolated:
  assumes "after_clone h t" "git_kept h"
  shows "wp (strip_remote_token h ws repo label token)
    (\<lambda>r t'. case r of Some _ \<Rightarrow> isolated h t' | None \<Rightarrow> remote_reset h t' \<and> no_repo_code t') (\<lambda>_. isolated h) t"
proof -
  have "\<not> is_clone (set_url_call ws repo)" "is_set_url (set_url_call ws repo)" "pc_user (set_url_call ws repo) = Self"
    by (simp_all add: set_url_call_def is_clone_def is_set_url_def)
  with assms show ?thesis
    by (auto simp: strip_remote_token_def wp_simps git_kept_def after_clone_def remote_reset_def call_allowed_def
        exited_zero_def set_url_call_def split: sum.splits)
qed

lemma prepare_sandbox_isolated:
  "remote_reset h t \<Longrightarrow>
     wp (prepare_sandbox h ws label) (\<lambda>_. remote_reset h) (\<lambda>_. isolated h) t"
  "fix_ready h t \<Longrightarrow> wp (prepare_sandbox h ws label) (\<lambda>_. fix_ready h) (\<lambda>_. isolated h) t"
  by (auto simp: prepare_sandbox_def wp_simps remote_reset_def fix_ready_def split: option.splits)

lemma run_unprivileged_isolated:
  assumes "\<And>a d t. I t \<Longrightarrow> I (Exec (sandbox_call a d) # t)" "I t"
  shows "wp (run_unprivileged h a d) (\<lambda>_. I) (\<lambda>_. I) t"
  using assms by (auto simp: run_unprivileged_def wp_simps split: sum.splits)

lemma run_script_isolated:
  "remote_reset h t \<Longrightarrow> wp (run_script h ws script) (\<lambda>_. remote_reset h) (\<lambda>_. remote_reset h) t"
  "fix_ready h t \<Longrightarrow> wp (run_script h ws script) (\<lambda>_. fix_ready h) (\<lambda>_. fix_ready h) t"
  by (auto simp: run_script_def intro!: run_unprivileged_isolated sandbox_keeps)

lemma remote_reset_isolated [intro]: "remote_reset h t \<Longrightarrow> isolated h t"
  and fix_ready_isolated [intro]: "fix_ready h t \<Longrightarrow> isolated h t"
  and pushing_isolated [intro]: "pushing h t \<Longrightarrow> isolated h t"
  by (simp_all add: remote_reset_def fix_ready_def pushing_def)

lemma run_gate_isolated:
  assumes "before_clone h t" "git_kept h"
  shows "wp (run_gate h check repo branch base token ws) (\<lambda>_. isolated h) (\<lambda>_. isolated h) t"
  unfolding run_gate_def wp_simps
  apply (rule wp_mono [OF plan_gate_isolated [OF assms(1)]])
   apply (auto simp: wp_simps split: sum.splits)
  apply (rule wp_mono [OF strip_remote_token_isolated [OF _ assms(2)]])
    apply (auto simp: wp_simps split: option.splits)
  apply (rule wp_mono [OF prepare_sandbox_isolated(1)])
     apply (auto simp: wp_simps split: option.splits)
  apply (rule wp_mono [OF run_script_isolated(1)])
    apply (auto simp: wp_simps)
  done

section \<open>The auto-fix and the Forge gate\<close>


lemma isolate_git_dir_isolated:
  assumes "remote_reset h t" "no_repo_code t"
  shows "wp (isolate_git_dir h) (\<lambda>r t'. case r of Some _ \<Rightarrow> isolated h t' | None \<Rightarrow> fix_ready h t') (\<lambda>_. isolated h) t"
proof -
  from assms have "isolated h (IsolateGitDir # t)" "fix_ready h (IsolateGitDir # t)"
    by (simp_all add: remote_reset_def fix_ready_def)
  then show ?thesis
    by (simp add: isolate_git_dir_def wp_simps split: option.split)
qed

lemma kill_call_fields [simp]: "pc_user kill_call = Unprivileged" "pc_env_token kill_call = None"
  by (simp_all add: kill_call_def)

lemma kill_unprivileged_isolated:
  "fix_ready h t \<Longrightarrow> wp (kill_unprivileged h) (\<lambda>_. pushing h) (\<lambda>_. isolated h) t"
  by (auto simp: kill_unprivileged_def wp_simps fix_ready_def pushing_def call_allowed_def split: sum.splits)

lemma run_fixers_isolated:
  assumes "fix_ready h t"
  shows "wp (run_fixers h ws p) (\<lambda>_. pushing h) (\<lambda>_. isolated h) t"
proof -
  have script: "wp (case s of None \<Rightarrow> io_return () | Some script \<Rightarrow> io_bind (run_script h ws script) (\<lambda>_. io_return ()))
      (\<lambda>_. fix_ready h) (\<lambda>_. fix_ready h) t" for s
    using run_script_isolated(2) [OF assms] by (cases s) (auto simp: wp_simps assms)
  have cmds: "wp (io_map (\<lambda>c. io_bind (run_unprivileged h (argv c) (ws @ ''/'' @ cwd c)) (\<lambda>(_, out). io_return out)) cs)
      (\<lambda>_. fix_ready h) (\<lambda>_. fix_ready h) t'" if "fix_ready h t'" for cs t'
    using that
  proof (rule wp_map_invariant [rotated])
    fix c t assume "fix_ready h t"
    then show "wp (io_bind (run_unprivileged h (argv c) (ws @ ''/'' @ cwd c)) (\<lambda>(_, out). io_return out))
        (\<lambda>_. fix_ready h) (\<lambda>_. fix_ready h) t"
      unfolding wp_simps
      by (intro wp_mono [OF run_unprivileged_isolated [where I = "fix_ready h"]])
        (auto simp: wp_simps intro: sandbox_keeps)
  qed
  have kill: "wp (kill_unprivileged h) (\<lambda>_. isolated h) (\<lambda>_. isolated h) t'" if "fix_ready h t'" for t'
    by (rule wp_mono [OF kill_unprivileged_isolated [OF that]]) auto
  show ?thesis
    unfolding run_fixers_def wp_finally wp_bind
    apply (rule wp_mono [OF script])
     apply (rule wp_mono [OF cmds])
       apply (auto intro: kill kill_unprivileged_isolated)
    done
qed

lemma isolated_git_isolated:
  "pushing h t \<Longrightarrow> wp (isolated_git h ws args tok) (\<lambda>_. pushing h) (\<lambda>_. pushing h) t"
  by (auto simp: isolated_git_def wp_simps isolated_call_keeps split: sum.splits)

lemma fix_steps_isolated:
  "pushing h t \<Longrightarrow> wp (fix_steps h ws token out steps) (\<lambda>_. pushing h) (\<lambda>_. pushing h) t"
proof (induction steps arbitrary: t)
  case Nil
  then show ?case by (simp add: wp_simps)
next
  case (Cons s steps)
  obtain name args tok where s: "s = (name, args, tok)" by (cases s)
  show ?case
    unfolding s fix_steps.simps wp_simps
    by (rule wp_mono [OF isolated_git_isolated [OF Cons.prems]]) (auto simp: wp_simps Cons.IH)
qed

lemma revert_fixes_isolated:
  assumes "pushing h t"
  shows "wp (revert_fixes h ws token out outside) (\<lambda>_. pushing h) (\<lambda>_. pushing h) t"
  using wp_mono [OF isolated_git_isolated [OF assms]] assms
  by (auto simp: revert_fixes_def wp_simps)

lemma commit_fixes_isolated:
  assumes "pushing h t"
  shows "wp (commit_fixes h branch token ws author email scope out) (\<lambda>_. pushing h) (\<lambda>_. pushing h) t"
proof -
  have steps: "wp (fix_steps h ws token out steps) (\<lambda>a. wp (io_return (f a)) (\<lambda>_. pushing h) (\<lambda>_. pushing h)) (\<lambda>_. pushing h) t'"
    if "pushing h t'" for steps f t'
    by (rule wp_mono [OF fix_steps_isolated [OF that]]) (simp_all add: wp_simps)
  show ?thesis
    unfolding commit_fixes_def wp_simps Let_def
    by (rule wp_mono [OF isolated_git_isolated [OF assms]])
      (auto simp: wp_simps steps [unfolded wp_simps] split: option.split intro!: wp_mono [OF revert_fixes_isolated])
qed

lemma run_fix_isolated:
  assumes "before_clone h t" "git_kept h"
  shows "wp (run_fix h repo branch base token ws author email) (\<lambda>_. isolated h) (\<lambda>_. isolated h) t"
  unfolding run_fix_def wp_simps
  apply (rule wp_mono [OF plan_gate_isolated [OF assms(1)]])
   apply (auto simp: wp_simps split: sum.splits)
  apply (rule wp_mono [OF strip_remote_token_isolated [OF _ assms(2)]])
    apply (auto simp: wp_simps split: option.splits)
  apply (rule wp_mono [OF isolate_git_dir_isolated])
     apply (auto simp: wp_simps split: option.splits)
  apply (rule wp_mono [OF prepare_sandbox_isolated(2)])
    apply (auto simp: wp_simps split: option.splits)
  apply (rule wp_mono [OF run_fixers_isolated])
    apply (auto simp: wp_simps)
  apply (rule wp_mono [OF commit_fixes_isolated])
    apply auto
  done

lemma forge_plans_isolated:
  assumes "after_clone h t"
  shows "wp (forge_plans h names repo branch base token ws st) (\<lambda>_. after_clone h) (\<lambda>_. isolated h) t"
  using assms
  unfolding forge_plans_def
proof (induction names arbitrary: t)
  case Nil
  then show ?case by (simp add: wp_simps)
next
  case (Cons n names)
  show ?case
    unfolding io_map.simps wp_simps plan_gate_def option.case
    by (rule wp_mono [OF scope_gate_isolated [OF Cons.prems]])
      (auto simp: wp_simps intro!: wp_mono [OF Cons.IH [unfolded plan_gate_def option.case]])
qed

lemma forge_check_isolated:
  "remote_reset h t \<Longrightarrow> wp (forge_check h token ws f np) (\<lambda>_. remote_reset h) (\<lambda>_. remote_reset h) t"
  by (auto simp: forge_check_def wp_simps split: prod.splits sum.splits option.splits
      intro!: wp_mono [OF run_script_isolated(1)])

lemma forge_install_isolated:
  "remote_reset h t \<Longrightarrow> wp (forge_install h token ws st) (\<lambda>_. remote_reset h) (\<lambda>_. remote_reset h) t"
  by (auto simp: forge_install_def wp_simps split: option.splits intro!: wp_mono [OF run_script_isolated(1)])

lemma run_forge_isolated:
  assumes "before_clone h t" "git_kept h"
  shows "wp (run_forge h repo branch base token ws with_tests) (\<lambda>_. isolated h) (\<lambda>_. isolated h) t"
proof -
  have checks: "wp (io_map (forge_check h token ws f) plans) (\<lambda>_. isolated h) (\<lambda>_. isolated h) t'"
    if "remote_reset h t'" for f plans t'
    by (rule wp_mono [OF wp_map_invariant [where I = "remote_reset h"]]) (auto intro: forge_check_isolated that)
  show ?thesis
    unfolding run_forge_def wp_simps Let_def
    apply (rule wp_mono [OF clone_and_detect_isolated [OF assms(1)]])
     apply (auto simp: wp_simps split: sum.splits)
    apply (rule wp_mono [OF forge_plans_isolated])
      apply (auto simp: wp_simps)
    apply (rule wp_mono [OF strip_remote_token_isolated [OF _ assms(2)]])
      apply (auto simp: wp_simps split: option.splits)
    apply (rule wp_mono [OF prepare_sandbox_isolated(1)])
      apply (auto simp: wp_simps split: option.splits)
    apply (rule wp_mono [OF forge_install_isolated])
      apply (auto simp: wp_simps intro!: checks)
    done
qed

text \<open>Every gate process starts with an empty history.\<close>

lemma gate_main_isolated:
  assumes "git_kept h"
  shows "wp (gate_main h dump a stdin) (\<lambda>_. isolated h) (\<lambda>_. isolated h) []"
proof -
  have start: "before_clone h []" by (simp add: before_clone_def)
  have "wp (gate_dispatch h a token ws) (\<lambda>_. isolated h) (\<lambda>_. isolated h) []" for token ws
    unfolding gate_dispatch_def using run_gate_isolated [OF start assms] run_fix_isolated [OF start assms]
      run_forge_isolated [OF start assms] by simp
  then show ?thesis
    unfolding gate_main_def gate_run_def Let_def wp_simps by (rule wp_mono) (auto simp: wp_simps)
qed


end
