(* ===== verification/SchemeGraph.thy ===== *)
theory SchemeGraph
  imports SchemeModel
begin

text \<open>
  \<open>henchmen/schemes/base.py\<close>: a \<open>SchemeDefinition\<close> wrapped with the operations on its graph.
  \<open>_node_map\<close> and \<open>_adjacency\<close> are dictionaries in insertion order, as in the code; the messages
  of \<open>validate\<close> are the constructors of \<open>scheme_problem\<close> with the values they interpolate.
\<close>

section \<open>Construction\<close>

record scheme_graph =
  definition_of :: scheme_definition
  node_map :: "(string, scheme_node) dict"
  adjacency :: "(string, scheme_edge list) dict"

definition build_node_map :: "scheme_node list \<Rightarrow> (string, scheme_node) dict" where
  "build_node_map ns = fold (\<lambda>n m. dict_set m (node_id n) n) ns []"

definition build_adjacency :: "string list \<Rightarrow> scheme_edge list \<Rightarrow> (string, scheme_edge list) dict" where
  "build_adjacency ids es =
     fold (\<lambda>e adj. dict_set adj (from_node e) (dict_get_or adj (from_node e) [] @ [e])) es
       (fold (\<lambda>i adj. dict_set adj i []) ids [])"

definition make_graph :: "scheme_definition \<Rightarrow> scheme_graph" where
  "make_graph d =
     (let nm = build_node_map (scheme_nodes d) in
      \<lparr>definition_of = d, node_map = nm,
       adjacency = build_adjacency (dict_keys nm) (scheme_edges d)\<rparr>)"

abbreviation graph_edges :: "scheme_graph \<Rightarrow> scheme_edge list" where
  "graph_edges g \<equiv> scheme_edges (definition_of g)"

abbreviation node_ids :: "scheme_graph \<Rightarrow> string list" where
  "node_ids g \<equiv> dict_keys (node_map g)"

definition out_edges :: "scheme_graph \<Rightarrow> string \<Rightarrow> scheme_edge list" where
  "out_edges g i = dict_get_or (adjacency g) i []"

section \<open>Lookups\<close>

definition get_node :: "scheme_graph \<Rightarrow> string \<Rightarrow> scheme_node option" where
  "get_node g i = dict_get (node_map g) i"

text \<open>\<open>get_root_node\<close> raises \<open>ValueError\<close> with the root candidates when there is not exactly one.\<close>

definition get_root_node :: "scheme_graph \<Rightarrow> string list + scheme_node" where
  "get_root_node g =
     (let with_incoming = map to_node (graph_edges g);
          roots = filter (\<lambda>n. node_id n \<notin> set with_incoming) (scheme_nodes (definition_of g))
      in case roots of [r] \<Rightarrow> Inr r | _ \<Rightarrow> Inl (map node_id roots))"

definition get_next_nodes :: "scheme_graph \<Rightarrow> string \<Rightarrow> edge_condition option \<Rightarrow> scheme_node list" where
  "get_next_nodes g i c =
     List.map_filter (\<lambda>e. if edge_cond e = c then dict_get (node_map g) (to_node e) else None)
       (out_edges g i)"

definition get_terminal_nodes :: "scheme_graph \<Rightarrow> scheme_node list" where
  "get_terminal_nodes g =
     List.map_filter (\<lambda>i. if out_edges g i = [] then dict_get (node_map g) i else None) (node_ids g)"

section \<open>Validation of the nodes\<close>

datatype scheme_problem =
    DuplicateNodeId string
  | NoInstruction string
  | NoModelName string
  | NotATier string string
  | DeterministicWithModel string string
  | DeterministicWithInstruction string
  | UnknownFromNode string
  | UnknownToNode string
  | FanOut string "edge_condition option" nat
  | NoRoot
  | MultipleRoots "string list"
  | CycleDetected
  | Unreachable string "string list"

definition node_problems :: "string list \<Rightarrow> scheme_node \<Rightarrow> scheme_problem list" where
  "node_problems seen n =
     (if node_id n \<in> set seen then [DuplicateNodeId (node_id n)] else []) @
     (case node_kind n of
        AGENTIC \<Rightarrow>
          (if (case instruction_template n of None \<Rightarrow> True | Some t \<Rightarrow> instruction_blank t)
           then [NoInstruction (node_id n)] else []) @
          (case model_name n of
             None \<Rightarrow> [NoModelName (node_id n)]
           | Some m \<Rightarrow>
               if py_strip m = [] then [NoModelName (node_id n)]
               else if \<not> is_tier_value m then [NotATier (node_id n) m] else [])
      | DETERMINISTIC \<Rightarrow>
          (case model_name n of None \<Rightarrow> [] | Some m \<Rightarrow> [DeterministicWithModel (node_id n) m]) @
          (case instruction_template n of None \<Rightarrow> [] | Some t \<Rightarrow> [DeterministicWithInstruction (node_id n)]))"

fun validate_nodes :: "string list \<Rightarrow> scheme_node list \<Rightarrow> scheme_problem list" where
  "validate_nodes seen [] = []"
| "validate_nodes seen (n # ns) = node_problems seen n @ validate_nodes (node_id n # seen) ns"

section \<open>Validation of the edges\<close>

definition edge_problems :: "scheme_graph \<Rightarrow> scheme_problem list" where
  "edge_problems g =
     concat (map (\<lambda>e.
       (if from_node e \<notin> set (node_ids g) then [UnknownFromNode (from_node e)] else []) @
       (if to_node e \<notin> set (node_ids g) then [UnknownToNode (to_node e)] else [])) (graph_edges g))"

definition edge_key_counts :: "scheme_edge list \<Rightarrow> (string \<times> edge_condition option, nat) dict" where
  "edge_key_counts es =
     fold (\<lambda>e d. dict_set d (from_node e, edge_cond e) (dict_get_or d (from_node e, edge_cond e) 0 + 1)) es []"

definition fan_out_problems :: "scheme_edge list \<Rightarrow> scheme_problem list" where
  "fan_out_problems es =
     concat (map (\<lambda>((f, c), k). if k > 1 then [FanOut f c k] else []) (edge_key_counts es))"

definition root_ids :: "scheme_graph \<Rightarrow> string list" where
  "root_ids g = filter (\<lambda>i. i \<notin> set (map to_node (graph_edges g))) (node_ids g)"

definition root_problems :: "string list \<Rightarrow> scheme_problem list" where
  "root_problems roots =
     (if length roots = 0 then [NoRoot]
      else if length roots > 1 then [MultipleRoots (sort roots)] else [])"

section \<open>Cycle detection\<close>

datatype colour = White | Gray | Black

text \<open>
  \<open>dfs_has_unconditional_cycle\<close> recurses through the colour dictionary. The loop over the outgoing
  edges and the recursive call are the two mutually recursive functions below; the fuel bounds the
  depth of the recursion, each level of which turns one white node gray, so the number of nodes is
  enough (\<open>dfs_enough_fuel\<close>). A \<open>None\<close> result is a run out of fuel.
\<close>

fun dfs_node :: "scheme_graph \<Rightarrow> nat \<Rightarrow> (string, colour) dict \<Rightarrow> string \<Rightarrow> (bool \<times> (string, colour) dict) option"
and dfs_edges :: "scheme_graph \<Rightarrow> nat \<Rightarrow> (string, colour) dict \<Rightarrow> scheme_edge list \<Rightarrow> (bool \<times> (string, colour) dict) option"
where
  "dfs_node g 0 color i = None"
| "dfs_node g (Suc fuel) color i =
     (case dfs_edges g fuel (dict_set color i Gray) (out_edges g i) of
        None \<Rightarrow> None
      | Some (True, color') \<Rightarrow> Some (True, color')
      | Some (False, color') \<Rightarrow> Some (False, dict_set color' i Black))"
| "dfs_edges g fuel color [] = Some (False, color)"
| "dfs_edges g fuel color (e # es) =
     (if edge_cond e \<noteq> None then dfs_edges g fuel color es
      else (case dict_get color (to_node e) of
              Some Gray \<Rightarrow> Some (True, color)
            | Some White \<Rightarrow>
                (case dfs_node g fuel color (to_node e) of
                   None \<Rightarrow> None
                 | Some (True, color') \<Rightarrow> Some (True, color')
                 | Some (False, color') \<Rightarrow> dfs_edges g fuel color' es)
            | _ \<Rightarrow> dfs_edges g fuel color es))"

text \<open>The driver loop over all nodes, which stops at the first cycle.\<close>

fun dfs_all :: "scheme_graph \<Rightarrow> nat \<Rightarrow> (string, colour) dict \<Rightarrow> string list \<Rightarrow> bool option" where
  "dfs_all g fuel color [] = Some False"
| "dfs_all g fuel color (i # is) =
     (if dict_get color i = Some White
      then (case dfs_node g fuel color i of
              None \<Rightarrow> None
            | Some (True, _) \<Rightarrow> Some True
            | Some (False, color') \<Rightarrow> dfs_all g fuel color' is)
      else dfs_all g fuel color is)"

definition has_unconditional_cycle :: "scheme_graph \<Rightarrow> bool option" where
  "has_unconditional_cycle g =
     dfs_all g (length (node_ids g)) (map (\<lambda>i. (i, White)) (node_ids g)) (node_ids g)"

section \<open>Reachability from the root\<close>

text \<open>
  The breadth-first loop over a queue. A popped node that was visited is dropped; a fresh one is
  marked and pushes its unvisited successors. Every iteration either marks a node that has outgoing
  edges or shortens the queue, which is the measure of the termination proof.
\<close>

definition bfs_push :: "scheme_graph \<Rightarrow> string list \<Rightarrow> string \<Rightarrow> string list" where
  "bfs_push g visited i = filter (\<lambda>j. j \<notin> set visited) (map to_node (out_edges g i))"

function bfs :: "scheme_graph \<Rightarrow> string list \<Rightarrow> string list \<Rightarrow> string list" where
  "bfs g visited [] = visited"
| "bfs g visited (i # queue) =
     (if i \<in> set visited then bfs g visited queue
      else bfs g (i # visited) (queue @ bfs_push g (i # visited) i))"
  by pat_completeness auto

lemma out_edges_outside: "i \<notin> set (dict_keys (adjacency g)) \<Longrightarrow> out_edges g i = []"
  by (simp add: out_edges_def dict_get_or_def map_of_eq_None_iff [THEN iffD2])

lemma bfs_measure:
  assumes "i \<notin> set visited"
  shows "((g, i # visited, queue @ bfs_push g (i # visited) i), (g, visited, i # queue))
    \<in> measures [\<lambda>(g, v, q). card (set (dict_keys (adjacency g)) - set v), \<lambda>(g, v, q). length q]"
proof (cases "i \<in> set (dict_keys (adjacency g))")
  case True
  let ?K = "set (dict_keys (adjacency g))"
  from assms True have "?K - set (i # visited) \<subset> ?K - set visited" by auto
  then have "card (?K - set (i # visited)) < card (?K - set visited)"
    by (intro psubset_card_mono) auto
  then show ?thesis by simp
next
  case False
  then have "bfs_push g (i # visited) i = []"
    by (simp add: bfs_push_def out_edges_outside)
  moreover from False have "set (dict_keys (adjacency g)) - set (i # visited) = set (dict_keys (adjacency g)) - set visited"
    by auto
  ultimately show ?thesis by simp
qed

termination bfs
  by (relation "measures [\<lambda>(g, v, q). card (set (dict_keys (adjacency g)) - set v), \<lambda>(g, v, q). length q]")
     (simp, simp, rule bfs_measure)

declare bfs.simps [simp del]

definition reachability_problems :: "scheme_graph \<Rightarrow> string list \<Rightarrow> scheme_problem list" where
  "reachability_problems g roots =
     (case roots of
        [r] \<Rightarrow>
          (let visited = bfs g [] [r];
               unreachable = filter (\<lambda>i. i \<notin> set visited) (node_ids g)
           in if unreachable \<noteq> [] then [Unreachable r (sort unreachable)] else [])
      | _ \<Rightarrow> [])"

section \<open>The validation as a whole\<close>

definition validate :: "scheme_graph \<Rightarrow> scheme_problem list" where
  "validate g =
     (let errors = validate_nodes [] (scheme_nodes (definition_of g)); bad = edge_problems g in
      if bad \<noteq> [] then errors @ bad
      else errors @ fan_out_problems (graph_edges g) @ root_problems (root_ids g) @
           (if has_unconditional_cycle g = Some True then [CycleDetected] else []) @
           reachability_problems g (root_ids g))"

section \<open>What the built graph holds\<close>

lemma fold_set_nodes_get:
  "dict_get (fold (\<lambda>n m. dict_set m (node_id n) n) ns m) i =
     (case find (\<lambda>n. node_id n = i) (rev ns) of None \<Rightarrow> dict_get m i | Some n \<Rightarrow> Some n)"
proof (induction ns arbitrary: m)
  case Nil
  then show ?case by simp
next
  case (Cons a ns)
  have "find P (xs @ [a]) = (case find P xs of None \<Rightarrow> if P a then Some a else None | Some n \<Rightarrow> Some n)" for P xs
    by (induction xs) auto
  with Cons show ?case by (auto split: option.splits)
qed

lemma node_map_make_graph:
  "dict_get (node_map (make_graph d)) i = find (\<lambda>n. node_id n = i) (rev (scheme_nodes d))"
  by (simp add: make_graph_def build_node_map_def fold_set_nodes_get Let_def split: option.splits)

lemma dict_keys_set: "dict_keys (dict_set d k v) = (if k \<in> set (dict_keys d) then dict_keys d else dict_keys d @ [k])"
  by (induction d) auto

lemma fold_set_nodes_keys:
  "distinct (dict_keys m @ map node_id ns) \<Longrightarrow>
     dict_keys (fold (\<lambda>n m. dict_set m (node_id n) n) ns m) = dict_keys m @ map node_id ns"
  by (induction ns arbitrary: m) (auto simp: dict_keys_set)

lemma node_ids_make_graph:
  "distinct (map node_id (scheme_nodes d)) \<Longrightarrow> node_ids (make_graph d) = map node_id (scheme_nodes d)"
  using fold_set_nodes_keys [of "[]"] by (simp add: make_graph_def build_node_map_def Let_def)

lemma fold_set_nodes_key_set:
  "fst ` set (fold (\<lambda>n m. dict_set m (node_id n) n) ns m) = fst ` set m \<union> node_id ` set ns"
  by (induction ns arbitrary: m) auto

lemma set_node_ids_make_graph [simp]: "fst ` set (node_map (make_graph d)) = node_id ` set (scheme_nodes d)"
  by (simp add: make_graph_def build_node_map_def fold_set_nodes_key_set Let_def)

lemma fold_set_nodes_distinct:
  "distinct (dict_keys m) \<Longrightarrow> distinct (dict_keys (fold (\<lambda>n m. dict_set m (node_id n) n) ns m))"
  by (induction ns arbitrary: m) (auto simp: dict_keys_set)

lemma distinct_node_ids: "distinct (node_ids (make_graph d))"
  by (simp add: make_graph_def build_node_map_def fold_set_nodes_distinct Let_def)

lemma fold_adjacency_get:
  "dict_get_or (fold (\<lambda>e adj. dict_set adj (from_node e) (dict_get_or adj (from_node e) [] @ [e])) es adj) i []
     = dict_get_or adj i [] @ filter (\<lambda>e. from_node e = i) es"
  by (induction es arbitrary: adj) auto

lemma fold_empty_adjacency_get:
  "dict_get_or adj i [] = [] \<Longrightarrow> dict_get_or (fold (\<lambda>i adj. dict_set adj i []) ids adj) i [] = []"
  by (induction ids arbitrary: adj) auto

text \<open>The adjacency list of a node is the sublist of its outgoing edges, in definition order.\<close>

lemma out_edges_make_graph: "out_edges (make_graph d) i = filter (\<lambda>e. from_node e = i) (scheme_edges d)"
  by (simp add: out_edges_def make_graph_def build_adjacency_def fold_adjacency_get fold_empty_adjacency_get Let_def)

lemma get_next_nodes_mem:
  "n \<in> set (get_next_nodes g i c) \<longleftrightarrow>
     (\<exists>e\<in>set (out_edges g i). edge_cond e = c \<and> dict_get (node_map g) (to_node e) = Some n)"
  by (force simp: get_next_nodes_def List.map_filter_def)

lemma definition_of_make_graph [simp]: "definition_of (make_graph d) = d"
  by (simp add: make_graph_def Let_def)

end
