(* ===== verification/Schemes.thy ===== *)
theory Schemes
  imports SchemeGraph
begin

text \<open>
  The registered schemes (\<open>henchmen/schemes/_shared_templates.py\<close>, \<open>bugfix_standard.py\<close>,
  \<open>feature_standard.py\<close>, \<open>goal_decomposition.py\<close>) and the registry (\<open>registry.py\<close>).
\<close>

section \<open>The shared CI pipeline\<close>

definition det_node :: "string \<Rightarrow> string \<Rightarrow> int \<Rightarrow> scheme_node" where
  "det_node i nm timeout =
     \<lparr>node_id = i, node_name = nm, node_kind = DETERMINISTIC, sn_arsenal = None, sn_dossier = None,
      max_steps = 20, sn_step_budget = None, timeout_seconds = timeout,
      instruction_template = None, model_name = None\<rparr>"

definition fix_tests_node :: scheme_node where
  "fix_tests_node =
     \<lparr>node_id = ''fix_tests'', node_name = ''Fix Tests'', node_kind = AGENTIC,
      sn_arsenal = Some \<lparr>tool_sets = [TS_code_edit, TS_test_runner, TS_code_intel], allow_destructive = False\<rparr>,
      sn_dossier = None, max_steps = 15, sn_step_budget = None, timeout_seconds = 600,
      instruction_template = Some (Shared FIX_TESTS_INSTRUCTION_TEMPLATE),
      model_name = Some (tier_value REASONING)\<rparr>"

definition edge :: "string \<Rightarrow> string \<Rightarrow> edge_condition option \<Rightarrow> scheme_edge" where
  "edge f t c = \<lparr>from_node = f, to_node = t, edge_cond = c\<rparr>"

definition pipeline_nodes :: "scheme_node \<Rightarrow> scheme_node list" where
  "pipeline_nodes impl =
     [det_node ''create_branch'' ''Create Branch'' 30,
      det_node ''prefetch_context'' ''Prefetch Context'' 60,
      impl,
      det_node ''verify_changes'' ''Verify Changes'' 30,
      det_node ''run_lint'' ''Run Lint'' 60,
      det_node ''fix_lint'' ''Fix Lint'' 120,
      det_node ''run_lint_retry'' ''Run Lint (Retry)'' 60,
      det_node ''run_tests'' ''Run Tests'' 300,
      fix_tests_node,
      det_node ''run_tests_retry'' ''Run Tests (Retry)'' 300,
      det_node ''create_pr'' ''Create PR'' 30,
      det_node ''escalate'' ''Escalate'' 30]"

definition pipeline_edges :: "string \<Rightarrow> scheme_edge list" where
  "pipeline_edges impl =
     [edge ''create_branch'' ''prefetch_context'' None,
      edge ''prefetch_context'' impl None,
      edge impl ''verify_changes'' None,
      edge impl ''escalate'' (Some Fail),
      edge ''verify_changes'' ''run_lint'' (Some Pass),
      edge ''verify_changes'' ''escalate'' (Some Fail),
      edge ''run_lint'' ''run_tests'' (Some Pass),
      edge ''run_lint'' ''fix_lint'' (Some Fail),
      edge ''fix_lint'' ''run_lint_retry'' None,
      edge ''run_lint_retry'' ''run_tests'' (Some Pass),
      edge ''run_lint_retry'' ''escalate'' (Some Fail),
      edge ''run_tests'' ''create_pr'' (Some Pass),
      edge ''run_tests'' ''fix_tests'' (Some Fail),
      edge ''fix_tests'' ''run_tests_retry'' None,
      edge ''run_tests_retry'' ''create_pr'' (Some Pass),
      edge ''run_tests_retry'' ''escalate'' (Some Fail)]"

definition standard_ci_pipeline :: "scheme_node \<Rightarrow> scheme_node list \<times> scheme_edge list" where
  "standard_ci_pipeline impl = (pipeline_nodes impl, pipeline_edges (node_id impl))"

definition standard_scheme :: "string \<Rightarrow> string \<Rightarrow> string \<Rightarrow> scheme_node \<Rightarrow> scheme_definition" where
  "standard_scheme sid nm ver impl =
     (let (ns, es) = standard_ci_pipeline impl in
      \<lparr>scheme_id = sid, scheme_name = nm, scheme_version = ver, scheme_nodes = ns, scheme_edges = es\<rparr>)"

section \<open>The three schemes\<close>

definition implement_fix_node :: scheme_node where
  "implement_fix_node =
     \<lparr>node_id = ''implement_fix'', node_name = ''Implement Fix'', node_kind = AGENTIC,
      sn_arsenal = Some \<lparr>tool_sets = [TS_code_intel, TS_code_edit, TS_git_ops, TS_test_runner, TS_context],
                         allow_destructive = False\<rparr>,
      sn_dossier = Some (default_dossier_requirement
                           \<lparr>fetch_files := True, fetch_rules := True, fetch_related_prs := True\<rparr>),
      max_steps = 50, sn_step_budget = None, timeout_seconds = 1800,
      instruction_template = Some (Shared BUGFIX_INSTRUCTION_TEMPLATE),
      model_name = Some (tier_value COMPLEX)\<rparr>"

definition BUGFIX_STANDARD :: scheme_definition where
  "BUGFIX_STANDARD = standard_scheme ''bugfix_standard'' ''Bugfix Standard'' ''3.0.0'' implement_fix_node"

definition implement_feature_node :: scheme_node where
  "implement_feature_node =
     \<lparr>node_id = ''implement_feature'', node_name = ''Implement Feature'', node_kind = AGENTIC,
      sn_arsenal = Some \<lparr>tool_sets = [TS_code_intel, TS_code_edit, TS_git_ops, TS_test_runner, TS_context],
                         allow_destructive = False\<rparr>,
      sn_dossier = Some (default_dossier_requirement
                           \<lparr>fetch_files := True, fetch_rules := True,
                            fetch_related_issues := True, fetch_related_prs := True\<rparr>),
      max_steps = 50, sn_step_budget = None, timeout_seconds = 1800,
      instruction_template = Some (Shared FEATURE_INSTRUCTION_TEMPLATE),
      model_name = Some (tier_value COMPLEX)\<rparr>"

definition FEATURE_STANDARD :: scheme_definition where
  "FEATURE_STANDARD =
     standard_scheme ''feature_standard'' ''Feature Standard'' ''4.0.0'' implement_feature_node"

definition analyze_goal_node :: scheme_node where
  "analyze_goal_node =
     \<lparr>node_id = ''analyze_goal'', node_name = ''Analyze Goal'', node_kind = AGENTIC,
      sn_arsenal = Some \<lparr>tool_sets = [TS_code_intel], allow_destructive = False\<rparr>,
      sn_dossier = Some (default_dossier_requirement \<lparr>fetch_files := True, fetch_rules := True\<rparr>),
      max_steps = 5, sn_step_budget = None, timeout_seconds = 300,
      instruction_template = Some (Shared PLAN_INSTRUCTION_TEMPLATE),
      model_name = Some (tier_value REASONING)\<rparr>"

definition GOAL_DECOMPOSITION :: scheme_definition where
  "GOAL_DECOMPOSITION =
     \<lparr>scheme_id = ''goal_decomposition'', scheme_name = ''Goal Decomposition'', scheme_version = ''1.1.0'',
      scheme_nodes = [analyze_goal_node, det_node ''report_plan'' ''Report Plan'' 30],
      scheme_edges = [edge ''analyze_goal'' ''report_plan'' None]\<rparr>"

section \<open>The registry\<close>

text \<open>
  \<open>SchemeRegistry._schemes\<close> is passed as the state. \<open>register\<close> raises \<open>ValueError\<close> with the
  problems of an invalid scheme and leaves the registry alone.
\<close>

type_synonym registry = "(string, scheme_graph) dict"

definition register :: "scheme_definition \<Rightarrow> registry \<Rightarrow> scheme_problem list + registry" where
  "register d r =
     (let g = make_graph d; errors = validate g in
      if errors \<noteq> [] then Inl errors else Inr (dict_set r (scheme_id d) g))"

definition registry_get :: "registry \<Rightarrow> string \<Rightarrow> scheme_graph option" where
  "registry_get r i = dict_get r i"

definition list_schemes :: "registry \<Rightarrow> string list" where
  "list_schemes r = dict_keys r"

definition registry_clear :: "registry \<Rightarrow> registry" where
  "registry_clear r = []"

text \<open>Importing the scheme modules registers them in this order (\<open>pkgutil\<close> lists modules by name).\<close>

definition auto_discover :: "registry \<Rightarrow> scheme_problem list + registry" where
  "auto_discover r =
     res_bind (register BUGFIX_STANDARD r) (\<lambda>r1.
     res_bind (register FEATURE_STANDARD r1) (\<lambda>r2.
     register GOAL_DECOMPOSITION r2))"

section \<open>Routing in the standard pipeline\<close>

definition pipeline_ids :: "string list" where
  "pipeline_ids =
     [''create_branch'', ''prefetch_context'', ''verify_changes'', ''run_lint'', ''fix_lint'',
      ''run_lint_retry'', ''run_tests'', ''fix_tests'', ''run_tests_retry'', ''create_pr'', ''escalate'']"

text \<open>The graph of a standard scheme with implementation node \<open>impl\<close>.\<close>

abbreviation standard_graph :: "string \<Rightarrow> string \<Rightarrow> string \<Rightarrow> scheme_node \<Rightarrow> scheme_graph" where
  "standard_graph sid nm ver impl \<equiv> make_graph (standard_scheme sid nm ver impl)"

lemma node_id_det [simp]: "node_id (det_node i nm t) = i"
  and node_kind_det [simp]: "node_kind (det_node i nm t) = DETERMINISTIC"
  and node_name_det [simp]: "node_name (det_node i nm t) = nm"
  by (simp_all add: det_node_def)

lemma fix_tests_fields [simp]:
  "node_id fix_tests_node = ''fix_tests''" "node_kind fix_tests_node = AGENTIC"
  by (simp_all add: fix_tests_node_def)

lemma edge_fields [simp]:
  "from_node (edge f t c) = f" "to_node (edge f t c) = t" "edge_cond (edge f t c) = c"
  by (simp_all add: edge_def)

lemma standard_scheme_fields [simp]:
  "scheme_nodes (standard_scheme sid nm ver impl) = pipeline_nodes impl"
  "scheme_edges (standard_scheme sid nm ver impl) = pipeline_edges (node_id impl)"
  "scheme_id (standard_scheme sid nm ver impl) = sid"
  by (simp_all add: standard_scheme_def standard_ci_pipeline_def)

lemma pipeline_ids_distinct:
  "node_id impl \<notin> set pipeline_ids \<Longrightarrow> distinct (map node_id (pipeline_nodes impl))"
  by (auto simp: pipeline_nodes_def pipeline_ids_def)

lemma std_find:
  assumes "node_id impl \<notin> set pipeline_ids"
  shows "dict_get (node_map (standard_graph sid nm ver impl)) i = find (\<lambda>n. node_id n = i) (pipeline_nodes impl)"
  using pipeline_ids_distinct [OF assms] by (simp add: node_map_make_graph find_rev_distinct)

text \<open>
  One rule per node and outcome: the successors \<open>get_next_nodes\<close> returns. \<open>impl\<close> is any
  implementation node whose id is not one of the pipeline's own.
\<close>

lemma pipeline_ids_neq:
  assumes "node_id impl \<notin> set pipeline_ids" "i \<in> set pipeline_ids"
  shows "node_id impl \<noteq> i" "i \<noteq> node_id impl"
  using assms by auto

lemmas pipeline_neq =
  pipeline_ids_neq [of _ "''create_branch''"] pipeline_ids_neq [of _ "''prefetch_context''"]
  pipeline_ids_neq [of _ "''verify_changes''"] pipeline_ids_neq [of _ "''run_lint''"]
  pipeline_ids_neq [of _ "''fix_lint''"] pipeline_ids_neq [of _ "''run_lint_retry''"]
  pipeline_ids_neq [of _ "''run_tests''"] pipeline_ids_neq [of _ "''fix_tests''"]
  pipeline_ids_neq [of _ "''run_tests_retry''"] pipeline_ids_neq [of _ "''create_pr''"]
  pipeline_ids_neq [of _ "''escalate''"]

lemma pipeline_ids_members:
  "''create_branch'' \<in> set pipeline_ids" "''prefetch_context'' \<in> set pipeline_ids"
  "''verify_changes'' \<in> set pipeline_ids" "''run_lint'' \<in> set pipeline_ids"
  "''fix_lint'' \<in> set pipeline_ids" "''run_lint_retry'' \<in> set pipeline_ids"
  "''run_tests'' \<in> set pipeline_ids" "''fix_tests'' \<in> set pipeline_ids"
  "''run_tests_retry'' \<in> set pipeline_ids" "''create_pr'' \<in> set pipeline_ids"
  "''escalate'' \<in> set pipeline_ids"
  by (simp_all add: pipeline_ids_def)

text \<open>The outgoing edges and the node of every id of the pipeline.\<close>

lemma std_edges:
  assumes "node_id impl \<notin> set pipeline_ids"
  shows
    "out_edges (standard_graph sid nm ver impl) ''create_branch'' = [edge ''create_branch'' ''prefetch_context'' None]"
    "out_edges (standard_graph sid nm ver impl) ''prefetch_context'' = [edge ''prefetch_context'' (node_id impl) None]"
    "out_edges (standard_graph sid nm ver impl) (node_id impl) = [edge (node_id impl) ''verify_changes'' None, edge (node_id impl) ''escalate'' (Some Fail)]"
    "out_edges (standard_graph sid nm ver impl) ''verify_changes'' = [edge ''verify_changes'' ''run_lint'' (Some Pass), edge ''verify_changes'' ''escalate'' (Some Fail)]"
    "out_edges (standard_graph sid nm ver impl) ''run_lint'' = [edge ''run_lint'' ''run_tests'' (Some Pass), edge ''run_lint'' ''fix_lint'' (Some Fail)]"
    "out_edges (standard_graph sid nm ver impl) ''fix_lint'' = [edge ''fix_lint'' ''run_lint_retry'' None]"
    "out_edges (standard_graph sid nm ver impl) ''run_lint_retry'' = [edge ''run_lint_retry'' ''run_tests'' (Some Pass), edge ''run_lint_retry'' ''escalate'' (Some Fail)]"
    "out_edges (standard_graph sid nm ver impl) ''run_tests'' = [edge ''run_tests'' ''create_pr'' (Some Pass), edge ''run_tests'' ''fix_tests'' (Some Fail)]"
    "out_edges (standard_graph sid nm ver impl) ''fix_tests'' = [edge ''fix_tests'' ''run_tests_retry'' None]"
    "out_edges (standard_graph sid nm ver impl) ''run_tests_retry'' = [edge ''run_tests_retry'' ''create_pr'' (Some Pass), edge ''run_tests_retry'' ''escalate'' (Some Fail)]"
    "out_edges (standard_graph sid nm ver impl) ''create_pr'' = []"
    "out_edges (standard_graph sid nm ver impl) ''escalate'' = []"
  by (simp_all add: out_edges_make_graph pipeline_edges_def pipeline_neq [OF assms] pipeline_ids_members)

lemma std_nodes:
  assumes "node_id impl \<notin> set pipeline_ids"
  shows
    "dict_get (node_map (standard_graph sid nm ver impl)) ''create_branch'' = Some (det_node ''create_branch'' ''Create Branch'' 30)"
    "dict_get (node_map (standard_graph sid nm ver impl)) ''prefetch_context'' = Some (det_node ''prefetch_context'' ''Prefetch Context'' 60)"
    "dict_get (node_map (standard_graph sid nm ver impl)) (node_id impl) = Some (impl)"
    "dict_get (node_map (standard_graph sid nm ver impl)) ''verify_changes'' = Some (det_node ''verify_changes'' ''Verify Changes'' 30)"
    "dict_get (node_map (standard_graph sid nm ver impl)) ''run_lint'' = Some (det_node ''run_lint'' ''Run Lint'' 60)"
    "dict_get (node_map (standard_graph sid nm ver impl)) ''fix_lint'' = Some (det_node ''fix_lint'' ''Fix Lint'' 120)"
    "dict_get (node_map (standard_graph sid nm ver impl)) ''run_lint_retry'' = Some (det_node ''run_lint_retry'' ''Run Lint (Retry)'' 60)"
    "dict_get (node_map (standard_graph sid nm ver impl)) ''run_tests'' = Some (det_node ''run_tests'' ''Run Tests'' 300)"
    "dict_get (node_map (standard_graph sid nm ver impl)) ''fix_tests'' = Some (fix_tests_node)"
    "dict_get (node_map (standard_graph sid nm ver impl)) ''run_tests_retry'' = Some (det_node ''run_tests_retry'' ''Run Tests (Retry)'' 300)"
    "dict_get (node_map (standard_graph sid nm ver impl)) ''create_pr'' = Some (det_node ''create_pr'' ''Create PR'' 30)"
    "dict_get (node_map (standard_graph sid nm ver impl)) ''escalate'' = Some (det_node ''escalate'' ''Escalate'' 30)"
  by (simp_all add: std_find [OF assms] pipeline_nodes_def pipeline_neq [OF assms] pipeline_ids_members)

text \<open>
  One rule per node and outcome: the successors \<open>get_next_nodes\<close> returns. \<open>impl\<close> is any
  implementation node whose id is not one of the pipeline's own.
\<close>

lemma std_next:
  assumes "node_id impl \<notin> set pipeline_ids"
  shows
    "get_next_nodes (standard_graph sid nm ver impl) ''create_branch'' c = (if c = None then [det_node ''prefetch_context'' ''Prefetch Context'' 60] else [])"
    "get_next_nodes (standard_graph sid nm ver impl) ''prefetch_context'' c = (if c = None then [impl] else [])"
    "get_next_nodes (standard_graph sid nm ver impl) (node_id impl) c = (if c = None then [det_node ''verify_changes'' ''Verify Changes'' 30] else if c = (Some Fail) then [det_node ''escalate'' ''Escalate'' 30] else [])"
    "get_next_nodes (standard_graph sid nm ver impl) ''verify_changes'' c = (if c = (Some Pass) then [det_node ''run_lint'' ''Run Lint'' 60] else if c = (Some Fail) then [det_node ''escalate'' ''Escalate'' 30] else [])"
    "get_next_nodes (standard_graph sid nm ver impl) ''run_lint'' c = (if c = (Some Pass) then [det_node ''run_tests'' ''Run Tests'' 300] else if c = (Some Fail) then [det_node ''fix_lint'' ''Fix Lint'' 120] else [])"
    "get_next_nodes (standard_graph sid nm ver impl) ''fix_lint'' c = (if c = None then [det_node ''run_lint_retry'' ''Run Lint (Retry)'' 60] else [])"
    "get_next_nodes (standard_graph sid nm ver impl) ''run_lint_retry'' c = (if c = (Some Pass) then [det_node ''run_tests'' ''Run Tests'' 300] else if c = (Some Fail) then [det_node ''escalate'' ''Escalate'' 30] else [])"
    "get_next_nodes (standard_graph sid nm ver impl) ''run_tests'' c = (if c = (Some Pass) then [det_node ''create_pr'' ''Create PR'' 30] else if c = (Some Fail) then [fix_tests_node] else [])"
    "get_next_nodes (standard_graph sid nm ver impl) ''fix_tests'' c = (if c = None then [det_node ''run_tests_retry'' ''Run Tests (Retry)'' 300] else [])"
    "get_next_nodes (standard_graph sid nm ver impl) ''run_tests_retry'' c = (if c = (Some Pass) then [det_node ''create_pr'' ''Create PR'' 30] else if c = (Some Fail) then [det_node ''escalate'' ''Escalate'' 30] else [])"
    "get_next_nodes (standard_graph sid nm ver impl) ''create_pr'' c = ([])"
    "get_next_nodes (standard_graph sid nm ver impl) ''escalate'' c = ([])"
  by (simp_all add: get_next_nodes_def std_edges [OF assms] std_nodes [OF assms])

lemma std_root:
  assumes "node_id impl \<notin> set pipeline_ids"
  shows "get_root_node (standard_graph sid nm ver impl) = Inr (det_node ''create_branch'' ''Create Branch'' 30)"
  by (simp add: get_root_node_def pipeline_edges_def pipeline_nodes_def Let_def
      pipeline_neq [OF assms] pipeline_ids_members)

lemma implement_ids:
  "node_id implement_fix_node \<notin> set pipeline_ids"
  "node_id implement_feature_node \<notin> set pipeline_ids"
  by (simp_all add: implement_fix_node_def implement_feature_node_def pipeline_ids_def)

section \<open>The registered schemes are valid\<close>

lemma bugfix_valid: "validate (make_graph BUGFIX_STANDARD) = []"
  by code_simp

lemma feature_valid: "validate (make_graph FEATURE_STANDARD) = []"
  by code_simp

lemma goal_valid: "validate (make_graph GOAL_DECOMPOSITION) = []"
  by code_simp

end
