(* ===== verification/SchemeValidation.thy ===== *)
theory SchemeValidation
  imports SchemeGraph
begin

text \<open>
  What \<open>SchemeGraph.validate\<close> decides: its depth-first search finds a cycle of unconditional edges
  exactly when there is one and never runs out of the fuel it is given, its breadth-first search
  visits exactly the nodes reachable from the root, and the fan-out count is exact. An accepted
  scheme therefore has the shape the executor relies on.
\<close>

section \<open>The depth-first search\<close>

definition uncond :: "scheme_graph \<Rightarrow> (string \<times> string) set" where
  "uncond g = {(i, to_node e) | i e.
     e \<in> set (out_edges g i) \<and> edge_cond e = None \<and> to_node e \<in> set (node_ids g)}"

definition coloured :: "(string, colour) dict \<Rightarrow> colour \<Rightarrow> string set" where
  "coloured c k = {i. dict_get c i = Some k}"

text \<open>
  The search keeps the black nodes closed under unconditional edges and free of cycles.
\<close>

definition dfs_inv :: "scheme_graph \<Rightarrow> (string, colour) dict \<Rightarrow> bool" where
  "dfs_inv g c \<longleftrightarrow>
     fst ` set c = set (node_ids g) \<and>
     (\<forall>x\<in>coloured c Black. \<forall>y. (x, y) \<in> uncond g \<longrightarrow> y \<in> coloured c Black) \<and>
     (\<forall>x\<in>coloured c Black. (x, x) \<notin> (uncond g)\<^sup>+)"

abbreviation has_cycle :: "scheme_graph \<Rightarrow> bool" where
  "has_cycle g \<equiv> \<exists>x. (x, x) \<in> (uncond g)\<^sup>+"

lemma finite_coloured [simp]: "finite (coloured c k)"
proof (rule finite_subset)
  show "coloured c k \<subseteq> fst ` set c"
    unfolding coloured_def by (force dest: map_of_SomeD)
qed simp

lemma coloured_set [simp]:
  "coloured (dict_set c i k) k' = (if k' = k then insert i (coloured c k') else coloured c k' - {i})"
  by (auto simp: coloured_def)

lemma coloured_unique: "i \<in> coloured c k \<Longrightarrow> i \<in> coloured c k' \<Longrightarrow> k = k'"
  by (simp add: coloured_def)

lemma trancl_closed:
  "(x, y) \<in> E\<^sup>+ \<Longrightarrow> (\<And>u v. u \<in> B \<Longrightarrow> (u, v) \<in> E \<Longrightarrow> v \<in> B) \<Longrightarrow> (\<And>v. (x, v) \<in> E \<Longrightarrow> v \<in> B) \<Longrightarrow> y \<in> B"
  by (induction rule: trancl.induct) auto

text \<open>Blackening a gray node all of whose successors are black keeps the invariant.\<close>

lemma dfs_inv_blacken:
  assumes inv: "dfs_inv g c" and i: "i \<in> coloured c Gray"
    and succ: "\<And>v. (i, v) \<in> uncond g \<Longrightarrow> v \<in> coloured c Black"
  shows "dfs_inv g (dict_set c i Black)"
proof -
  from i have "i \<notin> coloured c Black" by (auto dest: coloured_unique)
  then have "(i, i) \<notin> (uncond g)\<^sup>+"
    using trancl_closed [of i i "uncond g" "coloured c Black"] inv succ by (auto simp: dfs_inv_def)
  moreover have "i \<in> fst ` set c"
    using i by (force simp: coloured_def dest: map_of_SomeD)
  ultimately show ?thesis
    using inv succ by (auto simp: dfs_inv_def)
qed

lemma dfs_inv_gray:
  "dfs_inv g c \<Longrightarrow> i \<in> coloured c White \<Longrightarrow> dfs_inv g (dict_set c i Gray)"
proof -
  assume inv: "dfs_inv g c" and i: "i \<in> coloured c White"
  from i have "i \<in> fst ` set c" by (force simp: coloured_def dest: map_of_SomeD)
  moreover from i have "i \<notin> coloured c Black" by (auto dest: coloured_unique)
  ultimately show ?thesis using inv by (auto simp: dfs_inv_def)
qed

text \<open>The outcome of a search from colours \<open>c\<close>: a cycle, or colours in which more is black.\<close>

definition dfs_ok :: "scheme_graph \<Rightarrow> (string, colour) dict \<Rightarrow> string set \<Rightarrow> (bool \<times> (string, colour) dict) option \<Rightarrow> bool" where
  "dfs_ok g c done_ids r =
     (case r of
        None \<Rightarrow> False
      | Some (b, c') \<Rightarrow>
          if b then has_cycle g
          else dfs_inv g c' \<and> coloured c' Gray = coloured c Gray \<and>
            coloured c Black \<subseteq> coloured c' Black \<and> done_ids \<subseteq> coloured c' Black \<and>
            coloured c' White \<subseteq> coloured c White)"

lemma dfs_ok_cases:
  assumes "dfs_ok g c D r"
  obtains c' where "r = Some (True, c')" "has_cycle g"
  | c' where "r = Some (False, c')" "dfs_inv g c'" "coloured c' Gray = coloured c Gray"
      "coloured c Black \<subseteq> coloured c' Black" "D \<subseteq> coloured c' Black" "coloured c' White \<subseteq> coloured c White"
  using assms by (auto simp: dfs_ok_def split: option.splits prod.splits if_splits)

definition live_targets :: "scheme_graph \<Rightarrow> scheme_edge list \<Rightarrow> string set" where
  "live_targets g es = {to_node e | e. e \<in> set es \<and> edge_cond e = None \<and> to_node e \<in> set (node_ids g)}"

lemma live_targets_Cons:
  "live_targets g (e # es) =
     (if edge_cond e = None \<and> to_node e \<in> set (node_ids g) then {to_node e} else {}) \<union> live_targets g es"
  by (auto simp: live_targets_def)

lemma dfs_spec:
  "dfs_inv g c \<Longrightarrow> i \<in> coloured c White \<Longrightarrow> card (coloured c White) \<le> fuel \<Longrightarrow>
     (\<forall>x\<in>coloured c Gray. (x, i) \<in> (uncond g)\<^sup>*) \<Longrightarrow> dfs_ok g c {i} (dfs_node g fuel c i)"
  "\<forall>i. dfs_inv g c \<longrightarrow> card (coloured c White) \<le> fuel \<longrightarrow> i \<in> coloured c Gray \<longrightarrow>
     (\<forall>x\<in>coloured c Gray. (x, i) \<in> (uncond g)\<^sup>*) \<longrightarrow> set es \<subseteq> set (out_edges g i) \<longrightarrow>
     dfs_ok g c (live_targets g es) (dfs_edges g fuel c es)"
proof (induction g fuel c i and g fuel c es rule: dfs_node_dfs_edges.induct)
  case (1 g c i)
  then show ?case by (auto simp: card_eq_0_iff)
next
  case (2 g fuel c i)
  let ?c = "dict_set c i Gray"
  from 2 have white: "coloured ?c White = coloured c White - {i}" by simp
  with 2 have "card (coloured ?c White) \<le> fuel"
    by (metis Suc_le_mono card_Suc_Diff1 finite_coloured)
  moreover have "\<forall>x\<in>coloured ?c Gray. (x, i) \<in> (uncond g)\<^sup>*" using 2 by auto
  ultimately have "dfs_ok g ?c (live_targets g (out_edges g i)) (dfs_edges g fuel ?c (out_edges g i))"
    using 2 dfs_inv_gray by auto
  then show ?case
  proof (cases rule: dfs_ok_cases)
    case (1 c')
    then show ?thesis by (simp add: dfs_ok_def)
  next
    case ok: (2 c')
    from 2 have ni: "i \<notin> coloured c Gray" "i \<notin> coloured c Black" by (auto dest: coloured_unique)
    have "v \<in> coloured c' Black" if "(i, v) \<in> uncond g" for v
    proof -
      from that have "v \<in> live_targets g (out_edges g i)" by (auto simp: uncond_def live_targets_def)
      with ok show ?thesis by blast
    qed
    moreover have "i \<in> coloured c' Gray" using ok by simp
    ultimately have "dfs_inv g (dict_set c' i Black)" using ok by (intro dfs_inv_blacken) auto
    with ok ni show ?thesis by (auto simp: dfs_ok_def)
  qed
next
  case (3 g fuel c)
  then show ?case by (simp add: dfs_ok_def live_targets_def)
next
  case (4 g fuel c e es)
  show ?case
  proof (intro allI impI)
    fix i
    assume inv: "dfs_inv g c" and le: "card (coloured c White) \<le> fuel" and gray: "i \<in> coloured c Gray"
      and reach: "\<forall>x\<in>coloured c Gray. (x, i) \<in> (uncond g)\<^sup>*" and sub: "set (e # es) \<subseteq> set (out_edges g i)"
    let ?t = "to_node e"
    show "dfs_ok g c (live_targets g (e # es)) (dfs_edges g fuel c (e # es))"
    proof (cases "edge_cond e = None")
      case False
      with 4(1) inv le gray reach sub show ?thesis by (auto simp: live_targets_Cons)
    next
      case True
      show ?thesis
      proof (cases "dict_get c ?t")
        case None
        with inv have "?t \<notin> set (node_ids g)" by (auto simp: dfs_inv_def map_of_eq_None_iff)
        with None True 4(2) inv le gray reach sub show ?thesis by (auto simp: live_targets_Cons)
      next
        case (Some k)
        then have "?t \<in> fst ` set c" by (force dest: map_of_SomeD)
        then have t: "?t \<in> set (node_ids g)" using inv by (simp add: dfs_inv_def)
        with sub True have edge: "(i, ?t) \<in> uncond g" by (auto simp: uncond_def)
        show ?thesis
        proof (cases k)
          case Gray
          with Some reach have "(?t, i) \<in> (uncond g)\<^sup>*" by (simp add: coloured_def)
          with edge have "has_cycle g" by (metis rtrancl_into_trancl1)
          with Gray Some True show ?thesis by (simp add: dfs_ok_def)
        next
          case Black
          then have "?t \<in> coloured c Black" using Some by (simp add: coloured_def)
          moreover have "dfs_ok g c (live_targets g es) (dfs_edges g fuel c es)"
            using Black Some True 4(5) inv le gray reach sub by auto
          ultimately show ?thesis using Black Some True
            by (auto simp: dfs_ok_def live_targets_Cons split: option.splits prod.splits if_splits)
        next
          case White
          then have w: "?t \<in> coloured c White" using Some by (simp add: coloured_def)
          have "\<forall>x\<in>coloured c Gray. (x, ?t) \<in> (uncond g)\<^sup>*" using reach edge by (meson rtrancl.rtrancl_into_rtrancl)
          with 4(3) True Some White inv w le have "dfs_ok g c {?t} (dfs_node g fuel c ?t)" by auto
          then show ?thesis
          proof (cases rule: dfs_ok_cases)
            case (1 c')
            with White Some True show ?thesis by (simp add: dfs_ok_def)
          next
            case ok: (2 c')
            then have "card (coloured c' White) \<le> fuel"
              using le by (meson card_mono finite_coloured order_trans)
            with 4(4) [of White "(False, c')" False c'] True Some White ok gray reach sub
            have "dfs_ok g c' (live_targets g es) (dfs_edges g fuel c' es)" by auto
            then show ?thesis using True Some White ok t
              by (cases rule: dfs_ok_cases) (auto simp: dfs_ok_def live_targets_Cons)
          qed
        qed
      qed
    qed
  qed
qed

lemma dfs_all_spec:
  "dfs_inv g c \<Longrightarrow> coloured c Gray = {} \<Longrightarrow> card (coloured c White) \<le> fuel \<Longrightarrow>
     \<exists>b. dfs_all g fuel c is = Some b \<and> (b \<longrightarrow> has_cycle g) \<and>
         (\<not> b \<longrightarrow> (\<forall>i\<in>coloured c Black \<union> (set is \<inter> set (node_ids g)). (i, i) \<notin> (uncond g)\<^sup>+))"
proof (induction "is" arbitrary: c)
  case Nil
  then show ?case by (auto simp: dfs_inv_def)
next
  case (Cons i "is")
  show ?case
  proof (cases "dict_get c i = Some White")
    case True
    then have w: "i \<in> coloured c White" by (simp add: coloured_def)
    with Cons.prems dfs_spec(1) have "dfs_ok g c {i} (dfs_node g fuel c i)" by simp
    then show ?thesis
    proof (cases rule: dfs_ok_cases)
      case (1 c')
      with True show ?thesis by (intro exI [of _ True]) simp
    next
      case ok: (2 c')
      then have "card (coloured c' White) \<le> fuel"
        using Cons.prems by (meson card_mono finite_coloured order_trans)
      with Cons.IH [of c'] ok Cons.prems obtain b where "dfs_all g fuel c' is = Some b" "b \<longrightarrow> has_cycle g"
        "\<not> b \<longrightarrow> (\<forall>i\<in>coloured c' Black \<union> (set is \<inter> set (node_ids g)). (i, i) \<notin> (uncond g)\<^sup>+)"
        by auto
      with True ok show ?thesis by (intro exI [of _ b]) auto
    qed
  next
    case False
    have "i \<in> coloured c Black" if "i \<in> set (node_ids g)"
    proof -
      from that Cons.prems obtain k where "dict_get c i = Some k"
        by (cases "dict_get c i") (auto simp: dfs_inv_def map_of_eq_None_iff)
      with False Cons.prems show ?thesis by (cases k) (auto simp: coloured_def)
    qed
    moreover obtain b where "dfs_all g fuel c is = Some b" "b \<longrightarrow> has_cycle g"
      "\<not> b \<longrightarrow> (\<forall>i\<in>coloured c Black \<union> (set is \<inter> set (node_ids g)). (i, i) \<notin> (uncond g)\<^sup>+)"
      using Cons.IH [OF Cons.prems] by blast
    ultimately show ?thesis using False by (intro exI [of _ b]) auto
  qed
qed

lemma coloured_initial: "coloured (map (\<lambda>i. (i, White)) ids) k = (if k = White then set ids else {})"
proof -
  have "dict_get (map (\<lambda>i. (i, White)) ids) i = (if i \<in> set ids then Some White else None)" for i
    by (induction ids) auto
  then show ?thesis by (auto simp: coloured_def)
qed

theorem unconditional_cycle_decided:
  "\<exists>b. has_unconditional_cycle g = Some b \<and> (b \<longleftrightarrow> has_cycle g)"
proof -
  let ?c = "map (\<lambda>i. (i, White)) (node_ids g)"
  have white: "coloured ?c White = set (node_ids g)" "coloured ?c Gray = {}" "coloured ?c Black = {}"
    by (simp_all only: coloured_initial) simp_all
  then have "dfs_inv g ?c" by (simp add: dfs_inv_def image_image)
  moreover have "card (coloured ?c White) \<le> length (node_ids g)"
    unfolding white by (rule card_length)
  ultimately obtain b where b: "has_unconditional_cycle g = Some b" "b \<longrightarrow> has_cycle g"
    "\<not> b \<longrightarrow> (\<forall>i\<in>set (node_ids g). (i, i) \<notin> (uncond g)\<^sup>+)"
    using dfs_all_spec [of g ?c "length (node_ids g)" "node_ids g"] white
    by (auto simp: has_unconditional_cycle_def)
  have "x \<in> set (node_ids g)" if "(x, x) \<in> (uncond g)\<^sup>+" for x
    using that by (auto elim!: tranclE simp: uncond_def)
  with b show ?thesis by blast
qed

section \<open>The breadth-first search\<close>

definition edge_rel :: "scheme_graph \<Rightarrow> (string \<times> string) set" where
  "edge_rel g = {(i, to_node e) | i e. e \<in> set (out_edges g i)}"

lemma bfs_push_set: "set (bfs_push g v i) = (edge_rel g `` {i}) - set v"
  by (auto simp: bfs_push_def edge_rel_def)

lemma bfs_extends: "set v \<union> set q \<subseteq> set (bfs g v q)"
proof (induction g v q rule: bfs.induct)
  case (2 g visited i queue)
  then show ?case by (subst bfs.simps) auto
qed (simp add: bfs.simps)

lemma bfs_closed:
  "edge_rel g `` set v \<subseteq> set v \<union> set q \<Longrightarrow> edge_rel g `` set (bfs g v q) \<subseteq> set (bfs g v q)"
proof (induction g v q rule: bfs.induct)
  case (2 g visited i queue)
  show ?case
  proof (cases "i \<in> set visited")
    case True
    with 2 show ?thesis by (subst (1 2) bfs.simps) auto
  next
    case False
    have "edge_rel g `` set (i # visited) \<subseteq> set (i # visited) \<union> set (queue @ bfs_push g (i # visited) i)"
      using "2.prems" by (auto simp: bfs_push_set)
    with 2(2) False show ?thesis by (subst (1 2) bfs.simps) simp
  qed
qed (simp add: bfs.simps)

lemma bfs_sound: "set (bfs g v q) \<subseteq> set v \<union> (edge_rel g)\<^sup>* `` set q"
proof (induction g v q rule: bfs.induct)
  case (2 g visited i queue)
  show ?case
  proof (cases "i \<in> set visited")
    case True
    with 2 show ?thesis by (subst bfs.simps) auto
  next
    case False
    have "(edge_rel g)\<^sup>* `` set (bfs_push g (i # visited) i) \<subseteq> (edge_rel g)\<^sup>* `` {i}"
      by (auto simp: bfs_push_set intro: converse_rtrancl_into_rtrancl)
    with 2(2) False show ?thesis by (subst bfs.simps) (auto simp: Image_Un)
  qed
qed (simp add: bfs.simps)

text \<open>The visited set from one root is the set of nodes reachable from it.\<close>

lemma bfs_reachable: "set (bfs g [] [r]) = (edge_rel g)\<^sup>* `` {r}"
proof
  show "set (bfs g [] [r]) \<subseteq> (edge_rel g)\<^sup>* `` {r}" using bfs_sound [of g "[]" "[r]"] by simp
  have "edge_rel g `` set (bfs g [] [r]) \<subseteq> set (bfs g [] [r])" by (rule bfs_closed) simp
  moreover have "r \<in> set (bfs g [] [r])" using bfs_extends [of "[]" "[r]" g] by simp
  ultimately show "(edge_rel g)\<^sup>* `` {r} \<subseteq> set (bfs g [] [r])"
    by (metis Image_closed_trancl Image_mono empty_subsetI insert_subset subset_refl)
qed

section \<open>The fan-out count\<close>

lemma edge_key_counts_get:
  "dict_get_or (edge_key_counts es) (f, c) 0 = length (filter (\<lambda>e. from_node e = f \<and> edge_cond e = c) es)"
proof -
  have "dict_get_or (fold (\<lambda>e d. dict_set d (from_node e, edge_cond e)
          (dict_get_or d (from_node e, edge_cond e) 0 + 1)) es d) (f, c) 0 =
        dict_get_or d (f, c) 0 + length (filter (\<lambda>e. from_node e = f \<and> edge_cond e = c) es)" for d :: "(string \<times> edge_condition option, nat) dict"
    by (induction es arbitrary: d) auto
  then show ?thesis by (simp add: edge_key_counts_def)
qed

lemma edge_key_counts_distinct: "distinct (dict_keys (edge_key_counts es))"
proof -
  have "distinct (dict_keys d) \<Longrightarrow> distinct (dict_keys (fold (\<lambda>e d. dict_set d (from_node e, edge_cond e)
          (dict_get_or d (from_node e, edge_cond e) 0 + 1)) es d))" for d :: "(string \<times> edge_condition option, nat) dict"
    by (induction es arbitrary: d) (auto simp: distinct_update)
  then show ?thesis by (simp add: edge_key_counts_def)
qed

lemma no_fan_out_iff:
  "fan_out_problems es = [] \<longleftrightarrow> (\<forall>f c. length (filter (\<lambda>e. from_node e = f \<and> edge_cond e = c) es) \<le> 1)"
proof -
  let ?d = "edge_key_counts es"
  have "fan_out_problems es = [] \<longleftrightarrow> (\<forall>x\<in>set ?d. snd x \<le> 1)"
    by (force simp: fan_out_problems_def split: if_splits)
  also have "\<dots> \<longleftrightarrow> (\<forall>k. dict_get_or ?d k 0 \<le> 1)"
  proof
    assume small: "\<forall>x\<in>set ?d. snd x \<le> 1"
    show "\<forall>k. dict_get_or ?d k 0 \<le> 1"
    proof
      fix k
      show "dict_get_or ?d k 0 \<le> 1"
        using small by (cases "dict_get ?d k") (force simp: dict_get_or_def dest: map_of_SomeD)+
    qed
  next
    assume small: "\<forall>k. dict_get_or ?d k 0 \<le> 1"
    show "\<forall>x\<in>set ?d. snd x \<le> 1"
    proof
      fix x assume "x \<in> set ?d"
      then have "dict_get_or ?d (fst x) 0 = snd x"
        using map_of_is_SomeI [OF edge_key_counts_distinct, of "fst x" "snd x"] by (simp add: dict_get_or_def)
      then show "snd x \<le> 1" using small by metis
    qed
  qed
  finally show ?thesis by (simp add: edge_key_counts_get)
qed

section \<open>What validation guarantees\<close>

text \<open>The shape the executor relies on: existing endpoints, one root that reaches every node, at most
  one edge per node and outcome, and no cycle of unconditional edges.\<close>

definition well_formed :: "scheme_definition \<Rightarrow> bool" where
  "well_formed d \<longleftrightarrow>
     (\<forall>e\<in>set (scheme_edges d). from_node e \<in> node_id ` set (scheme_nodes d) \<and> to_node e \<in> node_id ` set (scheme_nodes d)) \<and>
     (\<forall>f c. length (filter (\<lambda>e. from_node e = f \<and> edge_cond e = c) (scheme_edges d)) \<le> 1) \<and>
     \<not> has_cycle (make_graph d) \<and>
     (\<exists>r. root_ids (make_graph d) = [r] \<and> node_id ` set (scheme_nodes d) \<subseteq> (edge_rel (make_graph d))\<^sup>* `` {r})"

lemma no_edge_problems_iff:
  "edge_problems (make_graph d) = [] \<longleftrightarrow>
     (\<forall>e\<in>set (scheme_edges d). from_node e \<in> node_id ` set (scheme_nodes d) \<and> to_node e \<in> node_id ` set (scheme_nodes d))"
  by (auto simp: edge_problems_def)

lemma no_root_problems_iff: "root_problems rs = [] \<longleftrightarrow> (\<exists>r. rs = [r])"
  by (cases rs; cases "tl rs") (auto simp: root_problems_def)

lemma no_reachability_problems_iff:
  "reachability_problems g [r] = [] \<longleftrightarrow> set (node_ids g) \<subseteq> (edge_rel g)\<^sup>* `` {r}"
  by (auto simp: reachability_problems_def Let_def filter_empty_conv bfs_reachable)

lemma validate_Nil_iff:
  "validate (make_graph d) = [] \<longleftrightarrow> validate_nodes [] (scheme_nodes d) = [] \<and> well_formed d"
proof -
  obtain b where b: "has_unconditional_cycle (make_graph d) = Some b" "b \<longleftrightarrow> has_cycle (make_graph d)"
    using unconditional_cycle_decided by blast
  show ?thesis
  proof (cases "edge_problems (make_graph d) = []")
    case False
    then show ?thesis unfolding validate_def well_formed_def Let_def no_edge_problems_iff [symmetric] by simp
  next
    case True
    then show ?thesis
      unfolding validate_def well_formed_def Let_def no_edge_problems_iff [symmetric]
      using b by (auto simp: no_fan_out_iff no_root_problems_iff no_reachability_problems_iff)
  qed
qed

lemma validate_nodes_Nil_iff:
  "validate_nodes seen ns = [] \<longleftrightarrow>
     distinct (map node_id ns) \<and> set seen \<inter> node_id ` set ns = {} \<and> (\<forall>n\<in>set ns. node_problems [] n = [])"
proof (induction ns arbitrary: seen)
  case Nil
  then show ?case by simp
next
  case (Cons n ns)
  have "node_problems seen n = [] \<longleftrightarrow> node_id n \<notin> set seen \<and> node_problems [] n = []"
    by (auto simp: node_problems_def)
  with Cons.IH [of "node_id n # seen"] show ?case by auto
qed

text \<open>An agentic node has an instruction and a tier; a deterministic node has neither.\<close>

definition node_ok :: "scheme_node \<Rightarrow> bool" where
  "node_ok n \<longleftrightarrow>
     (if node_kind n = AGENTIC
      then (\<exists>t m. instruction_template n = Some t \<and> \<not> instruction_blank t \<and> model_name n = Some (tier_value m))
      else instruction_template n = None \<and> model_name n = None)"

lemma agentic_node_ok:
  assumes "node_problems [] n = []" "node_kind n = AGENTIC"
  shows "\<exists>t m. instruction_template n = Some t \<and> \<not> instruction_blank t \<and> model_name n = Some (tier_value m)"
proof -
  have "\<exists>t. s = tier_value t" if "is_tier_value s" for s
    using that unfolding is_tier_value_def by (auto intro: exI [of _ COMPLEX] exI [of _ LIGHT] exI [of _ REASONING])
  with assms show ?thesis by (auto simp: node_problems_def split: option.splits if_splits)
qed

lemma deterministic_node_ok:
  assumes "node_problems [] n = []" "node_kind n = DETERMINISTIC"
  shows "instruction_template n = None \<and> model_name n = None"
  using assms by (auto simp: node_problems_def split: option.splits)

lemma tier_value_nonblank: "py_strip (tier_value t) \<noteq> []" "is_tier_value (tier_value t)"
  by (cases t; simp add: py_strip_Nil_iff is_space_def) (cases t; simp add: is_tier_value_def)

lemma node_problems_Nil_iff: "node_problems [] n = [] \<longleftrightarrow> node_ok n"
proof (cases "node_kind n = AGENTIC")
  case True
  then show ?thesis
    using agentic_node_ok [of n] tier_value_nonblank by (auto simp: node_ok_def node_problems_def blank_def)
next
  case False
  then have "node_kind n = DETERMINISTIC" by (cases "node_kind n") auto
  with deterministic_node_ok [of n] show ?thesis by (auto simp: node_ok_def node_problems_def)
qed

end
