(* ===== verification/Executor.thy ===== *)
theory Executor
  imports Schemes SchemeValidation
begin

text \<open>
  The walk of \<open>SchemeExecutor.execute\<close> (\<open>mastermind/scheme_executor/executor.py\<close>) over a scheme
  graph. The fields of the executor object are the record \<open>exec_state\<close>; one iteration of its
  \<open>while\<close> loop is \<open>exec_step\<close>; what running a node does to the outside (the repository, GitHub, the
  document store) is a state \<open>'w\<close> threaded through the handlers of an \<open>exec_env\<close>.
\<close>

section \<open>Results of nodes and the executor's state\<close>

record node_result =
  nr_condition :: "edge_condition option"
  nr_message :: "string option"
  nr_output :: "string option"
  nr_escalated :: bool
  nr_escalation_reason :: "string option"
  nr_pr_url :: "string option"
  nr_pr_number :: "int option"
  nr_report :: "operative_report option"
  nr_lair_id :: "string option"
  nr_dev_mode :: bool
  nr_plan :: "string option"

text \<open>A result dictionary with no key set; handlers update the keys they return.\<close>

definition empty_result :: node_result where
  "empty_result =
     \<lparr>nr_condition = None, nr_message = None, nr_output = None, nr_escalated = False,
      nr_escalation_reason = None, nr_pr_url = None, nr_pr_number = None, nr_report = None,
      nr_lair_id = None, nr_dev_mode = False, nr_plan = None\<rparr>"

type_synonym results = "(string, node_result) dict"

record exec_state =
  node_results :: results
  retry_counts :: "(string, nat) dict"
  freshly_executed :: "string set"
  resume_skipped :: "string set"
  visited_states :: "(string \<times> nat) set"
  escalation_node :: "string option"

text \<open>\<open>_max_node_retries\<close>.\<close>

definition max_node_retries :: nat where
  "max_node_retries = 2"

text \<open>\<open>__init__\<close>; a resume pre-populates the results and the retry counts from a checkpoint.\<close>

definition init_state :: exec_state where
  "init_state =
     \<lparr>node_results = [], retry_counts = [], freshly_executed = {}, resume_skipped = {},
      visited_states = {}, escalation_node = None\<rparr>"

definition resume_state :: "results \<Rightarrow> (string, nat) dict \<Rightarrow> exec_state" where
  "resume_state nrs rcs = init_state\<lparr>node_results := nrs, retry_counts := rcs\<rparr>"

text \<open>
  What the loop calls: \<open>_execute_node\<close>, which reads the results so far, and the checkpoint written
  after every executed node (the identity without a tracker; a failing checkpoint is only logged).
\<close>

record 'w exec_env =
  run_node :: "scheme_node \<Rightarrow> results \<Rightarrow> 'w \<Rightarrow> node_result \<times> 'w"
  checkpoint :: "string \<Rightarrow> results \<Rightarrow> (string, nat) dict \<Rightarrow> 'w \<Rightarrow> 'w"

section \<open>One iteration of the loop\<close>

definition is_replay :: "exec_state \<Rightarrow> string \<Rightarrow> bool" where
  "is_replay s k \<longleftrightarrow>
     dict_get (node_results s) k \<noteq> None \<and> k \<notin> freshly_executed s \<and> k \<notin> resume_skipped s"

definition flag_escalated :: "string \<Rightarrow> exec_state \<Rightarrow> exec_state" where
  "flag_escalated k s =
     (let r = dict_get_or (node_results s) k empty_result in
      s\<lparr>escalation_node := Some k, node_results := dict_set (node_results s) k (r\<lparr>nr_escalated := True\<rparr>)\<rparr>)"

text \<open>
  The successor for a result: the edges of its condition; a passing node without a pass edge goes on
  along the unconditional edges; a failing node never does.
\<close>

definition next_nodes :: "scheme_graph \<Rightarrow> string \<Rightarrow> edge_condition option \<Rightarrow> scheme_node list" where
  "next_nodes g k c =
     (let ns = get_next_nodes g k c in
      if ns = [] \<and> c = Some Pass then get_next_nodes g k None else ns)"

text \<open>After a result: stop on an escalation reason or a dead end (escalating on a failure), else go on.\<close>

definition route :: "scheme_graph \<Rightarrow> string \<Rightarrow> node_result \<Rightarrow> exec_state \<Rightarrow> scheme_node option \<times> exec_state" where
  "route g k result s =
     (if str_truthy (nr_escalation_reason result) then (None, flag_escalated k s)
      else (case next_nodes g k (nr_condition result) of
              [] \<Rightarrow> (None, if nr_condition result = Some Fail then flag_escalated k s else s)
            | n # _ \<Rightarrow> (Some n, s)))"

definition cycle_result :: "string \<Rightarrow> node_result" where
  "cycle_result k =
     empty_result\<lparr>nr_message := Some (''Cycle detected at '' @ k @ '' - escalating''), nr_escalated := True\<rparr>"

definition max_retries_result :: "string \<Rightarrow> node_result" where
  "max_retries_result k =
     empty_result\<lparr>nr_condition := Some Fail,
                  nr_message := Some (''Max retries reached for '' @ k @ '' - escalating'')\<rparr>"

text \<open>Executing a node that is neither replayed nor a cycle: run it unless its retries are used up.\<close>

definition perform :: "'w exec_env \<Rightarrow> scheme_node \<Rightarrow> exec_state \<Rightarrow> 'w \<Rightarrow> node_result \<times> exec_state \<times> 'w" where
  "perform env n s w =
     (let k = node_id n; ec = dict_get_or (retry_counts s) k 0;
          s1 = s\<lparr>visited_states := insert (k, ec) (visited_states s)\<rparr>;
          (r, rcs, w1) =
            (if ec \<ge> max_node_retries then (max_retries_result k, retry_counts s1, w)
             else (let (r, w1) = run_node env n (node_results s1) w
                   in (r, dict_set (retry_counts s1) k (ec + 1), w1)));
          s2 = s1\<lparr>retry_counts := rcs, node_results := dict_set (node_results s1) k r,
                  freshly_executed := insert k (freshly_executed s1)\<rparr>
      in (r, s2, checkpoint env k (node_results s2) rcs w1))"

definition exec_step ::
  "'w exec_env \<Rightarrow> scheme_graph \<Rightarrow> scheme_node \<Rightarrow> exec_state \<Rightarrow> 'w \<Rightarrow> scheme_node option \<times> exec_state \<times> 'w" where
  "exec_step env g n s w =
     (let k = node_id n in
      if is_replay s k
      then (let s1 = s\<lparr>resume_skipped := insert k (resume_skipped s)\<rparr>;
                (nx, s2) = route g k (dict_get_or (node_results s) k empty_result) s1
            in (nx, s2, w))
      else if (k, dict_get_or (retry_counts s) k 0) \<in> visited_states s
      then (None, s\<lparr>escalation_node := Some k, node_results := dict_set (node_results s) k (cycle_result k),
                    freshly_executed := insert k (freshly_executed s)\<rparr>, w)
      else (let (r, s1, w1) = perform env n s w; (nx, s2) = route g k r s1 in (nx, s2, w1)))"

section \<open>The loop and its report\<close>

text \<open>
  The loop with fuel; \<open>None\<close> is a run out of fuel. \<open>exec_fuel\<close> is enough for every scheme, whatever
  the nodes return (\<open>execute_terminates\<close>): a node is replayed at most once and executed at most
  three times (twice by its handler, once as a forced failure) before it counts as a cycle.
\<close>

fun exec_loop ::
  "nat \<Rightarrow> 'w exec_env \<Rightarrow> scheme_graph \<Rightarrow> scheme_node \<Rightarrow> exec_state \<Rightarrow> 'w \<Rightarrow> (exec_state \<times> 'w) option" where
  "exec_loop 0 env g n s w = None"
| "exec_loop (Suc fuel) env g n s w =
     (case exec_step env g n s w of
        (None, s', w') \<Rightarrow> Some (s', w')
      | (Some n', s', w') \<Rightarrow> exec_loop fuel env g n' s' w')"

definition exec_fuel :: "scheme_graph \<Rightarrow> nat" where
  "exec_fuel g = 4 * length (node_ids g) + 1"

datatype final_status = Escalated | PrCreated | Completed

record execution_report =
  final_status_of :: final_status
  er_pr_url :: "string option"
  er_escalated :: bool
  er_escalation_node :: "string option"
  er_node_results :: results
  er_nodes_executed :: "string set"

text \<open>The last non-empty PR URL in the order of the results wins.\<close>

definition report_pr_url :: "results \<Rightarrow> string option" where
  "report_pr_url nrs =
     fold (\<lambda>(_, r) acc. if str_truthy (nr_pr_url r) then nr_pr_url r else acc) nrs None"

definition build_execution_report :: "exec_state \<Rightarrow> execution_report" where
  "build_execution_report s =
     (let pr_url = report_pr_url (node_results s);
          escalated = (\<exists>x\<in>set (node_results s). nr_escalated (snd x))
      in \<lparr>final_status_of = (if escalated then Escalated else if str_truthy pr_url then PrCreated else Completed),
          er_pr_url = pr_url, er_escalated = escalated, er_escalation_node = escalation_node s,
          er_node_results = node_results s, er_nodes_executed = freshly_executed s\<rparr>)"

text \<open>\<open>execute\<close>: the \<open>ValueError\<close> of a scheme without a single root, or the report.\<close>

definition execute ::
  "'w exec_env \<Rightarrow> scheme_graph \<Rightarrow> exec_state \<Rightarrow> 'w \<Rightarrow> string list + (execution_report \<times> 'w) option" where
  "execute env g s w =
     (case get_root_node g of
        Inl roots \<Rightarrow> Inl roots
      | Inr r0 \<Rightarrow>
          Inr (map_option (\<lambda>(s', w'). (build_execution_report s', w'))
                 (exec_loop (exec_fuel g) env g r0 s w)))"

section \<open>The loop as a step relation\<close>

text \<open>
  The configurations a run passes through, for invariants by rule induction: \<open>visits\<close> relates the
  start to every (node, state, world) the loop is about to process, \<open>exec_finished\<close> to the state in
  which it stops.
\<close>

inductive visits ::
  "'w exec_env \<Rightarrow> scheme_graph \<Rightarrow> scheme_node \<Rightarrow> exec_state \<Rightarrow> 'w \<Rightarrow> scheme_node \<Rightarrow> exec_state \<Rightarrow> 'w \<Rightarrow> bool"
  for env g n0 s0 w0 where
  visits_start: "visits env g n0 s0 w0 n0 s0 w0"
| visits_step: "visits env g n0 s0 w0 n s w \<Longrightarrow> exec_step env g n s w = (Some n', s', w') \<Longrightarrow>
     visits env g n0 s0 w0 n' s' w'"

inductive exec_finished ::
  "'w exec_env \<Rightarrow> scheme_graph \<Rightarrow> scheme_node \<Rightarrow> exec_state \<Rightarrow> 'w \<Rightarrow> exec_state \<Rightarrow> 'w \<Rightarrow> bool"
  for env g n0 s0 w0 where
  finished: "visits env g n0 s0 w0 n s w \<Longrightarrow> exec_step env g n s w = (None, s', w') \<Longrightarrow>
     exec_finished env g n0 s0 w0 s' w'"

inductive_cases exec_finishedE: "exec_finished env g n0 s0 w0 s' w'"

lemma exec_loop_finished:
  "exec_loop fuel env g n s w = Some (s', w') \<Longrightarrow> visits env g n0 s0 w0 n s w \<Longrightarrow>
     exec_finished env g n0 s0 w0 s' w'"
proof (induction fuel arbitrary: n s w)
  case 0
  then show ?case by simp
next
  case (Suc fuel)
  show ?case
  proof (cases "exec_step env g n s w")
    case (fields nx s1 w1)
    show ?thesis
    proof (cases nx)
      case None
      with Suc.prems fields show ?thesis by (auto intro: finished)
    next
      case (Some n')
      with Suc.prems fields have "visits env g n0 s0 w0 n' s1 w1" by (auto intro: visits_step)
      with Suc.IH Suc.prems fields Some show ?thesis by auto
    qed
  qed
qed

lemma execute_finished:
  assumes "execute env g s w = Inr (Some (rep, w'))" "get_root_node g = Inr r0"
  obtains s' where "exec_finished env g r0 s w s' w'" "rep = build_execution_report s'"
proof -
  from assms obtain s' where "exec_loop (exec_fuel g) env g r0 s w = Some (s', w')" "rep = build_execution_report s'"
    by (auto simp: execute_def)
  from that [OF exec_loop_finished [OF this(1) visits_start] this(2)] show ?thesis .
qed

section \<open>Termination\<close>

text \<open>
  The visits a node has left: its replay, and the retry counts from the current one up to the limit
  at which it has not been executed yet.
\<close>

definition visits_left :: "exec_state \<Rightarrow> string \<Rightarrow> nat" where
  "visits_left s k =
     (if is_replay s k then 1 else 0) +
     (let ec = dict_get_or (retry_counts s) k 0 in
      card ({ec..max ec max_node_retries} - {e. (k, e) \<in> visited_states s}))"

lemma visits_left_le: "visits_left s k \<le> 4"
proof -
  let ?ec = "dict_get_or (retry_counts s) k 0"
  have "card ({?ec..max ?ec max_node_retries} - {e. (k, e) \<in> visited_states s})
      \<le> card {?ec..max ?ec max_node_retries}"
    by (intro card_mono) auto
  also have "\<dots> \<le> 3" by (auto simp: max_node_retries_def max_def)
  finally show ?thesis by (simp add: visits_left_def Let_def)
qed

lemma route_fields [simp]:
  assumes "route g k r s = (nx, s')"
  shows "retry_counts s' = retry_counts s" "freshly_executed s' = freshly_executed s"
    "resume_skipped s' = resume_skipped s" "visited_states s' = visited_states s"
  using assms by (auto simp: route_def flag_escalated_def Let_def split: if_splits list.splits)

lemma route_Some:
  "route g k r s = (Some n, s') \<longleftrightarrow>
     s' = s \<and> \<not> str_truthy (nr_escalation_reason r) \<and> (\<exists>ns. next_nodes g k (nr_condition r) = n # ns)"
  by (auto simp: route_def split: list.splits)

lemma route_None:
  "route g k r s = (None, s') \<longleftrightarrow>
     (if str_truthy (nr_escalation_reason r) then s' = flag_escalated k s
      else next_nodes g k (nr_condition r) = [] \<and>
           s' = (if nr_condition r = Some Fail then flag_escalated k s else s))"
  by (auto simp: route_def split: list.splits)

text \<open>One iteration that goes on: either a replay or an execution that was not yet visited.\<close>

lemma exec_step_Some_cases:
  assumes "exec_step env g n s w = (Some n', s', w')"
  obtains (replay) "is_replay s (node_id n)"
      "s' = s\<lparr>resume_skipped := insert (node_id n) (resume_skipped s)\<rparr>" "w' = w"
      "\<exists>ns. next_nodes g (node_id n) (nr_condition (dict_get_or (node_results s) (node_id n) empty_result)) = n' # ns"
  | (run) r where "\<not> is_replay s (node_id n)"
      "(node_id n, dict_get_or (retry_counts s) (node_id n) 0) \<notin> visited_states s"
      "perform env n s w = (r, s', w')" "\<exists>ns. next_nodes g (node_id n) (nr_condition r) = n' # ns"
  using assms
  by (auto simp: exec_step_def Let_def route_Some split: if_splits prod.splits)

lemma perform_fields:
  assumes "perform env n s w = (r, s', w')"
  shows "freshly_executed s' = insert (node_id n) (freshly_executed s)"
    "resume_skipped s' = resume_skipped s"
    "visited_states s' = insert (node_id n, dict_get_or (retry_counts s) (node_id n) 0) (visited_states s)"
    "node_results s' = dict_set (node_results s) (node_id n) r"
    "escalation_node s' = escalation_node s"
    "retry_counts s' = (if dict_get_or (retry_counts s) (node_id n) 0 \<ge> max_node_retries then retry_counts s
       else dict_set (retry_counts s) (node_id n) (dict_get_or (retry_counts s) (node_id n) 0 + 1))"
  using assms by (auto simp: perform_def Let_def split: if_splits prod.splits)

lemma visits_left_other:
  assumes "exec_step env g n s w = (Some n', s', w')" "k \<noteq> node_id n"
  shows "visits_left s' k = visits_left s k"
  using assms(1)
proof (cases rule: exec_step_Some_cases)
  case replay
  with assms(2) show ?thesis by (simp add: visits_left_def is_replay_def)
next
  case (run r)
  note f = perform_fields [OF run(3)]
  from assms(2) show ?thesis by (simp add: visits_left_def is_replay_def f)
qed

lemma visits_left_decreases:
  assumes "exec_step env g n s w = (Some n', s', w')"
  shows "visits_left s' (node_id n) < visits_left s (node_id n)"
  using assms
proof (cases rule: exec_step_Some_cases)
  case replay
  then show ?thesis by (simp add: visits_left_def is_replay_def)
next
  case (run r)
  note f = perform_fields [OF run(3)]
  let ?k = "node_id n" and ?ec = "dict_get_or (retry_counts s) (node_id n) 0"
  let ?left = "\<lambda>s ec. {ec..max ec max_node_retries} - {e. (?k, e) \<in> visited_states s}"
  have "?left s' (dict_get_or (retry_counts s') ?k 0) \<subseteq> ?left s ?ec - {?ec}"
    by (auto simp: f)
  moreover have "?ec \<in> ?left s ?ec" using run(2) by simp
  ultimately have "?left s' (dict_get_or (retry_counts s') ?k 0) \<subset> ?left s ?ec" by blast
  then have "card (?left s' (dict_get_or (retry_counts s') ?k 0)) < card (?left s ?ec)"
    by (intro psubset_card_mono) auto
  moreover have "\<not> is_replay s' ?k" by (simp add: is_replay_def f)
  ultimately show ?thesis using run(1) by (simp add: visits_left_def Let_def)
qed

definition total_visits :: "scheme_graph \<Rightarrow> exec_state \<Rightarrow> nat" where
  "total_visits g s = (\<Sum>k\<in>set (node_ids g). visits_left s k)"

lemma total_visits_le: "total_visits g s \<le> 4 * length (node_ids g)"
proof -
  have "total_visits g s \<le> (\<Sum>k\<in>set (node_ids g). 4)"
    unfolding total_visits_def by (intro sum_mono visits_left_le)
  also have "\<dots> \<le> 4 * length (node_ids g)" using card_length [of "node_ids g"] by simp
  finally show ?thesis .
qed

lemma total_visits_decreases:
  assumes "exec_step env g n s w = (Some n', s', w')" "node_id n \<in> set (node_ids g)"
  shows "total_visits g s' < total_visits g s"
  unfolding total_visits_def
proof (intro sum_strict_mono_ex1 ballI bexI)
  show "visits_left s' k \<le> visits_left s k" for k
    using visits_left_decreases [OF assms(1)] visits_left_other [OF assms(1), of k] by (cases "k = node_id n") auto
qed (use assms visits_left_decreases [OF assms(1)] in auto)

lemma next_nodes_in_graph:
  assumes "n' \<in> set (next_nodes (make_graph d) k c)"
  shows "n' \<in> set (scheme_nodes d)"
proof -
  from assms obtain i where "dict_get (node_map (make_graph d)) i = Some n'"
    by (auto simp: next_nodes_def Let_def get_next_nodes_mem split: if_splits)
  then show ?thesis by (auto simp: node_map_make_graph dest: find_SomeD)
qed

lemma root_in_graph:
  "get_root_node (make_graph d) = Inr r \<Longrightarrow> r \<in> set (scheme_nodes d)"
  by (auto simp: get_root_node_def Let_def split: list.splits
      dest!: arg_cong [where f = "\<lambda>xs. r \<in> set xs"])

lemma exec_step_next_in_graph:
  "exec_step env (make_graph d) n s w = (Some n', s', w') \<Longrightarrow> n' \<in> set (scheme_nodes d)"
  by (erule exec_step_Some_cases; metis list.set_intros(1) next_nodes_in_graph)

text \<open>With one unit of fuel more than visits are left the loop stops.\<close>

lemma exec_loop_terminates:
  "total_visits (make_graph d) s < fuel \<Longrightarrow> n \<in> set (scheme_nodes d) \<Longrightarrow>
     \<exists>r. exec_loop fuel env (make_graph d) n s w = Some r"
proof (induction fuel arbitrary: n s w)
  case 0
  then show ?case by simp
next
  case (Suc fuel)
  show ?case
  proof (cases "exec_step env (make_graph d) n s w")
    case (fields nx s1 w1)
    show ?thesis
    proof (cases nx)
      case None
      with fields show ?thesis by simp
    next
      case (Some n')
      with fields have step: "exec_step env (make_graph d) n s w = (Some n', s1, w1)" by simp
      then have "total_visits (make_graph d) s1 < total_visits (make_graph d) s"
        using Suc.prems by (intro total_visits_decreases) auto
      with Suc.prems Suc.IH [of s1 n' w1] exec_step_next_in_graph [OF step] step show ?thesis by auto
    qed
  qed
qed

lemma execute_loop_terminates:
  assumes "n \<in> set (scheme_nodes d)"
  shows "\<exists>r. exec_loop (exec_fuel (make_graph d)) env (make_graph d) n s w = Some r"
  using total_visits_le [of "make_graph d" s] assms
  by (intro exec_loop_terminates) (auto simp: exec_fuel_def)

section \<open>How often a node runs\<close>

text \<open>The retry count of a node never passes the limit it started below: its handler runs at most twice.\<close>

lemma retry_counts_bounded:
  "visits env g n0 s0 w0 n s w \<Longrightarrow>
     dict_get_or (retry_counts s) k 0 \<le> max max_node_retries (dict_get_or (retry_counts s0) k 0)"
proof (induction rule: visits.induct)
  case visits_start
  then show ?case by simp
next
  case (visits_step n s w n' s' w')
  from visits_step(2) show ?case
  proof (cases rule: exec_step_Some_cases)
    case replay
    with visits_step show ?thesis by simp
  next
    case (run r)
    with visits_step show ?thesis by (auto simp: perform_fields [OF run(3)])
  qed
qed

section \<open>What one iteration writes\<close>

text \<open>
  An iteration that goes on has a result stored for its node, leaves the other results alone and
  follows an edge for the condition of that result.
\<close>

lemma exec_step_goes_on:
  assumes "exec_step env g n s w = (Some n', s', w')"
  obtains r ns where "dict_get (node_results s') (node_id n) = Some r"
    "next_nodes g (node_id n) (nr_condition r) = n' # ns"
    "\<And>k. k \<noteq> node_id n \<Longrightarrow> dict_get (node_results s') k = dict_get (node_results s) k"
    "freshly_executed s' = freshly_executed s \<or> freshly_executed s' = insert (node_id n) (freshly_executed s)"
  using assms
proof (cases rule: exec_step_Some_cases)
  case replay
  then obtain r where "dict_get (node_results s) (node_id n) = Some r" by (auto simp: is_replay_def)
  with replay show ?thesis by (auto simp: dict_get_or_def intro: that [of r])
next
  case (run r)
  then show ?thesis by (auto simp: perform_fields [OF run(3)] intro: that [of r])
qed

text \<open>The last iteration: a replayed or performed node without a successor, or a cycle.\<close>

lemma exec_step_stops:
  assumes "exec_step env g n s w = (None, s', w')"
  obtains (replay) "is_replay s (node_id n)"
      "route g (node_id n) (dict_get_or (node_results s) (node_id n) empty_result)
         (s\<lparr>resume_skipped := insert (node_id n) (resume_skipped s)\<rparr>) = (None, s')" "w' = w"
  | (cycle) "(node_id n, dict_get_or (retry_counts s) (node_id n) 0) \<in> visited_states s"
      "s' = s\<lparr>escalation_node := Some (node_id n),
              node_results := dict_set (node_results s) (node_id n) (cycle_result (node_id n)),
              freshly_executed := insert (node_id n) (freshly_executed s)\<rparr>" "w' = w"
  | (run) r s1 where "\<not> is_replay s (node_id n)" "perform env n s w = (r, s1, w')"
      "route g (node_id n) r s1 = (None, s')"
  using assms by (auto simp: exec_step_def Let_def split: if_splits prod.splits)

lemma flag_escalated_other [simp]:
  "k' \<noteq> k \<Longrightarrow> dict_get (node_results (flag_escalated k s)) k' = dict_get (node_results s) k'"
  by (simp add: flag_escalated_def Let_def)

lemma exec_step_other_results:
  assumes "exec_step env g n s w = (nx, s', w')" "k \<noteq> node_id n"
  shows "dict_get (node_results s') k = dict_get (node_results s) k"
proof (cases nx)
  case (Some n')
  with assms show ?thesis by (auto elim: exec_step_goes_on)
next
  case None
  with assms have "exec_step env g n s w = (None, s', w')" by simp
  then show ?thesis
  proof (cases rule: exec_step_stops)
    case replay
    with assms(2) show ?thesis by (auto simp: route_None split: if_splits)
  next
    case cycle
    with assms(2) show ?thesis by simp
  next
    case (run r s1)
    have "dict_get (node_results s1) k = dict_get (node_results s) k"
      using assms(2) by (simp add: perform_fields [OF run(2)])
    with run(3) assms(2) show ?thesis by (auto simp: route_None split: if_splits)
  qed
qed

text \<open>What the handler of a node returned, when it was below its retry limit.\<close>

lemma perform_result:
  assumes "perform env n s w = (r, s', w')"
  shows "r = max_retries_result (node_id n) \<or> r = fst (run_node env n (node_results s) w)"
  using assms by (auto simp: perform_def Let_def split: if_splits prod.splits)

lemma route_fresh: "route g k r s = (nx, s') \<Longrightarrow> freshly_executed s' = freshly_executed s"
  by simp

lemma exec_step_fresh:
  assumes "exec_step env g n s w = (None, s', w')"
  shows "freshly_executed s' \<subseteq> insert (node_id n) (freshly_executed s)"
  using assms
proof (cases rule: exec_step_stops)
  case replay
  from route_fresh [OF replay(2)] show ?thesis by auto
next
  case cycle
  then show ?thesis by auto
next
  case (run r s1)
  from route_fresh [OF run(3)] perform_fields(1) [OF run(2)] show ?thesis by auto
qed

section \<open>Reading the report\<close>

lemma report_pr_url_truthy:
  "x \<in> set nrs \<Longrightarrow> str_truthy (nr_pr_url (snd x)) \<Longrightarrow> str_truthy (report_pr_url nrs)"
proof -
  have "str_truthy acc \<or> (\<exists>x\<in>set nrs. str_truthy (nr_pr_url (snd x))) \<Longrightarrow>
      str_truthy (fold (\<lambda>(_, r) acc. if str_truthy (nr_pr_url r) then nr_pr_url r else acc) nrs acc)" for acc
    by (induction nrs arbitrary: acc) (auto split: if_splits)
  then show "x \<in> set nrs \<Longrightarrow> str_truthy (nr_pr_url (snd x)) \<Longrightarrow> ?thesis"
    by (auto simp: report_pr_url_def)
qed

lemma report_escalated:
  "dict_get (node_results s) k = Some r \<Longrightarrow> nr_escalated r \<Longrightarrow>
     final_status_of (build_execution_report s) = Escalated"
  by (force simp: build_execution_report_def Let_def dest!: map_of_SomeD)

lemma flag_escalated_reported [simp]:
  "final_status_of (build_execution_report (flag_escalated k s)) = Escalated"
  by (rule report_escalated [of _ k]) (auto simp: flag_escalated_def Let_def)

section \<open>Counting the calls of handlers\<close>

text \<open>The environment with a counter of handler calls in front of the world.\<close>

definition counting :: "'w exec_env \<Rightarrow> ((string \<Rightarrow> nat) \<times> 'w) exec_env" where
  "counting env =
     \<lparr>run_node = (\<lambda>n nrs (c, w). let (r, w') = run_node env n nrs w in (r, (c(node_id n := c (node_id n) + 1), w'))),
      checkpoint = (\<lambda>k nrs rcs (c, w). (c, checkpoint env k nrs rcs w))\<rparr>"

definition counted :: "exec_state \<Rightarrow> (string \<Rightarrow> nat) \<Rightarrow> bool" where
  "counted s c \<longleftrightarrow> c = (\<lambda>k. dict_get_or (retry_counts s) k 0) \<and> (\<forall>k. dict_get_or (retry_counts s) k 0 \<le> max_node_retries)"

lemma perform_counted:
  assumes "counted s c" "perform (counting env) n s (c, w) = (r, s', (c', w'))"
  shows "counted s' c'"
  using assms by (auto simp: perform_def counting_def counted_def Let_def split: if_splits prod.splits)

lemma visits_counted:
  "visits (counting env) g n0 s0 w0 n s w \<Longrightarrow> counted s0 (fst w0) \<Longrightarrow> counted s (fst w)"
proof (induction rule: visits.induct)
  case visits_start
  then show ?case by simp
next
  case (visits_step n s w n' s' w')
  from visits_step(2) show ?case
  proof (cases rule: exec_step_Some_cases)
    case replay
    with visits_step.IH visits_step.prems have "counted s (fst w)" by blast
    with replay show ?thesis by (simp add: counted_def)
  next
    case (run r)
    obtain c w1 c' w1' where "w = (c, w1)" "w' = (c', w1')" by (metis surj_pair)
    with visits_step.IH visits_step.prems run(3) show ?thesis by (auto dest: perform_counted)
  qed
qed

lemma counting_finished:
  assumes "exec_finished (counting env) g n0 init_state ((\<lambda>_. 0), w0) s' w'"
  shows "fst w' k \<le> 2"
proof -
  have start: "counted init_state (fst ((\<lambda>_. 0) :: string \<Rightarrow> nat, w0))"
    by (simp add: counted_def init_state_def)
  from assms obtain n s w where v: "visits (counting env) g n0 init_state ((\<lambda>_. 0), w0) n s w"
    and stop: "exec_step (counting env) g n s w = (None, s', w')"
    by (rule exec_finishedE)
  note c = visits_counted [OF v start]
  from stop show ?thesis
  proof (cases rule: exec_step_stops)
    case (run r s1)
    obtain c w1 c' w1' where "w = (c, w1)" "w' = (c', w1')" by (metis surj_pair)
    with c run(2) have "counted s1 c'" by (auto dest: perform_counted)
    with \<open>w' = (c', w1')\<close> show ?thesis by (simp add: counted_def max_node_retries_def)
  qed (use c in \<open>simp_all add: counted_def max_node_retries_def\<close>)
qed

end
