(* ===== verification/Settings.thy ===== *)
theory Settings
  imports SchemeModel
begin

text \<open>
  The settings the modelled components read (\<open>config/settings.py\<close>), the provider a service resolves
  to (\<open>providers/registry.py\<close>), the concrete model of a tier (\<open>providers/tiers.py\<close>) and the posture
  check in front of every development-only path (\<open>config/posture.py\<close>).
\<close>

section \<open>Settings\<close>

datatype environment = DEV | STAGING | PROD

text \<open>The concrete model per tier of one LLM provider.\<close>

record tier_settings =
  ts_complex :: string
  ts_light :: string
  ts_reasoning :: string

record settings =
  environment_of :: environment
  provider :: string
  message_broker_provider :: string
  document_store_provider :: string
  object_store_provider :: string
  container_orchestrator_provider :: string
  llm_provider :: string
  ci_provider :: string
  anthropic_models :: tier_settings
  openai_models :: tier_settings
  vertex_models :: tier_settings
  ollama_models :: tier_settings
  bedrock_models :: tier_settings
  llm_ollama_model :: string
  operative_max_system_tokens :: int
  operative_max_message_tokens :: int
  operative_max_output_tokens :: int
  operative_task_cost_ceiling_usd :: rat
  operative_image :: string
  local_docker_network :: string
  lair_default_cpu :: string
  lair_default_memory :: string
  lair_default_timeout :: int
  git_author_name :: string
  git_author_email :: string
  operative_task_token :: string
  data_dir_env :: string

section \<open>Provider resolution\<close>

definition llm_provider_aliases :: "(string, string) dict" where
  "llm_provider_aliases =
     [(''ollama'', ''local''), (''vertex'', ''gcp''), (''vertexai'', ''gcp''), (''vertex-ai'', ''gcp''),
      (''vertex_ai'', ''gcp''), (''gemini'', ''gcp''), (''google'', ''gcp''), (''bedrock'', ''aws''),
      (''claude'', ''anthropic'')]"

definition normalize_llm_provider :: "string \<Rightarrow> string" where
  "normalize_llm_provider name =
     (let key = py_lower (py_strip name) in dict_get_or llm_provider_aliases key key)"

definition service_override :: "settings \<Rightarrow> string \<Rightarrow> string" where
  "service_override st service =
     dict_get_or
       [(''message_broker'', message_broker_provider st), (''document_store'', document_store_provider st),
        (''object_store'', object_store_provider st),
        (''container_orchestrator'', container_orchestrator_provider st),
        (''llm'', llm_provider st), (''ci'', ci_provider st)] service []"

definition resolve_provider_name :: "settings \<Rightarrow> string \<Rightarrow> string" where
  "resolve_provider_name st service =
     (let override = service_override st service;
          name = (if override \<noteq> [] then override else provider st)
      in if service = ''llm'' then normalize_llm_provider name else name)"

definition orchestrator_is_local :: "settings \<Rightarrow> bool" where
  "orchestrator_is_local st = (resolve_provider_name st ''container_orchestrator'' = ''local'')"

section \<open>Tiers\<close>

definition active_llm_provider :: "settings \<Rightarrow> string" where
  "active_llm_provider st = normalize_llm_provider (if llm_provider st \<noteq> [] then llm_provider st else provider st)"

text \<open>\<open>TIER_FIELDS\<close>: the settings fields of a canonical provider.\<close>

definition tier_fields :: "settings \<Rightarrow> string \<Rightarrow> tier_settings option" where
  "tier_fields st canonical =
     dict_get [(''anthropic'', anthropic_models st), (''openai'', openai_models st), (''gcp'', vertex_models st),
               (''local'', ollama_models st), (''aws'', bedrock_models st)] canonical"

fun tier_field :: "tier_settings \<Rightarrow> model_tier \<Rightarrow> string" where
  "tier_field ts COMPLEX = ts_complex ts"
| "tier_field ts LIGHT = ts_light ts"
| "tier_field ts REASONING = ts_reasoning ts"

definition tier_model :: "settings \<Rightarrow> string option \<Rightarrow> model_tier \<Rightarrow> string" where
  "tier_model st prov tier =
     (let canonical = (if str_truthy prov then normalize_llm_provider (the prov) else active_llm_provider st) in
      case tier_fields st canonical of
        None \<Rightarrow> []
      | Some ts \<Rightarrow>
          (let value = tier_field ts tier in
           if value = [] \<and> canonical = ''local'' then llm_ollama_model st else value))"

definition resolve_model_name :: "settings \<Rightarrow> string \<Rightarrow> string option \<Rightarrow> string" where
  "resolve_model_name st model prov =
     (let name = (if model = [] then tier_value COMPLEX else model) in
      case tier_of_value name of
        None \<Rightarrow> name
      | Some tier \<Rightarrow> (let resolved = tier_model st prov tier in if resolved \<noteq> [] then resolved else name))"

section \<open>Posture\<close>

definition is_desktop_install :: "settings \<Rightarrow> bool" where
  "is_desktop_install st = (py_strip (data_dir_env st) \<noteq> [])"

definition is_desktop_posture :: "settings \<Rightarrow> bool" where
  "is_desktop_posture st = (is_desktop_install st \<or> py_strip (operative_task_token st) \<noteq> [])"

definition fail_open_allowed :: "settings \<Rightarrow> bool" where
  "fail_open_allowed st \<longleftrightarrow> environment_of st = DEV \<and> \<not> is_desktop_posture st"

section \<open>Properties\<close>

lemma fail_open_only_in_dev: "fail_open_allowed st \<Longrightarrow> environment_of st = DEV"
  by (simp add: fail_open_allowed_def)

lemma resolve_model_name_nonempty: "resolve_model_name st m p \<noteq> []"
proof -
  have "tier_value t \<noteq> []" for t by (cases t) simp_all
  then show ?thesis by (auto simp: resolve_model_name_def Let_def split: option.split)
qed

lemma resolve_model_name_concrete: "m \<noteq> [] \<Longrightarrow> tier_of_value m = None \<Longrightarrow> resolve_model_name st m p = m"
  by (simp add: resolve_model_name_def)

lemma resolve_model_name_tier:
  "tier_model st p t \<noteq> [] \<Longrightarrow> resolve_model_name st (tier_value t) p = tier_model st p t"
  by (cases t) (simp_all add: resolve_model_name_def tier_of_value_def Let_def)

section \<open>A sample configuration\<close>

definition sample_tiers :: tier_settings where
  "sample_tiers = \<lparr>ts_complex = ''c'', ts_light = ''l'', ts_reasoning = ''r''\<rparr>"

definition sample_settings :: settings where
  "sample_settings =
     \<lparr>environment_of = STAGING, provider = ''gcp'', message_broker_provider = [], document_store_provider = [],
      object_store_provider = [], container_orchestrator_provider = [], llm_provider = [], ci_provider = [],
      anthropic_models = sample_tiers, openai_models = sample_tiers, vertex_models = sample_tiers,
      ollama_models = sample_tiers, bedrock_models = sample_tiers, llm_ollama_model = ''m'',
      operative_max_system_tokens = 100, operative_max_message_tokens = 100, operative_max_output_tokens = 100,
      operative_task_cost_ceiling_usd = 10, operative_image = [], local_docker_network = [], lair_default_cpu = ''2'',
      lair_default_memory = ''4Gi'', lair_default_timeout = 1800, git_author_name = ''A'', git_author_email = ''a@b'',
      operative_task_token = [], data_dir_env = []\<rparr>"

end
