(* ===== verification/Pricing.thy ===== *)
theory Pricing
  imports Settings
begin

text \<open>
  Token prices and cost estimates (\<open>providers/pricing.py\<close>): the one table every dollar figure of the
  program comes from. Prices are exact decimals; the code computes with floats.
\<close>

section \<open>Prices\<close>

record model_price =
  mp_input :: rat
  mp_output :: rat
  mp_cache_read :: rat
  mp_cache_write :: rat

definition anthropic_price :: "rat \<Rightarrow> rat \<Rightarrow> model_price" where
  "anthropic_price i out = \<lparr>mp_input = i, mp_output = out, mp_cache_read = i / 10, mp_cache_write = i * 5 / 4\<rparr>"

definition gemini_price :: "rat \<Rightarrow> rat \<Rightarrow> model_price" where
  "gemini_price i out = \<lparr>mp_input = i, mp_output = out, mp_cache_read = i / 4, mp_cache_write = i\<rparr>"

definition openai_price :: "rat \<Rightarrow> rat \<Rightarrow> model_price" where
  "openai_price i out = \<lparr>mp_input = i, mp_output = out, mp_cache_read = i / 4, mp_cache_write = i\<rparr>"

definition PRICE_TABLE :: "(string, model_price) dict" where
  "PRICE_TABLE =
     [(''claude-opus-5'', anthropic_price 5 25),
      (''claude-opus-4-8'', anthropic_price 5 25),
      (''claude-opus-4-7'', anthropic_price 5 25),
      (''claude-opus-4-6'', anthropic_price 5 25),
      (''claude-opus-4-5'', anthropic_price 5 25),
      (''claude-opus-4-1'', anthropic_price 15 75),
      (''claude-opus-4'', anthropic_price 15 75),
      (''claude-sonnet-5'', anthropic_price 2 10),
      (''claude-sonnet-4-6'', anthropic_price 3 15),
      (''claude-sonnet-4-5'', anthropic_price 3 15),
      (''claude-sonnet-4'', anthropic_price 3 15),
      (''claude-haiku-4-5'', anthropic_price 1 5),
      (''claude-3-5-haiku'', anthropic_price (4 / 5) 4),
      (''gemini-3.1-pro'', gemini_price 2 12),
      (''gemini-2.5-pro'', gemini_price (5 / 4) 10),
      (''gemini-2.5-flash'', gemini_price (3 / 10) (5 / 2)),
      (''gemini-2.5-flash-lite'', gemini_price (1 / 10) (2 / 5)),
      (''gpt-4.1'', openai_price 2 8),
      (''gpt-4.1-mini'', openai_price (2 / 5) (8 / 5)),
      (''gpt-4.1-nano'', openai_price (1 / 10) (2 / 5)),
      (''gpt-4o'', openai_price (5 / 2) 10),
      (''gpt-4o-mini'', openai_price (3 / 20) (3 / 5)),
      (''o3'', openai_price 2 8),
      (''o4-mini'', openai_price (11 / 10) (22 / 5))]"

section \<open>Model ids\<close>

definition is_digit :: "char \<Rightarrow> bool" where
  "is_digit c = (let n = of_char c :: nat in 48 \<le> n \<and> n \<le> 57)"

definition is_lower :: "char \<Rightarrow> bool" where
  "is_lower c = (let n = of_char c :: nat in 97 \<le> n \<and> n \<le> 122)"

text \<open>\<open>re.sub(r"...$", "", s)\<close>: cut the leftmost suffix that matches.\<close>

fun cut_suffix :: "(string \<Rightarrow> bool) \<Rightarrow> string \<Rightarrow> string" where
  "cut_suffix P [] = []"
| "cut_suffix P (c # s) = (if P (c # s) then [] else c # cut_suffix P s)"

text \<open>\<open>[-@]\d{8}\<close> and \<open>-v\d+(?::\d+)?\<close>, each up to the end.\<close>

definition is_date_suffix :: "string \<Rightarrow> bool" where
  "is_date_suffix s = (length s = 9 \<and> hd s \<in> {CHR ''-'', CHR ''@''} \<and> list_all is_digit (tl s))"

definition is_bedrock_suffix :: "string \<Rightarrow> bool" where
  "is_bedrock_suffix s =
     (prefix ''-v'' s \<and>
      (let ds = takeWhile is_digit (drop 2 s); rest = dropWhile is_digit (drop 2 s)
       in ds \<noteq> [] \<and> (rest = [] \<or> (hd rest = CHR '':'' \<and> tl rest \<noteq> [] \<and> list_all is_digit (tl rest)))))"

text \<open>\<open>^(?:[a-z]{2}\.)?anthropic\.\<close>\<close>

definition cut_bedrock_prefix :: "string \<Rightarrow> string" where
  "cut_bedrock_prefix s =
     (if 3 \<le> length s \<and> is_lower (s ! 0) \<and> is_lower (s ! 1) \<and> s ! 2 = CHR ''.'' \<and> prefix ''anthropic.'' (drop 3 s)
      then drop 13 s
      else if prefix ''anthropic.'' s then drop 10 s else s)"

definition normalize_model_id :: "string \<Rightarrow> string" where
  "normalize_model_id model =
     (let n0 = py_lower (py_strip model);
          n1 = cut_bedrock_prefix n0;
          n2 = cut_suffix is_bedrock_suffix n1;
          n3 = map (\<lambda>c. if c = CHR ''@'' then CHR ''-'' else c) n2
      in cut_suffix is_date_suffix n3)"

definition is_version_tail :: "string \<Rightarrow> bool" where
  "is_version_tail s =
     (prefix ''preview'' s \<or> prefix ''exp'' s \<or> prefix ''latest'' s \<or> (s \<noteq> [] \<and> is_digit (hd s)))"

definition versioned :: "string \<Rightarrow> string \<Rightarrow> bool" where
  "versioned key name = (prefix (key @ ''-'') name \<and> is_version_tail (drop (length key + 1) name))"

text \<open>\<open>sorted(PRICE_TABLE, key=len, reverse=True)\<close> is stable.\<close>

definition keys_by_length :: "string list" where
  "keys_by_length = sort_key (\<lambda>k. - int (length k)) (dict_keys PRICE_TABLE)"

definition lookup_price :: "string \<Rightarrow> model_price option" where
  "lookup_price model =
     (case dict_get PRICE_TABLE model of
        Some p \<Rightarrow> Some p
      | None \<Rightarrow>
          (let n = normalize_model_id model in
           case dict_get PRICE_TABLE n of
             Some p \<Rightarrow> Some p
           | None \<Rightarrow>
               (case find (\<lambda>key. versioned key n) keys_by_length of
                  None \<Rightarrow> None
                | Some key \<Rightarrow> dict_get PRICE_TABLE key)))"

section \<open>Estimates\<close>

definition price_cost :: "model_price \<Rightarrow> int \<Rightarrow> int \<Rightarrow> int \<Rightarrow> int \<Rightarrow> rat" where
  "price_cost p input_tokens output_tokens cached_input cache_write =
     (let cached = max 0 cached_input; written = max 0 cache_write;
          uncached = max 0 (input_tokens - cached - written)
      in (of_int uncached * mp_input p + of_int cached * mp_cache_read p + of_int written * mp_cache_write p +
          of_int output_tokens * mp_output p) / 1000000)"

definition estimate_cost :: "string \<Rightarrow> int \<Rightarrow> int \<Rightarrow> int \<Rightarrow> int \<Rightarrow> rat" where
  "estimate_cost model i out cached written =
     (case lookup_price model of None \<Rightarrow> 0 | Some p \<Rightarrow> price_cost p i out cached written)"

definition estimate_cost_for_settings :: "settings \<Rightarrow> string \<Rightarrow> int \<Rightarrow> int \<Rightarrow> int \<Rightarrow> int \<Rightarrow> rat" where
  "estimate_cost_for_settings st model i out cached written =
     estimate_cost (resolve_model_name st model None) i out cached written"

section \<open>Properties\<close>

text \<open>Every price is non-negative and a cache read is at most the input price.\<close>

definition sane_price :: "model_price \<Rightarrow> bool" where
  "sane_price p \<longleftrightarrow> 0 \<le> mp_input p \<and> 0 \<le> mp_output p \<and> 0 \<le> mp_cache_read p \<and> 0 \<le> mp_cache_write p \<and>
     mp_cache_read p \<le> mp_input p \<and> mp_input p \<le> mp_cache_write p"

lemma sane_prices:
  "0 \<le> i \<Longrightarrow> 0 \<le> out \<Longrightarrow> sane_price (anthropic_price i out)"
  "0 \<le> i \<Longrightarrow> 0 \<le> out \<Longrightarrow> sane_price (gemini_price i out)"
  "0 \<le> i \<Longrightarrow> 0 \<le> out \<Longrightarrow> sane_price (openai_price i out)"
  by (simp_all add: sane_price_def anthropic_price_def gemini_price_def openai_price_def)

lemma table_sane: "(k, p) \<in> set PRICE_TABLE \<Longrightarrow> sane_price p"
  by (auto simp: PRICE_TABLE_def sane_prices)

lemma lookup_price_sane: "lookup_price m = Some p \<Longrightarrow> sane_price p"
  by (auto simp: lookup_price_def Let_def split: option.splits dest!: map_of_SomeD intro: table_sane)

lemma estimate_cost_nonneg: "0 \<le> out \<Longrightarrow> 0 \<le> estimate_cost m i out c wr"
proof (cases "lookup_price m")
  case (Some p)
  assume "0 \<le> out"
  with lookup_price_sane [OF Some] have
    "0 \<le> of_int (max 0 (i - max 0 c - max 0 wr)) * mp_input p" "0 \<le> of_int (max 0 c) * mp_cache_read p"
    "0 \<le> of_int (max 0 wr) * mp_cache_write p" "0 \<le> of_int out * mp_output p"
    by (auto simp: sane_price_def)
  with Some show ?thesis by (simp add: estimate_cost_def price_cost_def Let_def)
qed (simp add: estimate_cost_def)

text \<open>Serving part of a prompt from the cache never costs more.\<close>

lemma cache_read_saves:
  assumes "0 \<le> c" "c \<le> i"
  shows "estimate_cost m i out c 0 \<le> estimate_cost m i out 0 0"
proof (cases "lookup_price m")
  case (Some p)
  from lookup_price_sane [OF Some] have "mp_cache_read p \<le> mp_input p" by (simp add: sane_price_def)
  then have "of_int c * mp_cache_read p \<le> of_int c * mp_input p"
    using assms(1) by (intro mult_left_mono) auto
  then have "of_int (i - c) * mp_input p + of_int c * mp_cache_read p \<le> of_int i * mp_input p"
    by (simp add: algebra_simps)
  with Some assms show ?thesis
    by (auto simp: estimate_cost_def price_cost_def Let_def max_def intro!: divide_right_mono)
qed (simp add: estimate_cost_def)

text \<open>More tokens never cost less.\<close>

lemma estimate_cost_mono:
  assumes "i \<le> i'" "out \<le> out'"
  shows "estimate_cost m i out 0 0 \<le> estimate_cost m i' out' 0 0"
proof (cases "lookup_price m")
  case (Some p)
  from lookup_price_sane [OF Some] have p: "0 \<le> mp_input p" "0 \<le> mp_output p" by (simp_all add: sane_price_def)
  have "of_int (max 0 i) * mp_input p \<le> of_int (max 0 i') * mp_input p"
    "of_int out * mp_output p \<le> of_int out' * mp_output p"
    using p assms by (auto intro!: mult_right_mono)
  with Some show ?thesis
    by (auto simp: estimate_cost_def price_cost_def Let_def intro!: divide_right_mono add_mono)
qed (simp add: estimate_cost_def)

text \<open>A versioned name is priced as the longest table key it extends.\<close>

lemma find_sorted_max:
  fixes f :: "'a \<Rightarrow> int"
  assumes "sorted (map f xs)" "find P xs = Some x" "y \<in> set xs" "P y"
  shows "f x \<le> f y"
  using assms by (induction xs) (auto split: if_splits)

lemma lookup_longest:
  assumes "dict_get PRICE_TABLE m = None" "dict_get PRICE_TABLE (normalize_model_id m) = None"
    and "lookup_price m = Some p" "k \<in> set (dict_keys PRICE_TABLE)" "versioned k (normalize_model_id m)"
  shows "\<exists>key. dict_get PRICE_TABLE key = Some p \<and> versioned key (normalize_model_id m) \<and> length k \<le> length key"
proof -
  from assms(1-3) obtain key where key: "find (\<lambda>key. versioned key (normalize_model_id m)) keys_by_length = Some key"
    "dict_get PRICE_TABLE key = Some p"
    by (auto simp: lookup_price_def split: option.splits)
  have "- int (length key) \<le> - int (length k)"
    using assms(4,5) key(1)
    by (intro find_sorted_max [where xs = keys_by_length and f = "\<lambda>k. - int (length k)"
          and P = "\<lambda>key. versioned key (normalize_model_id m)"]) (auto simp: keys_by_length_def)
  with key show ?thesis by (auto dest: find_SomeD)
qed

end
