(* ===== verification/Handlers.thy ===== *)
theory Handlers
  imports CiGate Executor Pricing
begin

text \<open>
  The deterministic handlers of scheme nodes (\<open>mastermind/scheme_executor/handlers.py\<close>) and the
  dispatch of agentic nodes (\<open>SchemeExecutor._execute_agentic\<close> and the functions around it). Each
  handler is a computation of \<open>Host\<close> that returns the result dictionary of its node. The names of
  temporary directories are fixed, timeouts are rendered as whole seconds, the robot character of the pull request body is left out and
  dashes are ASCII.
\<close>

section \<open>Helpers\<close>

definition base_branch_of :: "henchmen_task \<Rightarrow> string" where
  "base_branch_of task = (if str_truthy (ctx_branch (task_ctx task)) then the (ctx_branch (task_ctx task)) else ''main'')"

definition result_fail :: "string \<Rightarrow> node_result" where
  "result_fail msg = empty_result\<lparr>nr_condition := Some Fail, nr_message := Some msg\<rparr>"

definition result_note :: "string \<Rightarrow> node_result" where
  "result_note msg = empty_result\<lparr>nr_message := Some msg\<rparr>"

definition gate_node_result :: "gate_result \<Rightarrow> node_result" where
  "gate_node_result r =
     empty_result\<lparr>nr_condition := Some (gr_condition r), nr_message := Some (gr_message r), nr_output := Some (gr_output r)\<rparr>"

text \<open>
  \<open>is_workflow_push_refusal\<close>: the pattern \<open>refusing to allow an? [\w ]+ to create or update workflow\<close>
  or \<open>without `?workflows?`? (permission|scope)\<close>, case-insensitive, anywhere in the text.
\<close>

definition is_word_or_space :: "char \<Rightarrow> bool" where
  "is_word_or_space c =
     (let n = of_char c :: nat in
      (48 \<le> n \<and> n \<le> 57) \<or> (65 \<le> n \<and> n \<le> 90) \<or> (97 \<le> n \<and> n \<le> 122) \<or> n = 95 \<or> n = 32)"

fun after_words :: "string \<Rightarrow> bool" where
  "after_words [] = False"
| "after_words (c # s) =
     (is_word_or_space c \<and> (prefix '' to create or update workflow'' s \<or> after_words s))"

definition opt_prefix :: "string \<Rightarrow> string \<Rightarrow> string" where
  "opt_prefix p s = (if prefix p s then drop (length p) s else s)"

definition matches_refusal :: "string \<Rightarrow> bool" where
  "matches_refusal s =
     (prefix ''refusing to allow a'' s \<and>
        (\<exists>r\<in>set [drop 19 s, opt_prefix ''n'' (drop 19 s)]. prefix '' '' r \<and> after_words (tl r))
      \<or> prefix ''without '' s \<and>
        (let r = opt_prefix ''`'' (drop 8 s) in
         prefix ''workflow'' r \<and>
         (let r2 = opt_prefix ''`'' (opt_prefix ''s'' (drop 8 r)) in
          prefix '' permission'' r2 \<or> prefix '' scope'' r2)))"

definition is_workflow_push_refusal :: "string \<Rightarrow> bool" where
  "is_workflow_push_refusal s = list_ex matches_refusal (suffixes (py_lower s))"

definition workflow_push_refused_message :: string where
  "workflow_push_refused_message =
     ''Henchmen could not push its branch because the change edits GitHub Actions workflows (.github/workflows/). '' @
     ''Henchmen is not allowed to change CI workflows, so a person needs to make that part of the change.''"

definition refused_result :: node_result where
  "refused_result =
     (result_fail workflow_push_refused_message)\<lparr>nr_escalation_reason := Some workflow_push_refused_message\<rparr>"

text \<open>\<open>_tail_chars\<close>: the last characters, without a partial first line or word.\<close>

definition tail_chars :: "nat \<Rightarrow> string \<Rightarrow> string" where
  "tail_chars limit txt =
     (if length txt \<le> limit then txt
      else (let trimmed = py_last limit txt in
        if CHR 0x0A \<in> set trimmed then tl (dropWhile (\<lambda>c. c \<noteq> CHR 0x0A) trimmed)
        else if trimmed \<noteq> [] \<and> is_space (hd trimmed) then py_lstrip trimmed
        else py_lstrip (dropWhile (\<lambda>c. \<not> is_space c) trimmed)))"

section \<open>The bounded tail of a pipe\<close>

text \<open>\<open>_BoundedTail\<close>: the chunks kept, oldest first; whole chunks are dropped from the front.\<close>

fun trim_chunks :: "nat \<Rightarrow> string list \<Rightarrow> string list" where
  "trim_chunks cap (c # d # cs) =
     (if cap < length (concat (c # d # cs)) then trim_chunks cap (d # cs) else c # d # cs)"
| "trim_chunks cap cs = cs"

definition tail_add :: "nat \<Rightarrow> string list \<Rightarrow> string \<Rightarrow> string list" where
  "tail_add cap cs chunk = trim_chunks cap (cs @ [chunk])"

definition drain_stream :: "nat \<Rightarrow> string list \<Rightarrow> string" where
  "drain_stream cap chunks = concat (fold (\<lambda>chunk cs. tail_add cap cs chunk) chunks [])"

definition gate_output_tail_bytes :: nat where
  "gate_output_tail_bytes = 256 * 1024"

section \<open>The docker runner of every local gate\<close>

definition memory_limit :: "string \<Rightarrow> string" where
  "memory_limit m = py_replace ''mi'' ''m'' (py_replace ''gi'' ''g'' (py_lower m))"

definition gate_resource_limit_args :: "host \<Rightarrow> settings \<Rightarrow> string list" where
  "gate_resource_limit_args h st =
     [''--memory'', memory_limit (lair_default_memory st)] @
     (let cpus = h_cpus h (lair_default_cpu st) in if cpus \<noteq> [] then [''--cpus'', cpus] else []) @
     [''--pids-limit'', ''1024'']"

definition gate_security_args :: "string list" where
  "gate_security_args =
     [''--user'', ''0:0'', ''--cap-drop'', ''ALL'', ''--cap-add'', ''CHOWN'', ''--cap-add'', ''DAC_OVERRIDE'',
      ''--cap-add'', ''FOWNER'', ''--cap-add'', ''SETUID'', ''--cap-add'', ''SETGID'',
      ''--security-opt'', ''no-new-privileges'']"

definition gate_argv ::
  "host \<Rightarrow> settings \<Rightarrow> string \<Rightarrow> gate_command \<Rightarrow> string \<Rightarrow> string \<Rightarrow> string \<Rightarrow> string list \<Rightarrow> string list" where
  "gate_argv h st container cmd repo branch base extra =
     [''docker'', ''run'', ''--rm'', ''--init'', ''-i'', ''--name'', container] @
     (if local_docker_network st \<noteq> [] then [''--network'', local_docker_network st] else []) @
     gate_resource_limit_args h st @ gate_security_args @
     [''--entrypoint'', ''python'',
      (if operative_image st \<noteq> [] then operative_image st else ''henchmen-operative:local''),
      ''-m'', ''henchmen.mastermind.scheme_executor.ci_gate'', command_name cmd,
      ''--repo='' @ repo, ''--branch='' @ branch, ''--base='' @ base] @ extra"

text \<open>The token goes to the container's stdin and nowhere else.\<close>

definition gate_call ::
  "host \<Rightarrow> settings \<Rightarrow> string \<Rightarrow> gate_command \<Rightarrow> string \<Rightarrow> string \<Rightarrow> string \<Rightarrow> string \<Rightarrow> string list \<Rightarrow> process_call" where
  "gate_call h st container cmd repo branch base token extra =
     (self_call (gate_argv h st container cmd repo branch base extra) ''.'')\<lparr>pc_stdin := Some (token @ [CHR 0x0A])\<rparr>"

definition kill_container :: "host \<Rightarrow> string \<Rightarrow> unit io" where
  "kill_container h name =
     io_bind (io_catch (io_bind (exec h (self_call [''docker'', ''kill'', name] ''.'')) (\<lambda>(rc, _, _). io_return (rc = 0)))
                (\<lambda>_. Some (io_return False)))
       (\<lambda>killed. if killed then io_return ()
          else io_catch (io_bind (exec h (self_call [''docker'', ''rm'', ''-f'', name] ''.'')) (\<lambda>_. io_return ()))
                 (\<lambda>_. Some (io_return ())))"

text \<open>What the runner makes of a finished container.\<close>

definition scrub_check :: "host \<Rightarrow> string \<Rightarrow> gate_check \<Rightarrow> gate_check" where
  "scrub_check h token c = c\<lparr>gc_message := scrub_secret h (gc_message c) token, gc_output := scrub_secret h (gc_output c) token\<rparr>"

definition gate_outcome ::
  "host \<Rightarrow> gate_command \<Rightarrow> string \<Rightarrow> gate_result option \<Rightarrow> int \<Rightarrow> string \<Rightarrow> string \<Rightarrow> gate_result" where
  "gate_outcome h cmd token parsed rc out err =
     (case parsed of
        None \<Rightarrow>
          \<lparr>gr_condition = Fail,
           gr_message = command_name cmd @ '' failed (the gate container exited '' @ show_int rc @ '' without a result)'',
           gr_output = scrub_secret h (tail_chars gate_output_limit err @ tail_chars gate_output_limit out) token,
           gr_checks = []\<rparr>
      | Some r \<Rightarrow>
          (let passed = (gr_condition r = Pass \<and> rc = 0) in
           \<lparr>gr_condition = (if passed then Pass else Fail),
            gr_message = (if \<not> passed \<and> gr_condition r = Pass
              then command_name cmd @ '' failed (the gate reported a pass but exited '' @ show_int rc @ '')''
              else scrub_secret h (gr_message r) token),
            gr_output = scrub_secret h (gr_output r) token, gr_checks = map (scrub_check h token) (gr_checks r)\<rparr>))"

definition run_gate_in_container ::
  "host \<Rightarrow> settings \<Rightarrow> (string \<Rightarrow> gate_result option) \<Rightarrow> gate_command \<Rightarrow> string \<Rightarrow> string \<Rightarrow> string \<Rightarrow> string \<Rightarrow> string list \<Rightarrow> gate_result io" where
  "run_gate_in_container h st vjson cmd repo branch base token extra =
     io_bind io_history (\<lambda>t.
     (let container = ''henchmen-gate-'' @ h_uuid h t in
      io_bind
        (io_catch (io_bind (exec h (gate_call h st container cmd repo branch base token extra)) (\<lambda>r. io_return (Inr r)))
           (\<lambda>e. Some (io_bind (kill_container h container) (\<lambda>_.
             if e = TimeoutExn then io_return (Inl ()) else io_raise e))))
        (\<lambda>ended. case ended of
           Inl _ \<Rightarrow> io_return (gate_fail (command_name cmd @ '' failed (the gate did not finish within '' @
                      show_int (lair_default_timeout st) @ ''s)''))
         | Inr (rc, out, err) \<Rightarrow>
             io_bind io_history (\<lambda>t2.
             (let out_tail = drain_stream gate_output_tail_bytes (h_chunks h t2 out);
                  err_tail = drain_stream gate_output_tail_bytes (h_chunks h t2 err)
              in io_return (gate_outcome h cmd token (parse_gate_result vjson out_tail) rc out_tail err_tail))))))"

section \<open>CI checks\<close>

text \<open>\<open>_run_on_host\<close>: the install, then every command; the first non-zero exit code wins.\<close>

definition host_output :: "string \<Rightarrow> string \<Rightarrow> string" where
  "host_output out err =
     (let o1 = take 3000 out; e1 = take 3000 err; nl = [CHR 0x0A] in
      if e1 = [] then o1
      else if py_strip o1 \<noteq> [] then o1 @ nl @ ''--- stderr ---'' @ nl @ e1 else e1)"

fun run_commands :: "host \<Rightarrow> string \<Rightarrow> check_command list \<Rightarrow> (int \<times> string list) io" where
  "run_commands h ws [] = io_return (0, [])"
| "run_commands h ws (c # cs) =
     io_bind (exec h (self_call (argv c) (ws @ ''/'' @ cwd c))) (\<lambda>(rc, out, err).
     io_bind (run_commands h ws cs) (\<lambda>(rest_rc, outs).
     io_return (if rc \<noteq> 0 then rc else rest_rc, host_output out err # outs)))"

definition run_on_host :: "host \<Rightarrow> string \<Rightarrow> stack \<Rightarrow> check_command list \<Rightarrow> (int \<times> string) io" where
  "run_on_host h ws st cs =
     io_bind (case install_command st of
                None \<Rightarrow> io_return ()
              | Some cmd \<Rightarrow> io_bind (exec h (self_call cmd ws)) (\<lambda>_. io_return ()))
       (\<lambda>_. io_bind (run_commands h ws cs) (\<lambda>(rc, outs). io_return (rc, join_with [CHR 0x0A] outs)))"

text \<open>An \<open>except Exception\<close> around a whole check.\<close>

definition or_fail :: "(exn \<Rightarrow> string) \<Rightarrow> node_result io \<Rightarrow> node_result io" where
  "or_fail msg m = io_catch m (\<lambda>e. Some (io_return (result_fail (msg e))))"

text \<open>\<open>_gate_github_token\<close> and the \<open>except GitHubAuthError\<close> of its callers; \<open>k\<close> goes on with the token.\<close>

definition with_token :: "host \<Rightarrow> string \<Rightarrow> (string \<Rightarrow> string) \<Rightarrow> (string \<Rightarrow> node_result io) \<Rightarrow> node_result io" where
  "with_token h repo msg k =
     io_bind
       (io_catch (io_bind (fetch_token h repo) (\<lambda>tok. io_return (Inr tok)))
          (\<lambda>e. case e of GitHubAuthExn s \<Rightarrow> Some (io_return (Inl (result_fail (msg s)))) | _ \<Rightarrow> None))
       (\<lambda>r. case r of Inl failed \<Rightarrow> io_return failed | Inr tok \<Rightarrow> k tok)"

definition ci_workspace :: "gate_command \<Rightarrow> string" where
  "ci_workspace check = ''henchmen-'' @ command_name check"

definition run_ci_check ::
  "host \<Rightarrow> settings \<Rightarrow> (string \<Rightarrow> gate_result option) \<Rightarrow> henchmen_task \<Rightarrow> gate_command \<Rightarrow> node_result io" where
  "run_ci_check h st vjson task check =
     (let repo = ctx_repo (task_ctx task); branch = branch_name (task_id task); base = base_branch_of task;
          label = command_name check; ws = ci_workspace check in
      if repo = [] then io_return (result_fail (label @ '' failed (no repo)''))
      else with_token h repo (\<lambda>s. label @ '' failed (GitHub credentials): '' @ s) (\<lambda>token.
        if orchestrator_is_local st
        then or_fail (\<lambda>e. label @ '' failed (error: '' @ scrub_secret h (exn_text e) token @ '')'')
               (io_bind (run_gate_in_container h st vjson check repo branch base token [])
                  (\<lambda>r. io_return (gate_node_result r)))
        else io_finally
          (or_fail (\<lambda>e. label @ '' failed (error: '' @ exn_text e @ '')'')
             (io_bind (plan_gate h check repo branch base token ws None) (\<lambda>planned. case planned of
                Inl r \<Rightarrow> io_return (gate_node_result r)
              | Inr p \<Rightarrow>
                  io_bind (run_on_host h ws (gp_stack p) (gp_commands p)) (\<lambda>(rc, out).
                  io_return (empty_result\<lparr>nr_condition := Some (if rc = 0 then Pass else Fail),
                    nr_message := Some (verdict label (rc = 0)), nr_output := Some out\<rparr>)))))
          (emit (RemoveTree ws))))"

definition handle_run_lint :: "host \<Rightarrow> settings \<Rightarrow> (string \<Rightarrow> gate_result option) \<Rightarrow> henchmen_task \<Rightarrow> node_result io" where
  "handle_run_lint h st vjson task = run_ci_check h st vjson task CmdLint"

definition handle_run_tests :: "host \<Rightarrow> settings \<Rightarrow> (string \<Rightarrow> gate_result option) \<Rightarrow> henchmen_task \<Rightarrow> node_result io" where
  "handle_run_tests h st vjson task = run_ci_check h st vjson task CmdTests"

section \<open>fix_lint\<close>

definition container_fix_result :: "gate_result \<Rightarrow> node_result" where
  "container_fix_result r =
     (if gr_condition r \<noteq> Pass
      then (if is_workflow_push_refusal (gr_message r @ [CHR 0x0A] @ gr_output r) then refused_result
            else gate_node_result r)
      else (gate_node_result r)\<lparr>nr_condition := None\<rparr>)"

definition fix_lint_in_container ::
  "host \<Rightarrow> settings \<Rightarrow> (string \<Rightarrow> gate_result option) \<Rightarrow> henchmen_task \<Rightarrow> string \<Rightarrow> string \<Rightarrow> string \<Rightarrow> node_result io" where
  "fix_lint_in_container h st vjson task repo branch token =
     or_fail (\<lambda>e. ''fix_lint failed (error: '' @ scrub_secret h (exn_text e) token @ '')'')
       (io_bind (run_gate_in_container h st vjson CmdFix repo branch (base_branch_of task) token
                   [''--author-name='' @ git_author_name st, ''--author-email='' @ git_author_email st])
          (\<lambda>r. io_return (container_fix_result r)))"

text \<open>The git steps of the host path, in order; \<open>Some\<close> of the result of the first one that fails.\<close>

fun host_git_steps :: "host \<Rightarrow> string \<Rightarrow> string \<Rightarrow> string list list \<Rightarrow> node_result option io" where
  "host_git_steps h ws token [] = io_return None"
| "host_git_steps h ws token (args # rest) =
     io_bind (exec h (self_call (''git'' # args) ws)) (\<lambda>(rc, _, err).
       if rc \<noteq> 0 \<and> hd args = ''push'' \<and> is_workflow_push_refusal err then io_return (Some refused_result)
       else if rc \<noteq> 0
       then io_return (Some (result_fail (''fix_lint failed (git '' @ hd args @ '' failed): '' @ mask_token token (take 300 err))))
       else host_git_steps h ws token rest)"

definition host_fix_steps :: "settings \<Rightarrow> string \<Rightarrow> string list \<Rightarrow> string list list" where
  "host_fix_steps st branch in_scope =
     [[''config'', ''user.email'', git_author_email st], [''config'', ''user.name'', git_author_name st],
      [''add'', ''--''] @ in_scope, [''commit'', ''-m'', ''style: auto-fix lint issues''], [''push'', ''origin'', branch]]"

text \<open>The part of the host path after the fixers ran.\<close>

definition host_commit_fixes ::
  "host \<Rightarrow> settings \<Rightarrow> string \<Rightarrow> string \<Rightarrow> string \<Rightarrow> string list \<Rightarrow> string \<Rightarrow> node_result io" where
  "host_commit_fixes h st branch token ws scope fix_output =
     io_bind (exec h (self_call [''git'', ''status'', ''--porcelain'', ''-z''] ws)) (\<lambda>(_, out, _).
     (let modified = status_paths out; inside = in_scope_of modified scope; outside = out_of_scope_of modified scope in
      io_bind
        (if outside = [] then io_return None
         else io_bind (exec h (self_call ([''git'', ''checkout'', ''--''] @ outside) ws)) (\<lambda>(rc, _, err).
              io_return (if rc \<noteq> 0 then Some (result_fail (''fix_lint failed (could not revert out-of-scope fixes): '' @ take 300 err)) else None)))
        (\<lambda>reverted. case reverted of
           Some r \<Rightarrow> io_return r
         | None \<Rightarrow>
             if inside = [] then io_return (result_note ''fix_lint: auto-fix made no changes'')
             else io_bind (host_git_steps h ws token (host_fix_steps st branch inside)) (\<lambda>failed.
                  io_return (case failed of
                    Some r \<Rightarrow> r
                  | None \<Rightarrow> (result_note ''fix_lint: auto-fixed lint issues and pushed'')\<lparr>nr_output := Some fix_output\<rparr>)))))"

definition host_install_command :: "workspace \<Rightarrow> string list option" where
  "host_install_command fs =
     (if is_file fs ''package.json''
      then Some (if is_file fs ''pnpm-lock.yaml'' then [''pnpm'', ''install'', ''--frozen-lockfile''] else [''npm'', ''ci''])
      else None)"

text \<open>\<open>except RuntimeError\<close> around the clone; \<open>Some\<close> of the failing result.\<close>

definition clone_or_fail :: "host \<Rightarrow> string \<Rightarrow> string \<Rightarrow> string \<Rightarrow> string \<Rightarrow> string \<Rightarrow> node_result option io" where
  "clone_or_fail h label repo branch ws token =
     io_catch (io_bind (clone_repo h repo branch ws token) (\<lambda>_. io_return None))
       (\<lambda>e. case e of
          Runtime s \<Rightarrow> Some (io_return (Some (result_fail (label @ '' failed (clone failed): '' @ s))))
        | _ \<Rightarrow> None)"

text \<open>\<open>except LintScopeError\<close> around \<open>changed_files\<close>.\<close>

definition scope_or_fail :: "host \<Rightarrow> string \<Rightarrow> string \<Rightarrow> string \<Rightarrow> (node_result + string list) io" where
  "scope_or_fail h ws base token =
     io_catch (io_bind (changed_files h ws base) (\<lambda>s. io_return (Inr s)))
       (\<lambda>e. case e of
          LintScopeExn err \<Rightarrow> Some (io_return (Inl (result_fail
            (''fix_lint failed - could not determine the files changed against '' @ base @ '': '' @
             mask_token token (lint_scope_text err)))))
        | _ \<Rightarrow> None)"

text \<open>The fixers on what the branch changed, and the commit of their fixes.\<close>

definition fix_changed_files ::
  "host \<Rightarrow> settings \<Rightarrow> string \<Rightarrow> string \<Rightarrow> string \<Rightarrow> string \<Rightarrow> stack \<Rightarrow> node_result io" where
  "fix_changed_files h st branch token ws base stk =
     io_bind (scope_or_fail h ws base token) (\<lambda>sc. case sc of
       Inl r \<Rightarrow> io_return r
     | Inr scope \<Rightarrow>
         io_bind (files h) (\<lambda>fs.
         io_bind (io_of_plan (plan_fix stk fs scope)) (\<lambda>plan.
         if plan_commands plan = []
         then io_return (result_note (''fix_lint: nothing to auto-fix ('' @ skip_reason plan @ '')''))
         else io_bind (io_map (\<lambda>c. io_bind (exec h (self_call (argv c) (ws @ ''/'' @ cwd c))) (\<lambda>(_, out, _). io_return out)) (plan_commands plan))
              (\<lambda>outs. host_commit_fixes h st branch token ws scope (take 2000 (join_with [CHR 0x0A] outs))))))"

definition fix_lint_on_host :: "host \<Rightarrow> settings \<Rightarrow> henchmen_task \<Rightarrow> string \<Rightarrow> string \<Rightarrow> string \<Rightarrow> string \<Rightarrow> node_result io" where
  "fix_lint_on_host h st task repo branch token ws =
     io_bind (clone_or_fail h ''fix_lint'' repo branch ws token)
       (\<lambda>failed. case failed of
          Some r \<Rightarrow> io_return r
        | None \<Rightarrow>
            io_bind (files h) (\<lambda>fs0.
            io_bind (case host_install_command fs0 of
                       None \<Rightarrow> io_return ()
                     | Some cmd \<Rightarrow> io_bind (exec h (self_call cmd ws)) (\<lambda>_. io_return ())) (\<lambda>_.
            io_bind (files h) (\<lambda>fs.
            (let stk = detect_stack fs; base = base_branch_of task in
             if stack_name stk = ''unknown''
             then io_return (result_fail (''fix_lint failed - could not detect the project stack for '' @ repo))
             else fix_changed_files h st branch token ws base stk)))))"

definition handle_fix_lint :: "host \<Rightarrow> settings \<Rightarrow> (string \<Rightarrow> gate_result option) \<Rightarrow> henchmen_task \<Rightarrow> node_result io" where
  "handle_fix_lint h st vjson task =
     (let repo = ctx_repo (task_ctx task); branch = branch_name (task_id task); ws = ''henchmen-fix-lint'' in
      if repo = [] then io_return (result_fail ''fix_lint failed (no repo)'')
      else with_token h repo (\<lambda>s. ''fix_lint failed (GitHub credentials): '' @ s) (\<lambda>token.
        if orchestrator_is_local st then fix_lint_in_container h st vjson task repo branch token
        else io_finally
          (or_fail (\<lambda>e. ''fix_lint failed (error: '' @ exn_text e @ '')'')
             (fix_lint_on_host h st task repo branch token ws))
          (emit (RemoveTree ws))))"

section \<open>Verification and pull requests\<close>

definition nonblank_lines :: "string \<Rightarrow> string list" where
  "nonblank_lines out = filter (\<lambda>l. py_strip l \<noteq> []) (split_on (CHR 0x0A) (py_strip out))"

definition verify_on_host :: "host \<Rightarrow> string \<Rightarrow> string \<Rightarrow> string \<Rightarrow> string \<Rightarrow> string \<Rightarrow> node_result io" where
  "verify_on_host h repo branch base token ws =
     io_bind (clone_or_fail h ''verify_changes'' repo branch ws token)
       (\<lambda>failed. case failed of
          Some r \<Rightarrow> io_return r
        | None \<Rightarrow>
            io_bind (exec h (self_call [''git'', ''fetch'', ''origin'', base @ '':refs/remotes/origin/'' @ base, ''--depth=1''] ws)) (\<lambda>_.
            io_bind (exec h (self_call [''git'', ''log'', ''origin/'' @ base @ ''..HEAD'', ''--oneline''] ws)) (\<lambda>(_, log_out, log_err).
            if nonblank_lines log_out = []
            then io_return (result_fail (''verify_changes failed: no commits on branch beyond '' @ base @ '' (stderr: '' @ take 200 log_err @ '')''))
            else io_bind (exec h (self_call [''git'', ''diff'', ''--name-only'', ''origin/'' @ base] ws)) (\<lambda>(_, diff_out, _).
                 if nonblank_lines diff_out = []
                 then io_return (result_fail ''verify_changes failed: no file changes on branch'')
                 else io_return (empty_result\<lparr>nr_condition := Some Pass,
                        nr_message := Some (''Verified: '' @ show_nat (length (nonblank_lines log_out)) @ '' commit(s), '' @
                          show_nat (length (nonblank_lines diff_out)) @ '' file(s) changed'')\<rparr>)))))"

definition handle_verify_changes :: "host \<Rightarrow> henchmen_task \<Rightarrow> node_result io" where
  "handle_verify_changes h task =
     (let repo = ctx_repo (task_ctx task); ws = ''henchmen-verify'' in
      if repo = [] then io_return (result_fail ''verify_changes failed (no repo)'')
      else with_token h repo (\<lambda>s. ''verify_changes failed (GitHub credentials): '' @ s) (\<lambda>token.
        io_finally
          (or_fail (\<lambda>e. ''verify_changes failed (error: '' @ exn_text e @ '')'')
             (verify_on_host h repo (branch_name (task_id task)) (base_branch_of task) token ws))
          (emit (RemoveTree ws))))"

definition pr_body :: "henchmen_task \<Rightarrow> string \<Rightarrow> string" where
  "pr_body task summary =
     (let nl = [CHR 0x0A] in
      ''## Summary'' @ nl @ nl @ (if summary \<noteq> [] then summary else description task) @ nl @ nl @
      ''## Task Details'' @ nl @ nl @ ''- **Task ID**: `'' @ task_id task @ ''`'' @ nl @
      ''- **Source**: '' @ source_value (task_source_of task) @ nl @ ''- **Title**: '' @ title task @ nl @ nl @
      ''---'' @ nl @ ''Generated by Henchmen Agent Factory'')"

text \<open>The implementation's summary: \<open>implement_fix\<close> when it has a result, else \<open>implement_feature\<close>.\<close>

definition implementation_summary :: "results \<Rightarrow> string" where
  "implementation_summary nrs =
     (let impl = dict_get_or nrs ''implement_fix'' (dict_get_or nrs ''implement_feature'' empty_result)
      in case nr_report impl of None \<Rightarrow> [] | Some r \<Rightarrow> rep_summary r)"

definition pr_result :: "pull_request \<Rightarrow> string \<Rightarrow> node_result" where
  "pr_result p msg =
     empty_result\<lparr>nr_condition := Some Pass, nr_pr_url := Some (pull_url p), nr_pr_number := Some (pull_number p),
                  nr_message := Some msg\<rparr>"

definition repo_owner :: "string \<Rightarrow> string" where
  "repo_owner repo = hd (split_on (CHR ''/'') repo)"

text \<open>GitHub is asked for open pulls of \<open>owner:branch\<close>, and the branch is compared again locally.\<close>

definition open_or_find_pr :: "host \<Rightarrow> henchmen_task \<Rightarrow> results \<Rightarrow> node_result io" where
  "open_or_find_pr h task nrs =
     (let repo = ctx_repo (task_ctx task); branch = branch_name (task_id task) in
      io_bind (ask (h_pulls h) (ListPulls (repo_owner repo @ '':'' @ branch) ''open'')) (\<lambda>pulls.
      case filter (\<lambda>p. pull_ref p = branch) pulls of
        p # _ \<Rightarrow> io_return (pr_result p ''PR already exists'')
      | [] \<Rightarrow>
          io_bind (ask (h_create_pull h)
              (CreatePull (''[Henchmen] '' @ title task) (pr_body task (implementation_summary nrs)) branch (base_branch_of task))) (\<lambda>p.
          io_bind (emit LabelPull) (\<lambda>_.
          io_return (pr_result p (''PR #'' @ show_int (pull_number p) @ '' created: '' @ pull_url p))))))"

definition handle_create_pr :: "host \<Rightarrow> henchmen_task \<Rightarrow> results \<Rightarrow> node_result io" where
  "handle_create_pr h task nrs =
     (let repo = ctx_repo (task_ctx task) in
      if repo = [] then io_return (result_fail ''PR creation failed: missing repo'')
      else with_token h repo (\<lambda>s. ''PR creation failed: GitHub credentials unavailable ('' @ s @ '')'') (\<lambda>token.
        if token = []
        then io_return (result_fail ''PR creation failed: missing GitHub credentials (GitHub App or HENCHMEN_GITHUB_TOKEN)'')
        else or_fail (\<lambda>e. ''PR creation failed: '' @ exn_text e) (open_or_find_pr h task nrs)))"

section \<open>The handlers without effects\<close>

definition handle_create_branch :: "henchmen_task \<Rightarrow> node_result" where
  "handle_create_branch task =
     result_note (''Branch '' @ branch_name (task_id task) @ '' (no-op - created by operative bootstrap)'')"

definition handle_prefetch_context :: node_result where
  "handle_prefetch_context = result_note ''Context prefetched''"

definition handle_escalate :: "henchmen_task \<Rightarrow> node_result" where
  "handle_escalate task =
     (result_note (''Task '' @ task_id task @ '' escalated to human review''))\<lparr>nr_escalated := True\<rparr>"

text \<open>
  A result without a report has the empty report \<open>{}\<close> there, a dictionary without a summary; the
  branch for a report that is not a dictionary is unreachable for stored results.
\<close>

definition handle_report_plan :: "results \<Rightarrow> node_result" where
  "handle_report_plan nrs =
     (let r = dict_get_or nrs ''analyze_goal'' empty_result;
          summary = (case nr_report r of None \<Rightarrow> [] | Some rep \<Rightarrow> rep_summary rep)
      in empty_result\<lparr>nr_condition := Some Pass, nr_plan := Some summary,
           nr_message := Some (''Goal decomposed into sub-tasks. Plan:'' @ [CHR 0x0A] @ summary)\<rparr>)"

section \<open>The handler registry\<close>

datatype handler =
    HCreateBranch | HPrefetchContext | HRunLint | HFixLint | HRunTests | HVerifyChanges
  | HCreatePr | HEscalate | HReportPlan

definition HANDLERS :: "(string, handler) dict" where
  "HANDLERS =
     [(''create_branch'', HCreateBranch), (''prefetch_context'', HPrefetchContext),
      (''run_lint_retry'', HRunLint), (''run_lint'', HRunLint), (''fix_lint'', HFixLint),
      (''run_tests_retry'', HRunTests), (''run_tests'', HRunTests), (''verify_changes'', HVerifyChanges),
      (''create_pr'', HCreatePr), (''escalate'', HEscalate), (''report_plan'', HReportPlan)]"

definition get_handler :: "string \<Rightarrow> handler option" where
  "get_handler name = dict_get HANDLERS name"

definition handler_of :: "scheme_node \<Rightarrow> handler option" where
  "handler_of n = (case get_handler (node_id n) of Some f \<Rightarrow> Some f | None \<Rightarrow> get_handler (node_name n))"

text \<open>The ids of the deterministic nodes without a handler, one problem each.\<close>

definition validate_deterministic_handlers :: "scheme_graph \<Rightarrow> string list" where
  "validate_deterministic_handlers g =
     map node_id (filter (\<lambda>n. node_kind n = DETERMINISTIC \<and> handler_of n = None) (scheme_nodes (definition_of g)))"

fun run_handler ::
  "host \<Rightarrow> settings \<Rightarrow> (string \<Rightarrow> gate_result option) \<Rightarrow> henchmen_task \<Rightarrow> results \<Rightarrow> handler \<Rightarrow> node_result io" where
  "run_handler h st vjson task nrs HCreateBranch = io_return (handle_create_branch task)"
| "run_handler h st vjson task nrs HPrefetchContext = io_return handle_prefetch_context"
| "run_handler h st vjson task nrs HRunLint = handle_run_lint h st vjson task"
| "run_handler h st vjson task nrs HFixLint = handle_fix_lint h st vjson task"
| "run_handler h st vjson task nrs HRunTests = handle_run_tests h st vjson task"
| "run_handler h st vjson task nrs HVerifyChanges = handle_verify_changes h task"
| "run_handler h st vjson task nrs HCreatePr = handle_create_pr h task nrs"
| "run_handler h st vjson task nrs HEscalate = io_return (handle_escalate task)"
| "run_handler h st vjson task nrs HReportPlan = io_return (handle_report_plan nrs)"

definition execute_deterministic ::
  "host \<Rightarrow> settings \<Rightarrow> (string \<Rightarrow> gate_result option) \<Rightarrow> henchmen_task \<Rightarrow> scheme_node \<Rightarrow> results \<Rightarrow> node_result io" where
  "execute_deterministic h st vjson task n nrs =
     (case handler_of n of
        Some f \<Rightarrow> run_handler h st vjson task nrs f
      | None \<Rightarrow> io_return (result_fail (''No handler for deterministic node '' @ node_id n)))"

section \<open>Agentic nodes\<close>

definition estimated_output_tokens_per_call :: int where
  "estimated_output_tokens_per_call = 2000"

definition fix_nodes :: "string list" where
  "fix_nodes = [''fix_lint'', ''fix_tests'']"

definition max_error_context_chars :: nat where
  "max_error_context_chars = 4000"

definition max_interrupted_redispatches :: nat where
  "max_interrupted_redispatches = 1"

definition estimate_node_dispatch_cost :: "settings \<Rightarrow> scheme_node \<Rightarrow> validation_error + rat" where
  "estimate_node_dispatch_cost st n =
     res_bind (get_effective_budget n) (\<lambda>b.
     (let per_in = operative_max_system_tokens st + operative_max_message_tokens st;
          per_out = min (operative_max_output_tokens st) estimated_output_tokens_per_call;
          calls = max 1 (sb_max_steps b);
          model = (if str_truthy (model_name n) then the (model_name n) else tier_value COMPLEX)
      in Inr (estimate_cost_for_settings st model (per_in * calls) (per_out * calls) 0 0)))"

definition estimate_feature_task_cost :: "settings \<Rightarrow> validation_error + rat" where
  "estimate_feature_task_cost st =
     fold (\<lambda>n acc. res_bind acc (\<lambda>a. res_bind (estimate_node_dispatch_cost st n) (\<lambda>c. Inr (a + c))))
       (filter (\<lambda>n. node_kind n = AGENTIC) (scheme_nodes FEATURE_STANDARD)) (Inr 0)"

text \<open>\<open>_estimate_dispatch_cost\<close>: a failing estimate counts as 0.\<close>

definition estimate_dispatch_cost :: "settings \<Rightarrow> scheme_node \<Rightarrow> rat" where
  "estimate_dispatch_cost st n = (case estimate_node_dispatch_cost st n of Inl _ \<Rightarrow> 0 | Inr c \<Rightarrow> c)"

definition get_cumulative_cost :: "settings \<Rightarrow> results \<Rightarrow> rat" where
  "get_cumulative_cost st nrs =
     fold (\<lambda>(_, r) total. case nr_report r of None \<Rightarrow> total
        | Some rep \<Rightarrow> total + estimate_cost_for_settings st (rep_model_name rep) (rep_input_tokens rep) (rep_output_tokens rep) 0 0)
       nrs 0"

text \<open>The error of the failed check goes in front of the task's description.\<close>

definition fix_node_description :: "string \<Rightarrow> string \<Rightarrow> string \<Rightarrow> string" where
  "fix_node_description prior_upper err desc =
     (let nl = [CHR 0x0A] in
      ''--- '' @ prior_upper @ '' OUTPUT (FIX THESE ERRORS) ---'' @ nl @ take max_error_context_chars err @ nl @ nl @
      ''--- ORIGINAL TASK ---'' @ nl @ desc)"

definition enrich_for_fix_node :: "scheme_node \<Rightarrow> henchmen_task \<Rightarrow> results \<Rightarrow> henchmen_task" where
  "enrich_for_fix_node n task nrs =
     (if node_id n \<notin> set fix_nodes then task
      else (let lint = (node_id n = ''fix_lint'');
                prior = dict_get_or nrs (if lint then ''run_lint'' else ''run_tests'') empty_result;
                err = (case nr_output prior of Some out \<Rightarrow> Some out | None \<Rightarrow> nr_message prior)
            in if \<not> str_truthy err then task
               else task\<lparr>description := fix_node_description (if lint then ''RUN_LINT'' else ''RUN_TESTS'') (the err) (description task)\<rparr>))"

definition dispatch_to_lair :: "host \<Rightarrow> scheme_node \<Rightarrow> henchmen_task \<Rightarrow> (string \<times> operative_report) io" where
  "dispatch_to_lair h n task = ask (h_lair h) (DispatchLair (node_id n) (description task))"

text \<open>The \<open>while\<close> loop of interrupted operatives, with the number of re-dispatches left.\<close>

fun redispatch :: "host \<Rightarrow> scheme_node \<Rightarrow> henchmen_task \<Rightarrow> nat \<Rightarrow> string \<times> operative_report \<Rightarrow> (string \<times> operative_report) io" where
  "redispatch h n task 0 r = io_return r"
| "redispatch h n task (Suc k) r =
     (if rep_status (snd r) = INTERRUPTED
      then io_bind (dispatch_to_lair h n task) (redispatch h n task k)
      else io_return r)"

definition report_result :: "string \<times> operative_report \<Rightarrow> node_result" where
  "report_result lr =
     (let rep = snd lr; r = empty_result\<lparr>nr_report := Some rep, nr_lair_id := Some (fst lr)\<rparr> in
      if rep_status rep = COMPLETED then r\<lparr>nr_condition := Some Pass\<rparr>
      else if rep_block_reason rep = Some workflow_push_refused_message
      then r\<lparr>nr_condition := Some Fail, nr_message := Some workflow_push_refused_message,
             nr_escalation_reason := Some workflow_push_refused_message\<rparr>
      else r\<lparr>nr_condition := Some Fail\<rparr>)"

definition lair_failed_result :: "settings \<Rightarrow> scheme_node \<Rightarrow> exn \<Rightarrow> node_result" where
  "lair_failed_result st n e =
     (if fail_open_allowed st \<and> node_id n \<notin> set fix_nodes
      then empty_result\<lparr>nr_condition := Some Pass, nr_dev_mode := True,
             nr_message := Some (''Agentic node '' @ [quote_char] @ node_name n @ [quote_char] @ '' simulated (lair unavailable): '' @ exn_text e)\<rparr>
      else result_fail (''Agentic node '' @ [quote_char] @ node_name n @ [quote_char] @ '' failed (lair unavailable): '' @ exn_text e))"

text \<open>The message of an exceeded budget leaves out the rendered dollar amounts.\<close>

definition execute_agentic ::
  "host \<Rightarrow> settings \<Rightarrow> henchmen_task \<Rightarrow> scheme_node \<Rightarrow> results \<Rightarrow> node_result io" where
  "execute_agentic h st task n nrs =
     (if get_cumulative_cost st nrs + estimate_dispatch_cost st n > operative_task_cost_ceiling_usd st
      then io_return (result_fail ''Cost budget exceeded (raise HENCHMEN_OPERATIVE_TASK_COST_CEILING_USD)'')
      else (let enriched = enrich_for_fix_node n task nrs in
        io_catch
          (io_bind (dispatch_to_lair h n enriched) (\<lambda>first.
           io_bind (redispatch h n enriched max_interrupted_redispatches first) (\<lambda>lr.
           io_return (report_result lr))))
          (\<lambda>e. Some (io_return (lair_failed_result st n e)))))"

section \<open>Nodes of a scheme\<close>

definition execute_node ::
  "host \<Rightarrow> settings \<Rightarrow> (string \<Rightarrow> gate_result option) \<Rightarrow> henchmen_task \<Rightarrow> scheme_node \<Rightarrow> results \<Rightarrow> node_result io" where
  "execute_node h st vjson task n nrs =
     (if node_kind n = DETERMINISTIC then execute_deterministic h st vjson task n nrs
      else execute_agentic h st task n nrs)"

text \<open>
  The executor's environment on a host. No node raises (\<open>execute_node_returns\<close>), so the result of an
  exception is never used.
\<close>

definition node_env :: "host \<Rightarrow> settings \<Rightarrow> (string \<Rightarrow> gate_result option) \<Rightarrow> henchmen_task \<Rightarrow> history exec_env" where
  "node_env h st vjson task =
     \<lparr>run_node = (\<lambda>n nrs t. case execute_node h st vjson task n nrs t of
                    (Inr r, t') \<Rightarrow> (r, t') | (Inl e, t') \<Rightarrow> (result_fail (exn_text e), t')),
      checkpoint = (\<lambda>k nrs rcs t. Checkpoint k # t)\<rparr>"

end
