(* ===== verification/StandardPipeline.thy ===== *)
theory StandardPipeline
  imports Executor
begin

text \<open>
  The executor on the pipeline that \<open>bugfix_standard\<close> and \<open>feature_standard\<close> share: no run reaches
  \<open>create_pr\<close> without a passing verification, a passing lint gate and a passing test gate, for every
  behaviour of the handlers and for resumed runs too. The locale \<open>pipeline_handlers\<close> states what
  the registered handlers return; under it a run ends escalated or with a pull request.
\<close>

section \<open>The gates in front of each node\<close>

definition gate_passed :: "exec_state \<Rightarrow> string \<Rightarrow> bool" where
  "gate_passed s k \<longleftrightarrow> (\<exists>r. dict_get (node_results s) k = Some r \<and> nr_condition r = Some Pass)"

definition verified :: "exec_state \<Rightarrow> bool" where
  "verified s \<longleftrightarrow> gate_passed s ''verify_changes''"

definition lint_green :: "exec_state \<Rightarrow> bool" where
  "lint_green s \<longleftrightarrow> gate_passed s ''run_lint'' \<or> gate_passed s ''run_lint_retry''"

definition tests_green :: "exec_state \<Rightarrow> bool" where
  "tests_green s \<longleftrightarrow> gate_passed s ''run_tests'' \<or> gate_passed s ''run_tests_retry''"

text \<open>What holds when the loop is about to process the node with id \<open>k\<close>.\<close>

definition gates_before :: "string \<Rightarrow> exec_state \<Rightarrow> bool" where
  "gates_before k s \<longleftrightarrow>
     (k \<in> {''run_lint'', ''fix_lint'', ''run_lint_retry'', ''run_tests'', ''fix_tests'', ''run_tests_retry'', ''create_pr''}
        \<longrightarrow> verified s) \<and>
     (k \<in> {''run_tests'', ''fix_tests'', ''run_tests_retry'', ''create_pr''} \<longrightarrow> lint_green s) \<and>
     (k = ''create_pr'' \<longrightarrow> tests_green s)"

text \<open>The successors of a node, over all outcomes.\<close>

lemma condition_cases:
  obtains "c = None" | "c = Some Pass" | "c = Some Fail"
  by (cases c) (auto intro: edge_condition.exhaust)

lemma std_next_nodes:
  assumes "node_id impl \<notin> set pipeline_ids"
  shows "next_nodes (standard_graph sid nm ver impl) ''create_branch'' c =
      (if c = None \<or> c = Some Pass then [det_node ''prefetch_context'' ''Prefetch Context'' 60] else [])"
    "next_nodes (standard_graph sid nm ver impl) ''prefetch_context'' c =
      (if c = None \<or> c = Some Pass then [impl] else [])"
    "next_nodes (standard_graph sid nm ver impl) (node_id impl) c =
      (if c = Some Fail then [det_node ''escalate'' ''Escalate'' 30] else [det_node ''verify_changes'' ''Verify Changes'' 30])"
    "next_nodes (standard_graph sid nm ver impl) ''verify_changes'' c =
      (if c = Some Pass then [det_node ''run_lint'' ''Run Lint'' 60]
       else if c = Some Fail then [det_node ''escalate'' ''Escalate'' 30] else [])"
    "next_nodes (standard_graph sid nm ver impl) ''run_lint'' c =
      (if c = Some Pass then [det_node ''run_tests'' ''Run Tests'' 300]
       else if c = Some Fail then [det_node ''fix_lint'' ''Fix Lint'' 120] else [])"
    "next_nodes (standard_graph sid nm ver impl) ''fix_lint'' c =
      (if c = None \<or> c = Some Pass then [det_node ''run_lint_retry'' ''Run Lint (Retry)'' 60] else [])"
    "next_nodes (standard_graph sid nm ver impl) ''run_lint_retry'' c =
      (if c = Some Pass then [det_node ''run_tests'' ''Run Tests'' 300]
       else if c = Some Fail then [det_node ''escalate'' ''Escalate'' 30] else [])"
    "next_nodes (standard_graph sid nm ver impl) ''run_tests'' c =
      (if c = Some Pass then [det_node ''create_pr'' ''Create PR'' 30]
       else if c = Some Fail then [fix_tests_node] else [])"
    "next_nodes (standard_graph sid nm ver impl) ''fix_tests'' c =
      (if c = None \<or> c = Some Pass then [det_node ''run_tests_retry'' ''Run Tests (Retry)'' 300] else [])"
    "next_nodes (standard_graph sid nm ver impl) ''run_tests_retry'' c =
      (if c = Some Pass then [det_node ''create_pr'' ''Create PR'' 30]
       else if c = Some Fail then [det_node ''escalate'' ''Escalate'' 30] else [])"
    "next_nodes (standard_graph sid nm ver impl) ''create_pr'' c = []"
    "next_nodes (standard_graph sid nm ver impl) ''escalate'' c = []"
  unfolding next_nodes_def Let_def std_next [OF assms]
  by (cases c rule: condition_cases; simp)+

lemma pipeline_node_cases:
  assumes "n \<in> set (pipeline_nodes impl)"
  obtains "n = impl" | "node_id n = ''create_branch''" | "node_id n = ''prefetch_context''"
  | "node_id n = ''verify_changes''" | "node_id n = ''run_lint''" | "node_id n = ''fix_lint''"
  | "node_id n = ''run_lint_retry''" | "node_id n = ''run_tests''" | "node_id n = ''fix_tests''"
  | "node_id n = ''run_tests_retry''" | "node_id n = ''create_pr''" | "node_id n = ''escalate''"
  using assms by (auto simp: pipeline_nodes_def)

text \<open>One iteration carries the gates along: the write of a node's result keeps the earlier ones.\<close>

lemma gates_before_step:
  assumes impl: "node_id impl \<notin> set pipeline_ids"
    and step: "exec_step env (standard_graph sid nm ver impl) n s w = (Some n', s', w')"
    and n: "n \<in> set (pipeline_nodes impl)" and gates: "gates_before (node_id n) s"
  shows "gates_before (node_id n') s'"
proof -
  from step obtain r ns where r: "dict_get (node_results s') (node_id n) = Some r"
    and nx: "next_nodes (standard_graph sid nm ver impl) (node_id n) (nr_condition r) = n' # ns"
    and other: "\<And>k. k \<noteq> node_id n \<Longrightarrow> dict_get (node_results s') k = dict_get (node_results s) k"
    by (rule exec_step_goes_on) (rule that)
  have keep: "gate_passed s' k \<longleftrightarrow> gate_passed s k" if "k \<noteq> node_id n" for k
    using other [OF that] by (simp add: gate_passed_def)
  have new: "gate_passed s' (node_id n) \<longleftrightarrow> nr_condition r = Some Pass"
    using r by (simp add: gate_passed_def)
  note simps = gates_before_def verified_def lint_green_def tests_green_def
    std_next_nodes [OF impl] pipeline_neq [OF impl] pipeline_ids_members
  show ?thesis
  proof (cases "n' = impl")
    case True
    then show ?thesis by (simp add: gates_before_def pipeline_neq [OF impl] pipeline_ids_members)
  next
    case False
    from n show ?thesis
      by (cases rule: pipeline_node_cases; use gates keep new nx False in \<open>auto simp: simps split: if_splits\<close>)
  qed
qed

lemma visits_pipeline:
  assumes impl: "node_id impl \<notin> set pipeline_ids"
    and v: "visits env (standard_graph sid nm ver impl) (det_node ''create_branch'' ''Create Branch'' 30) s0 w0 n s w"
  shows "n \<in> set (pipeline_nodes impl) \<and> gates_before (node_id n) s \<and>
    (''create_pr'' \<notin> freshly_executed s0 \<longrightarrow> ''create_pr'' \<notin> freshly_executed s)"
  using v
proof (induction rule: visits.induct)
  case visits_start
  then show ?case by (simp add: pipeline_nodes_def gates_before_def)
next
  case (visits_step n s w n' s' w')
  have "n' \<in> set (pipeline_nodes impl)"
    using exec_step_next_in_graph [OF visits_step(2)] by simp
  moreover have "gates_before (node_id n') s'"
    using gates_before_step [OF impl visits_step(2)] visits_step(3) by blast
  moreover have "node_id n \<noteq> ''create_pr''"
    using visits_step(2) by (rule exec_step_goes_on) (auto simp: std_next_nodes [OF impl])
  then have "''create_pr'' \<notin> freshly_executed s0 \<longrightarrow> ''create_pr'' \<notin> freshly_executed s'"
    using visits_step by (auto elim: exec_step_goes_on)
  ultimately show ?case by blast
qed

text \<open>The first safety property: \<open>create_pr\<close> runs only behind three passing gates.\<close>

lemma pr_behind_gates:
  assumes impl: "node_id impl \<notin> set pipeline_ids" and start: "''create_pr'' \<notin> freshly_executed s0"
    and fin: "exec_finished env (standard_graph sid nm ver impl) (det_node ''create_branch'' ''Create Branch'' 30) s0 w0 s' w'"
    and pr: "''create_pr'' \<in> freshly_executed s'"
  shows "verified s' \<and> lint_green s' \<and> tests_green s'"
proof -
  from fin obtain n s w where
    vis: "visits env (standard_graph sid nm ver impl) (det_node ''create_branch'' ''Create Branch'' 30) s0 w0 n s w"
    and stop: "exec_step env (standard_graph sid nm ver impl) n s w = (None, s', w')"
    by (rule exec_finishedE)
  note v = visits_pipeline [OF impl vis]
  have "freshly_executed s' \<subseteq> insert (node_id n) (freshly_executed s)"
    using stop by (rule exec_step_fresh)
  with v start pr have n: "node_id n = ''create_pr''" by auto
  have "gate_passed s' k \<longleftrightarrow> gate_passed s k" if "k \<noteq> ''create_pr''" for k
    using exec_step_other_results [OF stop, of k] that n by (simp add: gate_passed_def)
  with v n show ?thesis by (simp add: gates_before_def verified_def lint_green_def tests_green_def)
qed

section \<open>What the registered handlers return\<close>

text \<open>A result that neither escalates by itself nor names a pull request.\<close>

definition inert :: "node_result \<Rightarrow> bool" where
  "inert r \<longleftrightarrow> \<not> nr_escalated r \<and> \<not> str_truthy (nr_pr_url r)"

lemma inert_max_retries [simp]: "inert (max_retries_result k)"
  by (simp add: inert_def max_retries_result_def empty_result_def)

text \<open>A fresh run replays nothing, and until it ends no stored result escalates or names a pull request.\<close>

definition quiet :: "exec_state \<Rightarrow> bool" where
  "quiet s \<longleftrightarrow> fst ` set (node_results s) \<subseteq> freshly_executed s \<and> (\<forall>x\<in>set (node_results s). inert (snd x))"

lemma quiet_no_replay: "quiet s \<Longrightarrow> \<not> is_replay s k"
  by (auto simp: quiet_def is_replay_def dest!: map_of_SomeD)

lemma set_dict_set: "x \<in> set (dict_set d k v) \<Longrightarrow> x = (k, v) \<or> x \<in> set d"
  by (induction d) (auto split: if_splits)

locale pipeline_handlers =
  fixes env :: "'w exec_env"
    and impl :: scheme_node
  assumes impl_id: "node_id impl \<notin> set pipeline_ids"
    and setup_result: "node_id n \<in> {''create_branch'', ''prefetch_context''} \<Longrightarrow> n \<in> set (pipeline_nodes impl) \<Longrightarrow>
      run_node env n nrs w = (r, w') \<Longrightarrow> inert r \<and> nr_condition r = None"
    and gate_result: "node_id n \<in> {''verify_changes'', ''run_lint'', ''run_lint_retry'', ''run_tests'', ''run_tests_retry''} \<Longrightarrow>
      n \<in> set (pipeline_nodes impl) \<Longrightarrow> run_node env n nrs w = (r, w') \<Longrightarrow> inert r \<and> nr_condition r \<noteq> None"
    and fix_lint_result: "node_id n = ''fix_lint'' \<Longrightarrow> n \<in> set (pipeline_nodes impl) \<Longrightarrow>
      run_node env n nrs w = (r, w') \<Longrightarrow> inert r"
    and agentic_result: "n = impl \<or> n = fix_tests_node \<Longrightarrow>
      run_node env n nrs w = (r, w') \<Longrightarrow> inert r \<and> nr_condition r \<noteq> None"
    and create_pr_result: "node_id n = ''create_pr'' \<Longrightarrow> n \<in> set (pipeline_nodes impl) \<Longrightarrow>
      run_node env n nrs w = (r, w') \<Longrightarrow>
      \<not> nr_escalated r \<and> (nr_condition r = Some Pass \<and> str_truthy (nr_pr_url r) \<or>
                          nr_condition r = Some Fail \<and> \<not> str_truthy (nr_pr_url r))"
    and escalate_result: "node_id n = ''escalate'' \<Longrightarrow> n \<in> set (pipeline_nodes impl) \<Longrightarrow>
      run_node env n nrs w = (r, w') \<Longrightarrow> nr_escalated r \<and> \<not> str_truthy (nr_pr_url r)"
begin

lemma ids: "node_id impl \<noteq> i" "i \<noteq> node_id impl" if "i \<in> set pipeline_ids"
  using pipeline_ids_neq [OF impl_id that] by blast+

lemma perform_inert:
  assumes "perform env n s w = (r, s1, w')" "n \<in> set (pipeline_nodes impl)"
    "node_id n \<noteq> ''create_pr''" "node_id n \<noteq> ''escalate''"
  shows "inert r"
proof -
  obtain w1 where run: "run_node env n (node_results s) w = (fst (run_node env n (node_results s) w), w1)"
    by (metis prod.collapse)
  have "inert (fst (run_node env n (node_results s) w))"
    using assms(2)
    by (cases rule: pipeline_node_cases)
       (use assms(2-) setup_result [OF _ _ run] gate_result [OF _ _ run] fix_lint_result [OF _ _ run]
          agentic_result [OF _ run] in \<open>auto simp: pipeline_nodes_def\<close>)
  with perform_result [OF assms(1)] show ?thesis by auto
qed

lemma visits_quiet:
  assumes "visits env (standard_graph sid nm ver impl) (det_node ''create_branch'' ''Create Branch'' 30) init_state w0 n s w"
  shows "n \<in> set (pipeline_nodes impl) \<and> quiet s"
  using assms
proof (induction rule: visits.induct)
  case visits_start
  then show ?case by (simp add: pipeline_nodes_def quiet_def init_state_def)
next
  case (visits_step n s w n' s' w')
  have "n' \<in> set (pipeline_nodes impl)" using exec_step_next_in_graph [OF visits_step(2)] by simp
  moreover from visits_step(2) have "quiet s'"
  proof (cases rule: exec_step_Some_cases)
    case replay
    with visits_step show ?thesis by (simp add: quiet_no_replay)
  next
    case (run r)
    then have "node_id n \<noteq> ''create_pr''" "node_id n \<noteq> ''escalate''"
      by (auto simp: std_next_nodes [OF impl_id])
    with visits_step have "inert r" by (intro perform_inert [OF run(3)]) auto
    with visits_step.IH show ?thesis
      by (auto simp: quiet_def perform_fields [OF run(3)] dest!: set_dict_set)
  qed
  ultimately show ?case by blast
qed

text \<open>Every fresh run ends escalated, or with the pull request of a passing \<open>create_pr\<close>.\<close>

lemma stop_outcome:
  assumes n: "n \<in> set (pipeline_nodes impl)" and q: "quiet s"
    and stop: "exec_step env (standard_graph sid nm ver impl) n s w = (None, s', w')"
  shows "final_status_of (build_execution_report s') = Escalated \<or>
    final_status_of (build_execution_report s') = PrCreated \<and> ''create_pr'' \<in> freshly_executed s'"
  using stop
proof (cases rule: exec_step_stops)
  case replay
  with q show ?thesis by (simp add: quiet_no_replay)
next
  case cycle
  have "final_status_of (build_execution_report s') = Escalated"
    by (rule report_escalated [of _ "node_id n"]) (auto simp: cycle cycle_result_def)
  then show ?thesis ..
next
  case (run r s1)
  note f = perform_fields [OF run(2)]
  show ?thesis
  proof (cases "s' = flag_escalated (node_id n) s1")
    case True
    then show ?thesis by simp
  next
    case False
    with run(3) have s': "s' = s1" and dead: "next_nodes (standard_graph sid nm ver impl) (node_id n) (nr_condition r) = []"
      and nofail: "nr_condition r \<noteq> Some Fail"
      by (auto simp: route_None split: if_splits)
    have r: "r = fst (run_node env n (node_results s) w)"
      using perform_result [OF run(2)] nofail by (auto simp: max_retries_result_def)
    then obtain w1 where ret: "run_node env n (node_results s) w = (r, w1)" by (metis prod.collapse)
    have c: "nr_condition r = None \<or> nr_condition r = Some Pass"
      using nofail by (cases "nr_condition r" rule: condition_cases) auto
    have g: "nr_condition r = Some Pass"
      if "node_id n \<in> {''verify_changes'', ''run_lint'', ''run_lint_retry'', ''run_tests'', ''run_tests_retry''}"
      using gate_result [OF that n ret] c by auto
    from n have "node_id n = ''create_pr'' \<or> node_id n = ''escalate''"
      by (cases rule: pipeline_node_cases)
         (use dead c g in \<open>simp_all add: std_next_nodes [OF impl_id] split: if_splits\<close>)
    then show ?thesis
    proof
      assume esc: "node_id n = ''escalate''"
      have "final_status_of (build_execution_report s') = Escalated"
        by (rule report_escalated [of _ "node_id n" r]) (use escalate_result [OF esc n ret] in \<open>auto simp: s' f\<close>)
      then show ?thesis ..
    next
      assume pr: "node_id n = ''create_pr''"
      from create_pr_result [OF pr n ret] nofail have ok: "\<not> nr_escalated r" "str_truthy (nr_pr_url r)" by auto
      have "(node_id n, r) \<in> set (node_results s')"
        by (rule map_of_SomeD) (simp add: s' f)
      with ok have "str_truthy (report_pr_url (node_results s'))"
        using report_pr_url_truthy by force
      moreover have "\<not> nr_escalated (snd x)" if "x \<in> set (node_results s')" for x
        using that ok q by (auto simp: s' f quiet_def inert_def dest!: set_dict_set)
      ultimately show ?thesis using pr by (auto simp: build_execution_report_def Let_def s' f)
    qed
  qed
qed

lemma outcome:
  assumes "exec_finished env (standard_graph sid nm ver impl) (det_node ''create_branch'' ''Create Branch'' 30) init_state w0 s' w'"
  shows "final_status_of (build_execution_report s') = Escalated \<or>
    final_status_of (build_execution_report s') = PrCreated \<and> verified s' \<and> lint_green s' \<and> tests_green s'"
proof -
  from assms obtain n s w where
    v: "visits env (standard_graph sid nm ver impl) (det_node ''create_branch'' ''Create Branch'' 30) init_state w0 n s w"
    and stop: "exec_step env (standard_graph sid nm ver impl) n s w = (None, s', w')"
    by (rule exec_finishedE)
  from visits_quiet [OF v] stop_outcome [OF _ _ stop] pr_behind_gates [OF impl_id _ assms]
  show ?thesis by (auto simp: init_state_def)
qed

end

section \<open>Passing results have evidence\<close>

text \<open>
  When a passing result of a node is evidence that something happened outside, every pass stored in
  a fresh run has that evidence, and so has every gate in front of a pull request.
\<close>

locale gated_pipeline = pipeline_handlers env impl
  for env :: "'w exec_env" and impl :: scheme_node +
  fixes evidence :: "string \<Rightarrow> bool"
  assumes pass_evidence: "n \<in> set (pipeline_nodes impl) \<Longrightarrow> run_node env n nrs w = (r, w') \<Longrightarrow>
      nr_condition r = Some Pass \<Longrightarrow> evidence (node_id n)"
begin

lemma perform_evidence:
  assumes "perform env n s w = (r, s', w')" "n \<in> set (pipeline_nodes impl)" "nr_condition r = Some Pass"
  shows "evidence (node_id n)"
proof -
  have "r \<noteq> max_retries_result (node_id n)" using assms(3) by (auto simp: max_retries_result_def)
  with perform_result [OF assms(1)] have "fst (run_node env n (node_results s) w) = r" by simp
  then obtain w1 where "run_node env n (node_results s) w = (r, w1)" by (metis prod.collapse)
  from pass_evidence [OF assms(2) this assms(3)] show ?thesis .
qed

lemma visits_evidence:
  assumes "visits env (standard_graph sid nm ver impl) (det_node ''create_branch'' ''Create Branch'' 30) init_state w0 n s w"
  shows "gate_passed s k \<Longrightarrow> evidence k"
  using assms
proof (induction arbitrary: k rule: visits.induct)
  case visits_start
  then show ?case by (simp add: gate_passed_def init_state_def)
next
  case (visits_step n s w n' s' w')
  note q = visits_quiet [OF visits_step(1)]
  from visits_step(2) show ?case
  proof (cases rule: exec_step_Some_cases)
    case replay
    with q show ?thesis by (simp add: quiet_no_replay)
  next
    case (run r)
    from visits_step perform_evidence [OF run(3)] q show ?thesis
      by (auto simp: gate_passed_def perform_fields [OF run(3)] split: if_splits)
  qed
qed

lemma flag_escalated_passed: "gate_passed (flag_escalated k s) k' \<Longrightarrow> dict_get (node_results s) k \<noteq> None \<Longrightarrow> gate_passed s k'"
  by (auto simp: gate_passed_def flag_escalated_def Let_def dict_get_or_def split: if_splits)

lemma finished_evidence:
  assumes "exec_finished env (standard_graph sid nm ver impl) (det_node ''create_branch'' ''Create Branch'' 30) init_state w0 s' w'"
    and "gate_passed s' k"
  shows "evidence k"
proof -
  from assms(1) obtain n s w where
    v: "visits env (standard_graph sid nm ver impl) (det_node ''create_branch'' ''Create Branch'' 30) init_state w0 n s w"
    and stop: "exec_step env (standard_graph sid nm ver impl) n s w = (None, s', w')"
    by (rule exec_finishedE)
  note old = visits_evidence [OF v] and q = visits_quiet [OF v]
  from stop show ?thesis
  proof (cases rule: exec_step_stops)
    case replay
    with q show ?thesis by (simp add: quiet_no_replay)
  next
    case cycle
    with assms(2) have "gate_passed s k"
      by (auto simp: gate_passed_def cycle_result_def empty_result_def split: if_splits)
    with old show ?thesis by blast
  next
    case (run r s1)
    have "gate_passed s1 k"
      using run(3) assms(2) flag_escalated_passed [of "node_id n" s1 k]
      by (auto simp: route_None perform_fields [OF run(2)] split: if_splits)
    with old perform_evidence [OF run(2)] q show ?thesis
      by (auto simp: gate_passed_def perform_fields [OF run(2)] split: if_splits)
  qed
qed

lemma evident_outcome:
  assumes "exec_finished env (standard_graph sid nm ver impl) (det_node ''create_branch'' ''Create Branch'' 30) init_state w0 s' w'"
  shows "final_status_of (build_execution_report s') = Escalated \<or>
    final_status_of (build_execution_report s') = PrCreated \<and> evidence ''verify_changes'' \<and>
      (evidence ''run_lint'' \<or> evidence ''run_lint_retry'') \<and> (evidence ''run_tests'' \<or> evidence ''run_tests_retry'')"
  using outcome [OF assms] finished_evidence [OF assms]
  by (auto simp: verified_def lint_green_def tests_green_def)

end

end
