(* ===== verification/HandlerResults.thy ===== *)
theory HandlerResults
  imports Handlers StandardPipeline
begin

text \<open>
  What the handlers return, on every host: no handler raises, every gate returns pass or fail and
  passes only for a reason, and \<open>create_pr\<close> passes only with a pull request. These are the laws of
  \<open>pipeline_handlers\<close>, which is interpreted here for both standard schemes.
\<close>

section \<open>Results on every run\<close>

definition mostly :: "'a io \<Rightarrow> ('a \<Rightarrow> bool) \<Rightarrow> bool" where
  "mostly m Q \<longleftrightarrow> (\<forall>t. wp m (\<lambda>r _. Q r) (\<lambda>_ _. True) t)"

definition always :: "'a io \<Rightarrow> ('a \<Rightarrow> bool) \<Rightarrow> bool" where
  "always m Q \<longleftrightarrow> (\<forall>t. wp m (\<lambda>r _. Q r) (\<lambda>_ _. False) t)"

named_theorems result_rules \<open>introduction rules for \<open>mostly\<close> and \<open>always\<close>\<close>

lemma mostly_return [result_rules]: "Q a \<Longrightarrow> mostly (io_return a) Q"
  by (simp add: mostly_def wp_simps)

lemma mostly_raise [result_rules]: "mostly (io_raise e) Q"
  by (simp add: mostly_def wp_simps)

lemma mostly_bind [result_rules]: "(\<And>a. mostly (f a) Q) \<Longrightarrow> mostly (io_bind m f) Q"
  by (auto simp: mostly_def wp_simps wp_def split: prod.splits sum.splits)

lemma mostly_finally [result_rules]: "mostly m Q \<Longrightarrow> mostly (io_finally m fin) Q"
  by (fastforce simp: mostly_def wp_simps wp_def split: prod.splits sum.splits)

lemma mostly_catch [result_rules]:
  "mostly m Q \<Longrightarrow> (\<And>e k. handler e = Some k \<Longrightarrow> mostly k Q) \<Longrightarrow> mostly (io_catch m handler) Q"
  by (fastforce simp: mostly_def wp_simps wp_def split: prod.splits sum.splits option.splits)

lemma always_mostly: "always m Q \<Longrightarrow> mostly m Q"
  by (auto simp: always_def mostly_def elim: wp_mono)

lemma always_return [result_rules]: "Q a \<Longrightarrow> always (io_return a) Q"
  by (simp add: always_def wp_simps)

lemma always_or_fail [result_rules]:
  "mostly m Q \<Longrightarrow> (\<And>s. Q (result_fail s)) \<Longrightarrow> always (or_fail msg m) Q"
  by (fastforce simp: always_def mostly_def or_fail_def wp_simps wp_def split: prod.splits sum.splits)

lemma always_finally [result_rules]: "always m Q \<Longrightarrow> always (io_finally m (emit e)) Q"
  by (auto simp: always_def wp_simps elim: wp_mono)

lemma always_with_token [result_rules]:
  "(\<And>s. Q (result_fail s)) \<Longrightarrow> (\<And>tok. always (k tok) Q) \<Longrightarrow> always (with_token h repo msg k) Q"
  by (auto simp: always_def with_token_def wp_simps split: sum.splits)

lemma alwaysE:
  assumes "always m Q"
  obtains r t' where "m t = (Inr r, t')" "Q r"
  using assms by (cases "m t"; cases "fst (m t)") (auto simp: always_def wp_def dest!: spec [of _ t])

lemma always_run:
  assumes "always (execute_node h st vj task n nrs) Q" "run_node (node_env h st vj task) n nrs t = (r, t')"
  shows "Q r"
  using assms(1) by (rule alwaysE [of _ _ t]) (use assms(2) in \<open>simp add: node_env_def\<close>)

lemma always_catch:
  "mostly m Q \<Longrightarrow> (\<And>e. \<exists>k. handler e = Some k \<and> always k Q) \<Longrightarrow> always (io_catch m handler) Q"
  by (fastforce simp: mostly_def always_def wp_simps elim!: wp_mono split: option.splits)

section \<open>The handlers\<close>

definition decided :: "node_result \<Rightarrow> bool" where
  "decided r \<longleftrightarrow> inert r \<and> nr_condition r \<noteq> None"

lemma inert_results [simp]:
  "inert (result_fail s)" "inert (result_note s)" "inert (gate_node_result g)" "inert refused_result"
  "inert (container_fix_result g)" "inert ((result_note s)\<lparr>nr_output := out\<rparr>)"
  "inert (empty_result\<lparr>nr_condition := c, nr_message := m, nr_output := out\<rparr>)"
  "inert (empty_result\<lparr>nr_condition := c, nr_message := m\<rparr>)"
  by (simp_all add: inert_def result_fail_def result_note_def gate_node_result_def refused_result_def
      container_fix_result_def empty_result_def)

lemma decided_results [simp]:
  "decided (result_fail s)" "decided (gate_node_result g)"
  "decided (empty_result\<lparr>nr_condition := Some c, nr_message := m, nr_output := out\<rparr>)"
  "decided (empty_result\<lparr>nr_condition := Some c, nr_message := m\<rparr>)"
  by (simp_all add: decided_def) (simp_all add: result_fail_def gate_node_result_def)

lemma run_ci_check_decided: "always (run_ci_check h st vj task check) decided"
  unfolding run_ci_check_def Let_def
  by (auto intro!: result_rules split: sum.splits prod.splits)

lemma host_git_steps_inert: "mostly (host_git_steps h ws token steps) (\<lambda>r. case r of Some x \<Rightarrow> inert x | None \<Rightarrow> True)"
  by (induction steps) (auto intro!: result_rules split: prod.splits)

lemma mostly_bind_dep: "mostly m P \<Longrightarrow> (\<And>a. P a \<Longrightarrow> mostly (f a) Q) \<Longrightarrow> mostly (io_bind m f) Q"
  by (fastforce simp: mostly_def wp_simps elim!: wp_mono)

lemma host_commit_fixes_inert: "mostly (host_commit_fixes h st branch token ws scope out) inert"
proof -
  have revert: "mostly (if c then io_return None
      else io_bind m (\<lambda>(rc, _, err). io_return (if rc \<noteq> 0 then Some (result_fail (f err)) else None)))
     (\<lambda>r. case r of Some x \<Rightarrow> inert x | None \<Rightarrow> True)" for c f and m :: "(int \<times> string \<times> string) io"
    by (auto intro!: result_rules split: prod.splits)
  show ?thesis
    unfolding host_commit_fixes_def Let_def
    by (auto intro!: result_rules mostly_bind_dep [OF revert] mostly_bind_dep [OF host_git_steps_inert]
        split: prod.splits option.splits)
qed

lemma clone_or_fail_results:
  "mostly (clone_or_fail h label repo branch ws token) (\<lambda>r. case r of Some x \<Rightarrow> inert x \<and> decided x | None \<Rightarrow> True)"
  unfolding clone_or_fail_def by (auto intro!: result_rules split: exn.splits)

lemma scope_or_fail_results:
  "mostly (scope_or_fail h ws base token) (\<lambda>r. case r of Inl x \<Rightarrow> inert x | Inr _ \<Rightarrow> True)"
  unfolding scope_or_fail_def by (auto intro!: result_rules split: exn.splits)

lemma fix_changed_files_inert: "mostly (fix_changed_files h st branch token ws base stk) inert"
  unfolding fix_changed_files_def
  by (rule mostly_bind_dep [OF scope_or_fail_results])
    (auto intro!: result_rules host_commit_fixes_inert split: sum.splits)

lemma fix_lint_on_host_inert: "mostly (fix_lint_on_host h st task repo branch token ws) inert"
  unfolding fix_lint_on_host_def Let_def
  by (rule mostly_bind_dep [OF clone_or_fail_results])
    (auto intro!: result_rules fix_changed_files_inert split: option.splits)

lemma handle_fix_lint_inert: "always (handle_fix_lint h st vj task) inert"
  unfolding handle_fix_lint_def fix_lint_in_container_def Let_def
  by (auto intro!: result_rules fix_lint_on_host_inert split: sum.splits)

lemma verify_on_host_decided: "mostly (verify_on_host h repo branch base token ws) decided"
  unfolding verify_on_host_def
  by (rule mostly_bind_dep [OF clone_or_fail_results])
    (auto intro!: result_rules split: option.splits prod.splits)

lemma handle_verify_changes_decided: "always (handle_verify_changes h task) decided"
  unfolding handle_verify_changes_def Let_def by (auto intro!: result_rules verify_on_host_decided)

definition pr_outcome :: "node_result \<Rightarrow> bool" where
  "pr_outcome r \<longleftrightarrow> \<not> nr_escalated r \<and>
     (nr_condition r = Some Pass \<and> str_truthy (nr_pr_url r) \<or> nr_condition r = Some Fail \<and> \<not> str_truthy (nr_pr_url r))"

lemma pr_outcome_results [simp]: "pr_outcome (result_fail s)" "pr_outcome (pr_result p s)"
  by (simp_all add: pr_outcome_def result_fail_def pr_result_def pull_url_def empty_result_def)

lemma handle_create_pr_outcome: "always (handle_create_pr h task nrs) pr_outcome"
  unfolding handle_create_pr_def open_or_find_pr_def Let_def
  by (auto intro!: result_rules split: list.splits)

lemma report_result_decided [simp]: "decided (report_result lr)"
  by (simp add: report_result_def Let_def decided_def inert_def empty_result_def)

lemma lair_failed_decided [simp]: "decided (lair_failed_result st n e)"
  by (simp add: lair_failed_result_def decided_def inert_def result_fail_def empty_result_def)

lemma execute_agentic_decided: "always (execute_agentic h st task n nrs) decided"
  unfolding execute_agentic_def Let_def by (auto intro!: result_rules always_catch)

section \<open>Every node returns\<close>

lemma always_weaken: "always m Q \<Longrightarrow> always m (\<lambda>_. True)"
  by (auto simp: always_def elim: wp_mono)

lemma run_handler_returns: "always (run_handler h st vj task nrs f) (\<lambda>_. True)"
  by (cases f)
    (auto simp: handle_run_lint_def handle_run_tests_def
      intro: always_return always_weaken [OF run_ci_check_decided] always_weaken [OF handle_fix_lint_inert]
        always_weaken [OF handle_verify_changes_decided] always_weaken [OF handle_create_pr_outcome])

lemma execute_node_returns: "always (execute_node h st vj task n nrs) (\<lambda>_. True)"
  unfolding execute_node_def execute_deterministic_def
  using run_handler_returns always_weaken [OF execute_agentic_decided]
  by (auto intro: always_return split: option.split)

section \<open>Why a check passes\<close>

text \<open>A container gate passes only when the container exited 0 and its result line says pass.\<close>

definition container_passed ::
  "host \<Rightarrow> settings \<Rightarrow> (string \<Rightarrow> gate_result option) \<Rightarrow> gate_command \<Rightarrow> string \<Rightarrow> string \<Rightarrow> string \<Rightarrow> string \<Rightarrow> string list \<Rightarrow> bool" where
  "container_passed h st vj cmd repo branch base token extra \<longleftrightarrow>
     (\<exists>name t out err g. h_exec h (Exec (gate_call h st name cmd repo branch base token extra) # t) = Inr (0, out, err) \<and>
        parse_gate_result vj (drain_stream gate_output_tail_bytes
          (h_chunks h (Exec (gate_call h st name cmd repo branch base token extra) # t) out)) = Some g \<and>
        gr_condition g = Pass)"

lemma run_gate_in_container_pass:
  "wp (run_gate_in_container h st vj cmd repo branch base token extra)
     (\<lambda>r _. gr_condition r = Pass \<longrightarrow> container_passed h st vj cmd repo branch base token extra) (\<lambda>_ _. True) t"
proof -
  have kill: "wp (kill_container h name) (\<lambda>_ _. True) (\<lambda>_ _. True) t" for name t
    by (simp add: wp_def split: prod.split sum.split)
  show ?thesis
    unfolding run_gate_in_container_def Let_def wp_simps
    by (auto simp: wp_simps gate_outcome_def Let_def container_passed_def split: sum.splits option.splits if_splits
        intro!: wp_mono [OF kill])
qed

text \<open>The evidence of a check that runs on the host: the clone, then every command, exited 0.\<close>

definition all_exited_zero :: "host \<Rightarrow> string \<Rightarrow> check_command list \<Rightarrow> bool" where
  "all_exited_zero h ws cs \<longleftrightarrow>
     (\<forall>c\<in>set cs. \<exists>t. exited_zero h (Exec (self_call (argv c) (ws @ ''/'' @ cwd c)) # t))"

definition cloned_once :: "host \<Rightarrow> string \<Rightarrow> string \<Rightarrow> string \<Rightarrow> bool" where
  "cloned_once h repo branch ws \<longleftrightarrow> (\<exists>token t. exited_zero h (Exec (clone_call repo branch ws token) # t))"

definition runs_tests :: "gate_command \<Rightarrow> gate_plan \<Rightarrow> bool" where
  "runs_tests check p \<longleftrightarrow> (check = CmdTests \<longrightarrow> gp_commands p = [\<lparr>argv = test_command (gp_stack p), cwd = ''.''\<rparr>])"

definition nothing_needed :: "host \<Rightarrow> gate_command \<Rightarrow> bool" where
  "nothing_needed h check \<longleftrightarrow> (\<exists>stk t. nothing_to_run h check stk t)"

definition commands_passed :: "host \<Rightarrow> string \<Rightarrow> gate_command \<Rightarrow> bool" where
  "commands_passed h ws check \<longleftrightarrow> (\<exists>p. runs_tests check p \<and> all_exited_zero h ws (gp_commands p))"

text \<open>The evidence behind a passing check of a task, in either mode.\<close>

definition check_evidence ::
  "host \<Rightarrow> settings \<Rightarrow> (string \<Rightarrow> gate_result option) \<Rightarrow> henchmen_task \<Rightarrow> gate_command \<Rightarrow> bool" where
  "check_evidence h st vj task check \<longleftrightarrow>
     (let repo = ctx_repo (task_ctx task); branch = branch_name (task_id task) in
      if orchestrator_is_local st then \<exists>token. container_passed h st vj check repo branch (base_branch_of task) token []
      else cloned_once h repo branch (ci_workspace check) \<and>
           (nothing_needed h check \<or> commands_passed h (ci_workspace check) check))"

lemma run_commands_zero:
  "wp (run_commands h ws cs) (\<lambda>(rc, _) _. rc = 0 \<longrightarrow> all_exited_zero h ws cs) (\<lambda>_ _. True) t"
proof (induction cs arbitrary: t)
  case Nil
  then show ?case by (simp add: wp_simps all_exited_zero_def)
next
  case (Cons c cs)
  have "all_exited_zero h ws (c # cs)"
    if "h_exec h (Exec (self_call (argv c) (ws @ ''/'' @ cwd c)) # t) = Inr (0, out, err)" "all_exited_zero h ws cs" for t out err
    using that unfolding all_exited_zero_def exited_zero_def by auto
  then show ?case
    unfolding run_commands.simps wp_simps
    by (auto simp: wp_simps split: sum.splits intro!: wp_mono [OF Cons.IH])
qed

lemma run_on_host_zero:
  "wp (run_on_host h ws st cs) (\<lambda>(rc, _) _. rc = 0 \<longrightarrow> all_exited_zero h ws cs) (\<lambda>_ _. True) t"
  unfolding run_on_host_def wp_simps
  by (auto simp: wp_simps split: option.splits sum.splits intro!: wp_mono [OF run_commands_zero])

lemma plan_gate_evidence:
  "wp (plan_gate h check repo branch base token ws None)
     (\<lambda>p t'. case p of Inl r \<Rightarrow> gr_condition r = Pass \<longrightarrow> cloned_once h repo branch ws \<and> nothing_needed h check
        | Inr q \<Rightarrow> cloned_once h repo branch ws \<and> runs_tests check q) (\<lambda>_ _. True) t"
proof -
  have scope: "wp (scope_gate h check base token ws st)
      (\<lambda>p t'. case p of Inl r \<Rightarrow> gr_condition r = Pass \<longrightarrow> nothing_needed h check | Inr q \<Rightarrow> runs_tests check q) (\<lambda>_ _. True) t" for st t
  proof (cases "check = CmdTests")
    case True
    then show ?thesis by (simp add: scope_gate_def wp_simps runs_tests_def)
  next
    case False
    show ?thesis
      by (rule wp_mono [OF scope_gate_wp]) (auto simp: False runs_tests_def nothing_needed_def split: sum.splits)
  qed
  have once: "exited_zero h (Exec (clone_call repo branch ws token) # t) \<Longrightarrow> cloned_once h repo branch ws"
    by (auto simp: cloned_once_def)
  show ?thesis
    unfolding plan_gate_def wp_simps option.case
    by (rule wp_mono [OF clone_and_detect_wp])
      (auto simp: wp_simps once split: sum.splits intro!: wp_mono [OF scope])
qed

lemma wp_or_fail_pass:
  assumes "wp m (\<lambda>r _. nr_condition r = Some Pass \<longrightarrow> P) (\<lambda>_ _. True) t"
  shows "wp (or_fail msg m) (\<lambda>r _. nr_condition r = Some Pass \<longrightarrow> P) (\<lambda>_ _. True) t"
  using assms by (auto simp: or_fail_def wp_simps result_fail_def elim!: wp_mono)

lemma run_ci_check_pass:
  "wp (run_ci_check h st vj task check)
     (\<lambda>r _. nr_condition r = Some Pass \<longrightarrow> check_evidence h st vj task check) (\<lambda>_ _. True) t"
proof -
  let ?repo = "ctx_repo (task_ctx task)" and ?branch = "branch_name (task_id task)" and ?base = "base_branch_of task"
  have container: "wp (io_bind (run_gate_in_container h st vj check ?repo ?branch ?base token []) (\<lambda>r. io_return (gate_node_result r)))
      (\<lambda>r _. nr_condition r = Some Pass \<longrightarrow> check_evidence h st vj task check) (\<lambda>_ _. True) t"
    if "orchestrator_is_local st" for token t
    unfolding wp_simps
    by (rule wp_mono [OF run_gate_in_container_pass]) (use that in \<open>auto simp: check_evidence_def gate_node_result_def Let_def\<close>)
  have cmds: "runs_tests check p \<Longrightarrow> all_exited_zero h ws (gp_commands p) \<Longrightarrow> commands_passed h ws check" for p ws
    by (auto simp: commands_passed_def)
  have on_host: "wp (io_bind (plan_gate h check ?repo ?branch ?base token (ci_workspace check) None) (\<lambda>planned. case planned of
                Inl r \<Rightarrow> io_return (gate_node_result r)
              | Inr p \<Rightarrow>
                  io_bind (run_on_host h (ci_workspace check) (gp_stack p) (gp_commands p)) (\<lambda>(rc, out).
                  io_return (empty_result\<lparr>nr_condition := Some (if rc = 0 then Pass else Fail),
                    nr_message := Some (verdict (command_name check) (rc = 0)), nr_output := Some out\<rparr>))))
      (\<lambda>r _. nr_condition r = Some Pass \<longrightarrow> check_evidence h st vj task check) (\<lambda>_ _. True) t"
    if "\<not> orchestrator_is_local st" for token t
    unfolding wp_bind
    by (rule wp_mono [OF plan_gate_evidence])
      (use that cmds in \<open>auto simp: wp_simps check_evidence_def gate_node_result_def Let_def split: sum.splits
        intro!: wp_mono [OF run_on_host_zero]\<close>)
  show ?thesis
    unfolding run_ci_check_def Let_def with_token_def
    by (auto simp: wp_simps result_fail_def split: sum.splits intro!: wp_or_fail_pass container on_host)
qed

text \<open>Verification passes only when the clone succeeded and git lists commits and changed files.\<close>

definition verify_evidence :: "host \<Rightarrow> henchmen_task \<Rightarrow> bool" where
  "verify_evidence h task \<longleftrightarrow>
     (let repo = ctx_repo (task_ctx task); base = base_branch_of task; ws = ''henchmen-verify'' in
      cloned_once h repo (branch_name (task_id task)) ws \<and>
      (\<exists>t rc out err. h_exec h (Exec (self_call [''git'', ''log'', ''origin/'' @ base @ ''..HEAD'', ''--oneline''] ws) # t) = Inr (rc, out, err) \<and>
         nonblank_lines out \<noteq> []) \<and>
      (\<exists>t rc out err. h_exec h (Exec (self_call [''git'', ''diff'', ''--name-only'', ''origin/'' @ base] ws) # t) = Inr (rc, out, err) \<and>
         nonblank_lines out \<noteq> []))"

lemma clone_or_fail_wp:
  "wp (clone_or_fail h label repo branch ws token)
     (\<lambda>r _. case r of None \<Rightarrow> cloned_once h repo branch ws | Some x \<Rightarrow> nr_condition x = Some Fail) (\<lambda>_ _. True) t"
  unfolding clone_or_fail_def wp_simps
  by (rule wp_mono [OF clone_repo_wp]) (auto simp: wp_simps cloned_once_def result_fail_def split: exn.splits)

lemma handle_verify_changes_pass:
  "wp (handle_verify_changes h task) (\<lambda>r _. nr_condition r = Some Pass \<longrightarrow> verify_evidence h task) (\<lambda>_ _. True) t"
proof -
  let ?repo = "ctx_repo (task_ctx task)" and ?base = "base_branch_of task"
  have "wp (verify_on_host h ?repo (branch_name (task_id task)) ?base token ''henchmen-verify'')
      (\<lambda>r _. nr_condition r = Some Pass \<longrightarrow> verify_evidence h task) (\<lambda>_ _. True) t" for token t
    unfolding verify_on_host_def wp_bind
    by (rule wp_mono [OF clone_or_fail_wp])
      (auto simp: wp_simps result_fail_def verify_evidence_def Let_def split: option.splits sum.splits; blast)
  then show ?thesis
    unfolding handle_verify_changes_def Let_def with_token_def
    by (auto simp: wp_simps result_fail_def split: sum.splits intro!: wp_or_fail_pass)
qed

section \<open>The standard pipeline on the model's handlers\<close>

lemma pipeline_handler_of:
  "handler_of (det_node ''create_branch'' nm k) = Some HCreateBranch"
  "handler_of (det_node ''prefetch_context'' nm k) = Some HPrefetchContext"
  "handler_of (det_node ''verify_changes'' nm k) = Some HVerifyChanges"
  "handler_of (det_node ''run_lint'' nm k) = Some HRunLint"
  "handler_of (det_node ''run_lint_retry'' nm k) = Some HRunLint"
  "handler_of (det_node ''fix_lint'' nm k) = Some HFixLint"
  "handler_of (det_node ''run_tests'' nm k) = Some HRunTests"
  "handler_of (det_node ''run_tests_retry'' nm k) = Some HRunTests"
  "handler_of (det_node ''create_pr'' nm k) = Some HCreatePr"
  "handler_of (det_node ''escalate'' nm k) = Some HEscalate"
  by (simp_all add: handler_of_def get_handler_def HANDLERS_def)

lemma execute_det_node:
  "execute_node h st vj task (det_node i nm k) nrs = execute_deterministic h st vj task (det_node i nm k) nrs"
  by (simp add: execute_node_def)

lemma standard_handlers:
  assumes "node_id impl \<notin> set pipeline_ids" "node_kind impl = AGENTIC"
  shows "pipeline_handlers (node_env h st vj task) impl"
proof
  show "node_id impl \<notin> set pipeline_ids" by (rule assms(1))
  note ids = pipeline_neq [OF assms(1)] pipeline_ids_members
  fix n nrs w r w'
  assume run: "run_node (node_env h st vj task) n nrs w = (r, w')"
  { assume "n \<in> set (pipeline_nodes impl)" "node_id n \<in> {''create_branch'', ''prefetch_context''}"
    then have "always (execute_node h st vj task n nrs) (\<lambda>r. inert r \<and> nr_condition r = None)"
      by (auto simp: pipeline_nodes_def ids execute_det_node execute_deterministic_def pipeline_handler_of
          handle_create_branch_def handle_prefetch_context_def result_note_def [unfolded empty_result_def] inert_def intro!: result_rules)
    then show "inert r \<and> nr_condition r = None" using run by (rule always_run) }
  { assume "n \<in> set (pipeline_nodes impl)"
      "node_id n \<in> {''verify_changes'', ''run_lint'', ''run_lint_retry'', ''run_tests'', ''run_tests_retry''}"
    then have "always (execute_node h st vj task n nrs) decided"
      by (auto simp: pipeline_nodes_def ids execute_det_node execute_deterministic_def pipeline_handler_of
          handle_run_lint_def handle_run_tests_def run_ci_check_decided handle_verify_changes_decided)
    then have "decided r" using run by (rule always_run)
    then show "inert r \<and> nr_condition r \<noteq> None" by (simp add: decided_def) }
  { assume "n \<in> set (pipeline_nodes impl)" "node_id n = ''fix_lint''"
    then have "always (execute_node h st vj task n nrs) inert"
      by (auto simp: pipeline_nodes_def ids execute_det_node execute_deterministic_def pipeline_handler_of handle_fix_lint_inert)
    then show "inert r" using run by (rule always_run) }
  { assume "n = impl \<or> n = fix_tests_node"
    with assms(2) have "always (execute_node h st vj task n nrs) decided"
      by (auto simp: execute_node_def execute_agentic_decided)
    then have "decided r" using run by (rule always_run)
    then show "inert r \<and> nr_condition r \<noteq> None" by (simp add: decided_def) }
  { assume "n \<in> set (pipeline_nodes impl)" "node_id n = ''create_pr''"
    then have "always (execute_node h st vj task n nrs) pr_outcome"
      by (auto simp: pipeline_nodes_def ids execute_det_node execute_deterministic_def pipeline_handler_of handle_create_pr_outcome)
    then have "pr_outcome r" using run by (rule always_run)
    then show "\<not> nr_escalated r \<and> (nr_condition r = Some Pass \<and> str_truthy (nr_pr_url r) \<or>
        nr_condition r = Some Fail \<and> \<not> str_truthy (nr_pr_url r))" by (simp add: pr_outcome_def) }
  { assume "n \<in> set (pipeline_nodes impl)" "node_id n = ''escalate''"
    then have "always (execute_node h st vj task n nrs) (\<lambda>r. nr_escalated r \<and> \<not> str_truthy (nr_pr_url r))"
      by (auto simp: pipeline_nodes_def ids execute_det_node execute_deterministic_def pipeline_handler_of
          handle_escalate_def result_note_def empty_result_def intro!: result_rules)
    then show "nr_escalated r \<and> \<not> str_truthy (nr_pr_url r)" using run by (rule always_run) }
qed

text \<open>The evidence a passing result of a node carries.\<close>

definition node_evidence ::
  "host \<Rightarrow> settings \<Rightarrow> (string \<Rightarrow> gate_result option) \<Rightarrow> henchmen_task \<Rightarrow> string \<Rightarrow> bool" where
  "node_evidence h st vj task k \<longleftrightarrow>
     (k = ''verify_changes'' \<longrightarrow> verify_evidence h task) \<and>
     (k \<in> {''run_lint'', ''run_lint_retry''} \<longrightarrow> check_evidence h st vj task CmdLint) \<and>
     (k \<in> {''run_tests'', ''run_tests_retry''} \<longrightarrow> check_evidence h st vj task CmdTests)"

lemma node_env_result:
  assumes "run_node (node_env h st vj task) n nrs t = (r, t')"
    "wp (execute_node h st vj task n nrs) (\<lambda>r _. P r) (\<lambda>_ _. True) t"
  shows "P r"
proof -
  obtain r1 t1 where "execute_node h st vj task n nrs t = (Inr r1, t1)"
    using execute_node_returns by (rule alwaysE)
  with assms show ?thesis by (simp add: node_env_def wp_def)
qed

lemma execute_node_evidence:
  assumes "n \<in> set (pipeline_nodes impl)" "node_id impl \<notin> set pipeline_ids"
  shows "wp (execute_node h st vj task n nrs)
    (\<lambda>r _. nr_condition r = Some Pass \<longrightarrow> node_evidence h st vj task (node_id n)) (\<lambda>_ _. True) t"
proof (cases "node_id n \<in> {''verify_changes'', ''run_lint'', ''run_lint_retry'', ''run_tests'', ''run_tests_retry''}")
  case True
  then show ?thesis
    using assms(1) run_ci_check_pass handle_verify_changes_pass
    by (auto simp: pipeline_nodes_def pipeline_neq [OF assms(2)] pipeline_ids_members execute_det_node
        execute_deterministic_def pipeline_handler_of handle_run_lint_def handle_run_tests_def node_evidence_def)
next
  case False
  then show ?thesis by (simp add: node_evidence_def wp_def split: prod.split sum.split)
qed

lemma standard_gates:
  assumes "node_id impl \<notin> set pipeline_ids" "node_kind impl = AGENTIC"
  shows "gated_pipeline (node_env h st vj task) impl (node_evidence h st vj task)"
proof (intro gated_pipeline.intro gated_pipeline_axioms.intro standard_handlers [OF assms])
  fix n nrs w r w'
  assume "n \<in> set (pipeline_nodes impl)" "run_node (node_env h st vj task) n nrs w = (r, w')" "nr_condition r = Some Pass"
  then show "node_evidence h st vj task (node_id n)"
    using node_env_result [OF _ execute_node_evidence [OF _ assms(1)]] by blast
qed

text \<open>Both standard schemes, on every host, for every settings, task and result parser.\<close>

interpretation bugfix: gated_pipeline "node_env h st vj task" implement_fix_node "node_evidence h st vj task" for h st vj task
  by (rule standard_gates [OF implement_ids(1)]) (simp add: implement_fix_node_def)

interpretation feature: gated_pipeline "node_env h st vj task" implement_feature_node "node_evidence h st vj task" for h st vj task
  by (rule standard_gates [OF implement_ids(2)]) (simp add: implement_feature_node_def)

section \<open>What the bounded tail keeps\<close>

lemma trim_chunks_suffix: "suffix (concat (trim_chunks cap cs)) (concat cs)"
  by (induction cap cs rule: trim_chunks.induct) (auto intro: suffix_appendI)

lemma trim_chunks_subset: "set (trim_chunks cap cs) \<subseteq> set cs"
  by (induction cap cs rule: trim_chunks.induct) auto

lemma trim_chunks_upper:
  "\<forall>c\<in>set cs. length c \<le> m \<Longrightarrow> length (concat (trim_chunks cap cs)) \<le> max cap m"
  by (induction cap cs rule: trim_chunks.induct) auto

lemma trim_chunks_lower:
  "\<forall>c\<in>set cs. length c \<le> m \<Longrightarrow>
     trim_chunks cap cs = cs \<or> cap < length (concat (trim_chunks cap cs)) + m"
  by (induction cap cs rule: trim_chunks.induct) auto

lemma tail_add_kept:
  assumes "\<forall>c\<in>set (chunk # cs). length c \<le> m" "concat cs = all \<or> (suffix (concat cs) all \<and> cap < length (concat cs) + m)"
  shows "concat (tail_add cap cs chunk) = all @ chunk \<or>
     (suffix (concat (tail_add cap cs chunk)) (all @ chunk) \<and> cap < length (concat (tail_add cap cs chunk)) + m)"
proof -
  have "trim_chunks cap (cs @ [chunk]) = cs @ [chunk] \<or> cap < length (concat (trim_chunks cap (cs @ [chunk]))) + m"
    using assms(1) by (intro trim_chunks_lower) auto
  moreover have "suffix (concat (trim_chunks cap (cs @ [chunk]))) (concat cs @ chunk)"
    using trim_chunks_suffix [of cap "cs @ [chunk]"] by simp
  moreover have "suffix (concat cs @ chunk) (all @ chunk)"
    using assms(2) by (auto simp: suffix_def)
  ultimately show ?thesis
    using assms(2) unfolding tail_add_def by (auto intro: suffix_order.trans)
qed

lemma drain_kept:
  assumes "\<forall>c\<in>set chunks. length c \<le> m"
  shows "drain_stream cap chunks = concat chunks \<or>
    (suffix (drain_stream cap chunks) (concat chunks) \<and> cap < length (drain_stream cap chunks) + m)"
proof -
  have "set (fold (\<lambda>chunk cs. tail_add cap cs chunk) chunks []) \<subseteq> set chunks \<and>
    (concat (fold (\<lambda>chunk cs. tail_add cap cs chunk) chunks []) = concat chunks \<or>
     (suffix (concat (fold (\<lambda>chunk cs. tail_add cap cs chunk) chunks [])) (concat chunks) \<and>
      cap < length (concat (fold (\<lambda>chunk cs. tail_add cap cs chunk) chunks [])) + m))"
    using assms
  proof (induction chunks rule: rev_induct)
    case Nil
    then show ?case by simp
  next
    case (snoc x xs)
    let ?f = "fold (\<lambda>chunk cs. tail_add cap cs chunk) xs []"
    from snoc have ih: "set ?f \<subseteq> set xs" "concat ?f = concat xs \<or> (suffix (concat ?f) (concat xs) \<and> cap < length (concat ?f) + m)"
      by auto
    then have "\<forall>c\<in>set (x # ?f). length c \<le> m" using snoc.prems by auto
    from tail_add_kept [OF this ih(2)] ih(1) trim_chunks_subset [of cap "?f @ [x]"] show ?case
      by (auto simp: tail_add_def)
  qed
  then show ?thesis by (auto simp: drain_stream_def)
qed

lemma drain_bounded:
  assumes "\<forall>c\<in>set chunks. length c \<le> m"
  shows "length (drain_stream cap chunks) \<le> max cap m"
proof (cases chunks rule: rev_cases)
  case Nil
  then show ?thesis by (simp add: drain_stream_def)
next
  case (snoc xs x)
  let ?f = "fold (\<lambda>chunk cs. tail_add cap cs chunk) xs []"
  have "set (fold (\<lambda>chunk cs. tail_add cap cs chunk) ys []) \<subseteq> set ys" for ys
    using trim_chunks_subset by (induction ys rule: rev_induct) (fastforce simp: tail_add_def)+
  then have "\<forall>c\<in>set (?f @ [x]). length c \<le> m" using assms snoc by fastforce
  from trim_chunks_upper [OF this, of cap] snoc show ?thesis by (simp add: drain_stream_def tail_add_def)
qed

text \<open>A result line that fits the tail is still read, whatever was written before it.\<close>

lemma parse_drained_line:
  assumes "concat chunks = pre @ gate_result_marker @ d @ [CHR 0x0A]" "pre = [] \<or> last pre = CHR 0x0A"
    and "\<forall>c\<in>set d. \<not> is_linebreak c" "\<forall>c\<in>set chunks. length c \<le> m"
    and "length (gate_result_marker @ d @ [CHR 0x0A]) + m \<le> cap"
  shows "parse_gate_result vj (drain_stream cap chunks) = vj d"
proof -
  let ?line = "gate_result_marker @ d @ [CHR 0x0A]"
  from drain_kept [OF assms(4), of cap]
  have "suffix (drain_stream cap chunks) (pre @ ?line)" "length ?line \<le> length (drain_stream cap chunks)"
    using assms(1,5) by (auto simp: assms(1))
  then have "suffix ?line (drain_stream cap chunks)"
    by (metis suffix_appendI suffix_length_suffix suffix_order.order_refl)
  then obtain pre' where d: "drain_stream cap chunks = pre' @ ?line" by (auto simp: suffix_def)
  with \<open>suffix (drain_stream cap chunks) (pre @ ?line)\<close> have "suffix pre' pre" by (auto simp: suffix_def)
  then have "pre' = [] \<or> last pre' = CHR 0x0A" using assms(2) by (cases "pre' = []") (auto simp: suffix_def)
  from parse_result_line [OF this assms(3)] d show ?thesis by simp
qed

lemma tail_chars_suffix: "suffix (tail_chars limit txt) txt"
proof -
  have 1: "suffix (py_last limit txt) txt" by (simp add: py_last_def suffix_drop)
  have 2: "suffix (dropWhile P x) x" for P and x :: string by (simp add: suffix_dropWhile)
  have 3: "suffix (tl (dropWhile P x)) x" for P and x :: string
    by (meson 2 suffix_order.trans suffix_tl)
  have 4: "suffix (py_lstrip (dropWhile P x)) x" for P and x :: string
    unfolding py_lstrip_def using 2 suffix_order.trans by blast
  show ?thesis
    using suffix_order.trans [OF 3 1] suffix_order.trans [OF 4 1] suffix_order.trans [OF 2 1]
    by (auto simp: tail_chars_def Let_def py_lstrip_def)
qed

lemma tail_chars_bounded: "length (tail_chars limit txt) \<le> limit"
proof -
  let ?t = "py_last limit txt"
  have n1: "length (dropWhile P ?t) \<le> limit" for P
    by (rule order.trans [OF length_dropWhile_le]) simp
  have n2: "length (dropWhile Q (dropWhile P ?t)) \<le> limit" for P Q
    by (rule order.trans [OF length_dropWhile_le n1])
  show ?thesis
    unfolding tail_chars_def Let_def py_lstrip_def
    using n1 n2 order.trans [OF diff_le_self n1] by (auto simp del: length_py_last)
qed

section \<open>Agentic nodes\<close>

text \<open>At most two operatives are dispatched per execution of a node.\<close>

lemma redispatch_count:
  "wp (redispatch h n task k r) (\<lambda>_ t'. length t' \<le> length t + k) (\<lambda>_ t'. length t' \<le> length t + k) t"
proof (induction k arbitrary: r t)
  case 0
  then show ?case by (simp add: wp_simps)
next
  case (Suc k)
  show ?case
    by (auto simp: wp_simps dispatch_to_lair_def split: sum.splits intro!: wp_mono [OF Suc.IH])
qed

lemma execute_agentic_dispatches:
  "wp (execute_agentic h st task n nrs)
     (\<lambda>_ t'. length t' \<le> length t + 2) (\<lambda>_ _. False) t"
proof -
  have "wp (redispatch h n enr max_interrupted_redispatches r)
      (\<lambda>_ t'. length t' \<le> Suc (Suc (length t))) (\<lambda>_ t'. length t' \<le> Suc (Suc (length t))) (x # t)" for enr r x
    by (rule wp_mono [OF redispatch_count]) (auto simp: max_interrupted_redispatches_def)
  then show ?thesis
    by (auto simp: execute_agentic_def Let_def wp_simps dispatch_to_lair_def split: sum.splits elim!: wp_mono)
qed

text \<open>A node over the ceiling is never dispatched.\<close>

lemma execute_agentic_ceiling:
  "get_cumulative_cost st nrs + estimate_dispatch_cost st n > operative_task_cost_ceiling_usd st \<Longrightarrow>
     \<exists>msg. execute_agentic h st task n nrs t = (Inr (result_fail msg), t)"
  unfolding execute_agentic_def io_return_def by (simp only: if_True) blast

text \<open>Outside a development checkout, an agentic node passes only on a completed operative's report.\<close>

lemma redispatch_last:
  "wp (redispatch h n task k r)
     (\<lambda>lr _. lr = r \<or> (\<exists>t0. h_lair h (DispatchLair (node_id n) (description task) # t0) = Inr lr)) (\<lambda>_ _. True) t"
proof (induction k arbitrary: r t)
  case 0
  then show ?case by (simp add: wp_simps)
next
  case (Suc k)
  show ?case
    by (auto simp: wp_simps dispatch_to_lair_def split: sum.splits intro!: wp_mono [OF Suc.IH])
qed

lemma execute_agentic_pass:
  assumes "\<not> fail_open_allowed st \<or> node_id n \<in> set fix_nodes"
  shows "wp (execute_agentic h st task n nrs)
    (\<lambda>r _. nr_condition r = Some Pass \<longrightarrow>
       (\<exists>t0 lair rep. h_lair h (DispatchLair (node_id n) (description (enrich_for_fix_node n task nrs)) # t0) = Inr (lair, rep) \<and>
          rep_status rep = COMPLETED \<and> nr_report r = Some rep)) (\<lambda>_ _. False) t"
proof -
  have no_sim: "nr_condition (lair_failed_result st n e) = Some Fail" for e
    using assms by (auto simp: lair_failed_result_def result_fail_def)
  have pass: "nr_condition (report_result lr) = Some Pass \<Longrightarrow> rep_status (snd lr) = COMPLETED \<and> nr_report (report_result lr) = Some (snd lr)" for lr
    by (auto simp: report_result_def Let_def empty_result_def split: if_splits)
  show ?thesis
    unfolding execute_agentic_def Let_def
    by (auto simp: wp_simps result_fail_def dispatch_to_lair_def no_sim split: sum.splits
        intro!: wp_mono [OF redispatch_last] dest!: pass; blast)
qed

lemma schemes_have_handlers:
  "validate_deterministic_handlers (make_graph BUGFIX_STANDARD) = []"
  "validate_deterministic_handlers (make_graph FEATURE_STANDARD) = []"
  "validate_deterministic_handlers (make_graph GOAL_DECOMPOSITION) = []"
  by code_simp+

end
