(* ===== verification/DocStore.thy ===== *)
theory DocStore
  imports Prelude
begin

text \<open>
  The document store: the interface of \<open>providers/interfaces/document_store.py\<close> as the locale
  \<open>document_store\<close>, and its local implementation \<open>SQLiteDocumentStore\<close>
  (\<open>providers/local/sqlite.py\<close>), which interprets it. Every operation is atomic here: the code holds
  the lock of the document during a read-modify-write and the database lock during a statement.
\<close>

section \<open>Values\<close>

text \<open>
  What JSON holds. An ISO-8601 timestamp is the instant it renders (\<open>JTime\<close>, in microseconds): such
  strings sort like their instants. Floats are exact rationals.
\<close>

datatype json =
    JNull
  | JBool bool
  | JInt int
  | JFloat rat
  | JStr string
  | JTime int
  | JList "json list"
  | JObj "(string \<times> json) list"

type_synonym doc = "(string, json) dict"

fun num_of :: "json \<Rightarrow> rat option" where
  "num_of (JBool b) = Some (of_bool b)"
| "num_of (JInt i) = Some (of_int i)"
| "num_of (JFloat r) = Some r"
| "num_of _ = None"

text \<open>Python's \<open>==\<close>: numbers by value, lists element by element, objects by their items in any order.\<close>

fun py_eq :: "json \<Rightarrow> json \<Rightarrow> bool" and py_eq_list :: "json list \<Rightarrow> json list \<Rightarrow> bool"
  and py_eq_items :: "(string \<times> json) list \<Rightarrow> (string \<times> json) list \<Rightarrow> bool" where
  "py_eq JNull b = (b = JNull)"
| "py_eq (JStr s) b = (b = JStr s)"
| "py_eq (JTime t) b = (b = JTime t)"
| "py_eq (JList xs) b = (case b of JList ys \<Rightarrow> py_eq_list xs ys | _ \<Rightarrow> False)"
| "py_eq (JObj xs) b = (case b of JObj ys \<Rightarrow> length xs = length ys \<and> py_eq_items xs ys | _ \<Rightarrow> False)"
| "py_eq (JBool x) b = (num_of b = Some (of_bool x))"
| "py_eq (JInt x) b = (num_of b = Some (of_int x))"
| "py_eq (JFloat x) b = (num_of b = Some x)"
| "py_eq_list [] ys = (ys = [])"
| "py_eq_list (x # xs) ys = (case ys of [] \<Rightarrow> False | y # ys' \<Rightarrow> py_eq x y \<and> py_eq_list xs ys')"
| "py_eq_items [] ys = True"
| "py_eq_items ((k, v) # xs) ys = ((case dict_get ys k of None \<Rightarrow> False | Some w \<Rightarrow> py_eq v w) \<and> py_eq_items xs ys)"

text \<open>
  Python's \<open><\<close>; \<open>None\<close> is a \<open>TypeError\<close>. A timestamp is after the empty string; the modelled code
  compares timestamps with no other string.
\<close>

fun py_lt :: "json \<Rightarrow> json \<Rightarrow> bool option" and py_lt_list :: "json list \<Rightarrow> json list \<Rightarrow> bool option" where
  "py_lt (JStr a) b = (case b of JStr c \<Rightarrow> Some (a < c) | JTime _ \<Rightarrow> (if a = [] then Some True else None) | _ \<Rightarrow> None)"
| "py_lt (JTime a) b = (case b of JTime c \<Rightarrow> Some (a < c) | JStr s \<Rightarrow> (if s = [] then Some False else None) | _ \<Rightarrow> None)"
| "py_lt (JList xs) b = (case b of JList ys \<Rightarrow> py_lt_list xs ys | _ \<Rightarrow> None)"
| "py_lt JNull b = None"
| "py_lt (JObj d) b = None"
| "py_lt (JBool x) b = map_option ((<) (of_bool x)) (num_of b)"
| "py_lt (JInt x) b = map_option ((<) (of_int x)) (num_of b)"
| "py_lt (JFloat x) b = map_option ((<) x) (num_of b)"
| "py_lt_list [] ys = Some (ys \<noteq> [])"
| "py_lt_list (x # xs) ys =
     (case ys of [] \<Rightarrow> Some False | y # ys' \<Rightarrow> if py_eq x y then py_lt_list xs ys' else py_lt x y)"

text \<open>\<open>x in c\<close> for a list, a string (substring) or an object (key); \<open>None\<close> is a \<open>TypeError\<close>.\<close>

fun py_in :: "json \<Rightarrow> json \<Rightarrow> bool option" where
  "py_in x (JList ys) = Some (list_ex (py_eq x) ys)"
| "py_in x (JStr s) = (case x of JStr p \<Rightarrow> Some (contains_str p s) | _ \<Rightarrow> None)"
| "py_in x (JObj d) = (case x of JStr k \<Rightarrow> Some (dict_get d k \<noteq> None) | _ \<Rightarrow> Some False)"
| "py_in x _ = None"

definition doc_get :: "doc \<Rightarrow> string \<Rightarrow> json" where
  "doc_get d f = dict_get_or d f JNull"

section \<open>Operations that may raise\<close>

datatype store_error = UnsafeCollection string | UnsupportedOperator string | TypeErr | StoreClosed | ReservedName string | Raised string

type_synonym ('s, 'a) store_op = "'s \<Rightarrow> (store_error + 'a) \<times> 's"

definition st_return :: "'a \<Rightarrow> ('s, 'a) store_op" where
  "st_return a s = (Inr a, s)"

definition st_raise :: "store_error \<Rightarrow> ('s, 'a) store_op" where
  "st_raise e s = (Inl e, s)"

definition st_bind :: "('s, 'a) store_op \<Rightarrow> ('a \<Rightarrow> ('s, 'b) store_op) \<Rightarrow> ('s, 'b) store_op" where
  "st_bind m f s = (case m s of (Inl e, s') \<Rightarrow> (Inl e, s') | (Inr a, s') \<Rightarrow> f a s')"

definition st_lift :: "store_error + 'a \<Rightarrow> ('s, 'a) store_op" where
  "st_lift r s = (r, s)"

lemma st_bind_Inr: "m s = (Inr a, s') \<Longrightarrow> st_bind m f s = f a s'"
  by (simp add: st_bind_def)

lemma st_bind_Inr_iff:
  "st_bind m f s = (Inr b, s'') \<longleftrightarrow> (\<exists>a s'. m s = (Inr a, s') \<and> f a s' = (Inr b, s''))"
  by (auto simp: st_bind_def split: prod.splits sum.splits)

lemma st_simps [simp]: "st_return a s = (Inr a, s)" "st_raise e s = (Inl e, s)" "st_lift r s = (r, s)"
  by (simp_all add: st_return_def st_raise_def st_lift_def)

fun st_map :: "('a \<Rightarrow> ('s, 'b) store_op) \<Rightarrow> 'a list \<Rightarrow> ('s, unit) store_op" where
  "st_map f [] = st_return ()"
| "st_map f (x # xs) = st_bind (f x) (\<lambda>_. st_map f xs)"

text \<open>\<open>try: ... except Exception\<close>: the handler runs on the state the operation left.\<close>

definition st_catch :: "('s, 'a) store_op \<Rightarrow> (store_error \<Rightarrow> ('s, 'a) store_op) \<Rightarrow> ('s, 'a) store_op" where
  "st_catch m h s = (case m s of (Inl e, s') \<Rightarrow> h e s' | (Inr a, s') \<Rightarrow> (Inr a, s'))"

lemma st_catch_Inr: "m s = (Inr a, s') \<Longrightarrow> st_catch m h s = (Inr a, s')"
  by (simp add: st_catch_def)

lemma st_catch_Inl: "m s = (Inl e, s') \<Longrightarrow> st_catch m h s = h e s'"
  by (simp add: st_catch_def)

section \<open>Refinement of an abstraction\<close>

text \<open>
  \<open>m\<close> returns on every well-formed state, keeps it well-formed and relates the abstraction \<open>q\<close> of
  the state before, its result and the abstraction of the state after by \<open>P\<close>.
\<close>

definition refines :: "('s \<Rightarrow> bool) \<Rightarrow> ('s \<Rightarrow> 'q) \<Rightarrow> ('s, 'a) store_op \<Rightarrow> ('q \<Rightarrow> 'a \<Rightarrow> 'q \<Rightarrow> bool) \<Rightarrow> bool" where
  "refines good q m P \<longleftrightarrow> (\<forall>s. good s \<longrightarrow> (\<exists>a s'. m s = (Inr a, s') \<and> good s' \<and> P (q s) a (q s')))"

lemma refinesD: "refines good q m P \<Longrightarrow> good s \<Longrightarrow> \<exists>a s'. m s = (Inr a, s') \<and> good s' \<and> P (q s) a (q s')"
  by (auto simp: refines_def)

lemma refines_return: "(\<And>x. P x a x) \<Longrightarrow> refines good q (st_return a) P"
  by (auto simp: refines_def)

lemma refines_mono: "refines good q m P \<Longrightarrow> (\<And>x a y. P x a y \<Longrightarrow> Q x a y) \<Longrightarrow> refines good q m Q"
  by (fastforce simp: refines_def)

lemma refines_bind:
  assumes "refines good q m P" "\<And>a. refines good q (f a) (Q a)"
  shows "refines good q (st_bind m f) (\<lambda>x b z. \<exists>a y. P x a y \<and> Q a y b z)"
  unfolding refines_def
proof (intro allI impI)
  fix s assume "good s"
  with assms(1) obtain a s1 where m: "m s = (Inr a, s1)" "good s1" "P (q s) a (q s1)" by (auto simp: refines_def)
  with assms(2) [of a] obtain b s2 where "f a s1 = (Inr b, s2)" "good s2" "Q a (q s1) b (q s2)" by (auto simp: refines_def)
  with m show "\<exists>b s'. st_bind m f s = (Inr b, s') \<and> good s' \<and> (\<exists>a y. P (q s) a y \<and> Q a y b (q s'))"
    by (auto simp: st_bind_def)
qed

section \<open>Queries\<close>

type_synonym filter_clause = "string \<times> string \<times> json"

definition supported_operators :: "string list" where
  "supported_operators = [''=='', ''!='', ''<'', ''<='', ''>'', ''>='', ''in'', ''not-in'', ''array-contains'']"

definition present_and :: "json \<Rightarrow> bool option \<Rightarrow> bool option" where
  "present_and actual c = (if actual = JNull then Some False else c)"

text \<open>One clause of a filter on the value of its field; \<open>None\<close> is a \<open>TypeError\<close>.\<close>

definition clause_holds :: "string \<Rightarrow> json \<Rightarrow> json \<Rightarrow> bool option" where
  "clause_holds op actual v =
     (if op = ''=='' then Some (py_eq actual v)
      else if op = ''!='' then Some (\<not> py_eq actual v)
      else if op = ''<'' then present_and actual (py_lt actual v)
      else if op = ''<='' then present_and actual (map_option Not (py_lt v actual))
      else if op = ''>'' then present_and actual (py_lt v actual)
      else if op = ''>='' then present_and actual (map_option Not (py_lt actual v))
      else if op = ''in'' then py_in actual v
      else if op = ''not-in'' then map_option Not (py_in actual v)
      else (case actual of JList xs \<Rightarrow> Some (list_ex (py_eq v) xs) | _ \<Rightarrow> Some False))"

text \<open>The clauses in order; the first that does not hold decides, before a later one can raise.\<close>

fun matches_filters :: "doc \<Rightarrow> filter_clause list \<Rightarrow> store_error + bool" where
  "matches_filters d [] = Inr True"
| "matches_filters d ((f, op, v) # fs) =
     (if op \<notin> set supported_operators then Inl (UnsupportedOperator op)
      else (case clause_holds op (doc_get d f) v of
              None \<Rightarrow> Inl TypeErr
            | Some False \<Rightarrow> Inr False
            | Some True \<Rightarrow> matches_filters d fs))"

fun filter_docs :: "filter_clause list \<Rightarrow> doc list \<Rightarrow> store_error + doc list" where
  "filter_docs fs [] = Inr []"
| "filter_docs fs (d # ds) =
     res_bind (matches_filters d fs) (\<lambda>m. res_bind (filter_docs fs ds) (\<lambda>r. Inr (if m then d # r else r)))"

text \<open>
  \<open>results.sort(key=...)\<close>, stable; a \<open>reverse\<close> sort keeps the order of equal keys too. Raises when
  two keys can not be compared.
\<close>

fun insert_doc :: "(doc \<Rightarrow> json) \<Rightarrow> doc \<Rightarrow> doc list \<Rightarrow> store_error + doc list" where
  "insert_doc k d [] = Inr [d]"
| "insert_doc k d (e # es) =
     (case py_lt (k e) (k d) of
        None \<Rightarrow> Inl TypeErr
      | Some True \<Rightarrow> res_bind (insert_doc k d es) (\<lambda>r. Inr (e # r))
      | Some False \<Rightarrow> Inr (d # e # es))"

fun sort_docs :: "(doc \<Rightarrow> json) \<Rightarrow> doc list \<Rightarrow> store_error + doc list" where
  "sort_docs k [] = Inr []"
| "sort_docs k (d # ds) = res_bind (sort_docs k ds) (insert_doc k d)"

definition order_docs :: "string option \<Rightarrow> bool \<Rightarrow> doc list \<Rightarrow> store_error + doc list" where
  "order_docs order_by descending ds =
     (if \<not> str_truthy order_by then Inr ds
      else (let k = (\<lambda>d. dict_get_or d (the order_by) (JStr [])) in
        if descending then res_bind (sort_docs k (rev ds)) (\<lambda>r. Inr (rev r)) else sort_docs k ds))"

text \<open>\<open>if limit:\<close> - no limit and the limit 0 both return everything.\<close>

definition limit_docs :: "nat option \<Rightarrow> doc list \<Rightarrow> doc list" where
  "limit_docs n ds = (case n of None \<Rightarrow> ds | Some 0 \<Rightarrow> ds | Some k \<Rightarrow> take k ds)"

section \<open>The SQLite store\<close>

text \<open>
  The database file: a table per collection (SQLite compares table names without case), the rows in
  the order of their rowids, which is the order of a full scan; replacing a row moves it to the end.
\<close>

record sqlite_store =
  sq_tables :: "(string, (string, doc) dict) dict"
  sq_closed :: bool

definition is_name_start :: "char \<Rightarrow> bool" where
  "is_name_start c = (let n = of_char c :: nat in (65 \<le> n \<and> n \<le> 90) \<or> (97 \<le> n \<and> n \<le> 122) \<or> n = 95)"

definition is_name_char :: "char \<Rightarrow> bool" where
  "is_name_char c = (is_name_start c \<or> (let n = of_char c :: nat in (48 \<le> n \<and> n \<le> 57) \<or> n = 46 \<or> n = 45))"

text \<open>\<open>^[A-Za-z_][A-Za-z0-9_.-]{0,63}$\<close>, where \<open>$\<close> also matches before a final line feed.\<close>

definition plain_name :: "string \<Rightarrow> bool" where
  "plain_name s = (case s of [] \<Rightarrow> False | c # cs \<Rightarrow> is_name_start c \<and> list_all is_name_char cs \<and> length cs \<le> 63)"

definition check_collection :: "string \<Rightarrow> bool" where
  "check_collection s = (plain_name s \<or> (s \<noteq> [] \<and> last s = CHR 0x0A \<and> plain_name (butlast s)))"

text \<open>\<open>_run\<close>: check the name, create the table on its first use, run the statement.\<close>

definition sq_run :: "string \<Rightarrow> ((string, doc) dict \<Rightarrow> 'a \<times> (string, doc) dict) \<Rightarrow> (sqlite_store, 'a) store_op" where
  "sq_run c f s =
     (if \<not> check_collection c then (Inl (UnsafeCollection c), s)
      else if sq_closed s then (Inl StoreClosed, s)
      else if prefix ''sqlite_'' (py_lower c) then (Inl (ReservedName c), s)
      else (let k = py_lower c; (a, t) = f (dict_get_or (sq_tables s) k [])
            in (Inr a, s\<lparr>sq_tables := dict_set (sq_tables s) k t\<rparr>)))"

definition with_id :: "string \<Rightarrow> doc \<Rightarrow> doc" where
  "with_id i d = dict_set d ''_id'' (JStr i)"

definition without_id :: "doc \<Rightarrow> doc" where
  "without_id d = dict_del d ''_id''"

definition sq_get :: "string \<Rightarrow> string \<Rightarrow> (sqlite_store, doc option) store_op" where
  "sq_get c i = sq_run c (\<lambda>t. (map_option (with_id i) (dict_get t i), t))"

definition sq_set :: "string \<Rightarrow> string \<Rightarrow> doc \<Rightarrow> (sqlite_store, unit) store_op" where
  "sq_set c i d = sq_run c (\<lambda>t. ((), dict_del t i @ [(i, without_id d)]))"

definition sq_update :: "string \<Rightarrow> string \<Rightarrow> doc \<Rightarrow> (sqlite_store, unit) store_op" where
  "sq_update c i d =
     st_bind (sq_get c i) (\<lambda>r. case r of
       None \<Rightarrow> sq_set c i d
     | Some e \<Rightarrow> sq_set c i (dict_merge (without_id e) d))"

definition sq_delete :: "string \<Rightarrow> string \<Rightarrow> (sqlite_store, unit) store_op" where
  "sq_delete c i = sq_run c (\<lambda>t. ((), dict_del t i))"

definition sq_query ::
  "string \<Rightarrow> filter_clause list \<Rightarrow> string option \<Rightarrow> bool \<Rightarrow> nat option \<Rightarrow> (sqlite_store, doc list) store_op" where
  "sq_query c fs order_by descending n =
     st_bind (sq_run c (\<lambda>t. (t, t))) (\<lambda>rows.
     st_lift (res_bind (filter_docs fs (map (\<lambda>(i, d). with_id i d) rows)) (\<lambda>ds.
              res_bind (order_docs order_by descending ds) (\<lambda>os. Inr (limit_docs n os)))))"

text \<open>\<open>base.get(field, 0) or 0\<close>, and Python's addition of numbers.\<close>

definition num_or_zero :: "json \<Rightarrow> json" where
  "num_or_zero v = (if v \<in> set [JNull, JBool False, JInt 0, JFloat 0, JStr [], JList [], JObj []] then JInt 0 else v)"

fun py_add :: "json \<Rightarrow> json \<Rightarrow> json option" where
  "py_add (JStr a) b = (case b of JStr c \<Rightarrow> Some (JStr (a @ c)) | _ \<Rightarrow> None)"
| "py_add (JList a) b = (case b of JList c \<Rightarrow> Some (JList (a @ c)) | _ \<Rightarrow> None)"
| "py_add (JInt a) b = (case b of JInt c \<Rightarrow> Some (JInt (a + c)) | JBool c \<Rightarrow> Some (JInt (a + of_bool c)) | JFloat r \<Rightarrow> Some (JFloat (of_int a + r)) | _ \<Rightarrow> None)"
| "py_add (JBool a) b = (case b of JInt c \<Rightarrow> Some (JInt (of_bool a + c)) | JBool c \<Rightarrow> Some (JInt (of_bool a + of_bool c)) | JFloat r \<Rightarrow> Some (JFloat (of_bool a + r)) | _ \<Rightarrow> None)"
| "py_add (JFloat a) b = map_option (\<lambda>r. JFloat (a + r)) (num_of b)"
| "py_add _ _ = None"

fun add_deltas :: "doc \<Rightarrow> doc \<Rightarrow> store_error + doc" where
  "add_deltas base [] = Inr base"
| "add_deltas base ((f, delta) # ds) =
     (case py_add (num_or_zero (dict_get_or base f (JInt 0))) delta of
        None \<Rightarrow> Inl TypeErr
      | Some v \<Rightarrow> add_deltas (dict_set base f v) ds)"

definition sq_increment :: "string \<Rightarrow> string \<Rightarrow> doc \<Rightarrow> (sqlite_store, unit) store_op" where
  "sq_increment c i deltas =
     (if deltas = [] then st_return ()
      else st_bind (sq_get c i) (\<lambda>r.
           st_bind (st_lift (add_deltas (case r of None \<Rightarrow> [] | Some e \<Rightarrow> without_id e) deltas)) (\<lambda>base.
           sq_set c i base)))"

definition sq_update_if :: "string \<Rightarrow> string \<Rightarrow> string \<Rightarrow> json \<Rightarrow> doc \<Rightarrow> (sqlite_store, bool) store_op" where
  "sq_update_if c i f expected d =
     st_bind (sq_get c i) (\<lambda>r. case r of
       None \<Rightarrow> st_return False
     | Some e \<Rightarrow>
         if \<not> py_eq (doc_get e f) expected then st_return False
         else st_bind (sq_set c i (dict_merge (without_id e) d)) (\<lambda>_. st_return True))"

definition sq_close :: "(sqlite_store, unit) store_op" where
  "sq_close s = (Inr (), s\<lparr>sq_closed := True\<rparr>)"

section \<open>The interface\<close>

text \<open>The operations of the \<open>DocumentStore\<close> protocol, for any provider with states \<open>'s\<close>.\<close>

record 's store_ops =
  op_get :: "string \<Rightarrow> string \<Rightarrow> ('s, doc option) store_op"
  op_set :: "string \<Rightarrow> string \<Rightarrow> doc \<Rightarrow> ('s, unit) store_op"
  op_update :: "string \<Rightarrow> string \<Rightarrow> doc \<Rightarrow> ('s, unit) store_op"
  op_delete :: "string \<Rightarrow> string \<Rightarrow> ('s, unit) store_op"
  op_query :: "string \<Rightarrow> filter_clause list \<Rightarrow> string option \<Rightarrow> bool \<Rightarrow> nat option \<Rightarrow> ('s, doc list) store_op"
  op_increment :: "string \<Rightarrow> string \<Rightarrow> doc \<Rightarrow> ('s, unit) store_op"
  op_update_if :: "string \<Rightarrow> string \<Rightarrow> string \<Rightarrow> json \<Rightarrow> doc \<Rightarrow> ('s, bool) store_op"

definition sqlite_ops :: "sqlite_store store_ops" where
  "sqlite_ops =
     \<lparr>op_get = sq_get, op_set = sq_set, op_update = sq_update, op_delete = sq_delete, op_query = sq_query,
      op_increment = sq_increment, op_update_if = sq_update_if\<rparr>"

text \<open>The reference query: on any enumeration of the documents.\<close>

definition query_docs ::
  "(string \<times> doc) list \<Rightarrow> filter_clause list \<Rightarrow> string option \<Rightarrow> bool \<Rightarrow> nat option \<Rightarrow> store_error + doc list" where
  "query_docs rows fs order_by descending n =
     res_bind (filter_docs fs (map (\<lambda>(i, d). with_id i d) rows)) (\<lambda>ds.
     res_bind (order_docs order_by descending ds) (\<lambda>os. Inr (limit_docs n os)))"

text \<open>
  What a provider promises about one collection: \<open>docs\<close> is its content (without the ids), \<open>ok\<close> the
  states in which it can be used.
\<close>

locale document_store =
  fixes ops :: "'s store_ops"
    and coll :: string
    and docs :: "'s \<Rightarrow> string \<Rightarrow> doc option"
    and ok :: "'s \<Rightarrow> bool"
  assumes no_id: "ok s \<Longrightarrow> docs s i = Some d \<Longrightarrow> dict_get d ''_id'' = None"
    and get_law: "ok s \<Longrightarrow>
      \<exists>s'. op_get ops coll i s = (Inr (map_option (with_id i) (docs s i)), s') \<and> ok s' \<and> docs s' = docs s"
    and set_law: "ok s \<Longrightarrow>
      \<exists>s'. op_set ops coll i d s = (Inr (), s') \<and> ok s' \<and> docs s' = (docs s)(i \<mapsto> without_id d)"
    and update_law: "ok s \<Longrightarrow>
      \<exists>s'. op_update ops coll i d s = (Inr (), s') \<and> ok s' \<and>
        docs s' = (docs s)(i \<mapsto> without_id (case docs s i of None \<Rightarrow> d | Some e \<Rightarrow> dict_merge e d))"
    and delete_law: "ok s \<Longrightarrow>
      \<exists>s'. op_delete ops coll i s = (Inr (), s') \<and> ok s' \<and> docs s' = (docs s)(i := None)"
    and query_law: "ok s \<Longrightarrow>
      \<exists>rows s'. distinct (map fst rows) \<and> map_of rows = docs s \<and> ok s' \<and> docs s' = docs s \<and>
        op_query ops coll fs order_by descending n s = (query_docs rows fs order_by descending n, s')"
    and update_if_law: "ok s \<Longrightarrow>
      \<exists>s'. ok s' \<and>
        (case docs s i of
           Some e \<Rightarrow>
             if py_eq (doc_get (with_id i e) f) v
             then op_update_if ops coll i f v d s = (Inr True, s') \<and> docs s' = (docs s)(i \<mapsto> without_id (dict_merge e d))
             else op_update_if ops coll i f v d s = (Inr False, s') \<and> docs s' = docs s
         | None \<Rightarrow> op_update_if ops coll i f v d s = (Inr False, s') \<and> docs s' = docs s)"
    and increment_law: "ok s \<Longrightarrow> deltas \<noteq> [] \<Longrightarrow>
      \<exists>s'. ok s' \<and>
        (case add_deltas (case docs s i of None \<Rightarrow> [] | Some e \<Rightarrow> e) deltas of
           Inl err \<Rightarrow> op_increment ops coll i deltas s = (Inl err, s') \<and> docs s' = docs s
         | Inr b \<Rightarrow> op_increment ops coll i deltas s = (Inr (), s') \<and> docs s' = (docs s)(i \<mapsto> without_id b))"

text \<open>Collections that do not share their documents: no operation on one touches the other.\<close>

locale framed_store = document_store ops coll docs ok
  for ops :: "'s store_ops" and coll and docs and ok +
  fixes apart :: "string \<Rightarrow> bool"
  assumes frame_get: "ok s \<Longrightarrow> apart c \<Longrightarrow> op_get ops c i s = (r1, s') \<Longrightarrow> ok s' \<and> docs s' = docs s"
    and frame_set: "ok s \<Longrightarrow> apart c \<Longrightarrow> op_set ops c i d s = (r2, s') \<Longrightarrow> ok s' \<and> docs s' = docs s"
    and frame_update: "ok s \<Longrightarrow> apart c \<Longrightarrow> op_update ops c i d s = (r2, s') \<Longrightarrow> ok s' \<and> docs s' = docs s"
    and frame_delete: "ok s \<Longrightarrow> apart c \<Longrightarrow> op_delete ops c i s = (r2, s') \<Longrightarrow> ok s' \<and> docs s' = docs s"
    and frame_query: "ok s \<Longrightarrow> apart c \<Longrightarrow> op_query ops c fs o_by desc n s = (r3, s') \<Longrightarrow> ok s' \<and> docs s' = docs s"

section \<open>SQLite implements the interface\<close>

definition sq_table :: "string \<Rightarrow> sqlite_store \<Rightarrow> (string, doc) dict" where
  "sq_table c s = dict_get_or (sq_tables s) (py_lower c) []"

definition sq_docs :: "string \<Rightarrow> sqlite_store \<Rightarrow> string \<Rightarrow> doc option" where
  "sq_docs c s = dict_get (sq_table c s)"

definition sq_ok :: "string \<Rightarrow> sqlite_store \<Rightarrow> bool" where
  "sq_ok c s \<longleftrightarrow> check_collection c \<and> \<not> sq_closed s \<and> \<not> prefix ''sqlite_'' (py_lower c) \<and>
     distinct (dict_keys (sq_table c s)) \<and> (\<forall>(i, d)\<in>set (sq_table c s). dict_get d ''_id'' = None)"

lemma sq_run_ok:
  assumes "sq_ok c s"
  shows "\<exists>s'. sq_run c f s = (Inr (fst (f (sq_table c s))), s') \<and> sq_table c s' = snd (f (sq_table c s)) \<and>
    sq_closed s' = sq_closed s"
  using assms by (simp add: sq_run_def sq_ok_def sq_table_def Let_def split: prod.split)

lemma sq_run_read:
  assumes "sq_ok c s" "snd (f (sq_table c s)) = sq_table c s"
  shows "\<exists>s'. sq_run c f s = (Inr (fst (f (sq_table c s))), s') \<and> sq_ok c s' \<and> sq_table c s' = sq_table c s"
  using sq_run_ok [OF assms(1), of f] assms by (auto simp: sq_ok_def)

lemma without_id_get [simp]: "dict_get (without_id d) f = (if f = ''_id'' then None else dict_get d f)"
  by (simp add: without_id_def)

lemma with_id_get [simp]: "dict_get (with_id i d) f = (if f = ''_id'' then Some (JStr i) else dict_get d f)"
  by (simp add: with_id_def)

lemma without_with_id: "dict_get d ''_id'' = None \<Longrightarrow> without_id (with_id i d) = d"
  by (simp add: without_id_def with_id_def delete_update_same delete_id map_of_eq_None_iff)

lemma set_dict_del: "x \<in> set (dict_del t k) \<longleftrightarrow> x \<in> set t \<and> fst x \<noteq> k"
  by (auto simp: AList.delete_eq)

lemma sq_set_ok:
  assumes "sq_ok c s"
  shows "\<exists>s'. sq_set c i d s = (Inr (), s') \<and> sq_ok c s' \<and> sq_docs c s' = (sq_docs c s)(i \<mapsto> without_id d)"
proof -
  obtain s' where s': "sq_set c i d s = (Inr (), s')" "sq_table c s' = dict_del (sq_table c s) i @ [(i, without_id d)]"
    "sq_closed s' = sq_closed s"
    using sq_run_ok [OF assms, of "\<lambda>t. ((), dict_del t i @ [(i, without_id d)])"] by (auto simp: sq_set_def)
  have keys: "distinct (dict_keys (dict_del (sq_table c s) i @ [(i, without_id d)]))"
    using assms by (simp add: sq_ok_def delete_keys distinct_removeAll)
  have "sq_ok c s'"
    unfolding sq_ok_def s'(2) using assms s'(3) keys by (auto simp: sq_ok_def set_dict_del)
  moreover have "sq_docs c s' = (sq_docs c s)(i \<mapsto> without_id d)"
    by (rule ext) (auto simp: sq_docs_def s'(2) map_add_def split: option.splits)
  ultimately show ?thesis using s'(1) by blast
qed

lemma sq_get_ok:
  assumes "sq_ok c s"
  shows "\<exists>s'. sq_get c i s = (Inr (map_option (with_id i) (sq_docs c s i)), s') \<and> sq_ok c s' \<and> sq_docs c s' = sq_docs c s"
  using sq_run_read [OF assms, of "\<lambda>t. (map_option (with_id i) (dict_get t i), t)"]
  by (auto simp: sq_get_def sq_docs_def)

lemma sq_no_id: "sq_ok c s \<Longrightarrow> sq_docs c s i = Some d \<Longrightarrow> dict_get d ''_id'' = None"
  by (auto simp: sq_ok_def sq_docs_def dest!: map_of_SomeD)

lemma without_merge:
  "dict_get e ''_id'' = None \<Longrightarrow> without_id (dict_merge (without_id (with_id i e)) d) = without_id (dict_merge e d)"
  by (simp add: without_with_id)

interpretation sqlite: document_store sqlite_ops c "sq_docs c" "sq_ok c" for c
proof
  fix s i d
  show "sq_ok c s \<Longrightarrow> sq_docs c s i = Some d \<Longrightarrow> dict_get d ''_id'' = None" by (rule sq_no_id)
next
  fix s i assume ok: "sq_ok c s"
  then show "\<exists>s'. op_get sqlite_ops c i s = (Inr (map_option (with_id i) (sq_docs c s i)), s') \<and> sq_ok c s' \<and> sq_docs c s' = sq_docs c s"
    using sq_get_ok by (simp add: sqlite_ops_def)
next
  fix s i d assume ok: "sq_ok c s"
  then show "\<exists>s'. op_set sqlite_ops c i d s = (Inr (), s') \<and> sq_ok c s' \<and> sq_docs c s' = (sq_docs c s)(i \<mapsto> without_id d)"
    using sq_set_ok by (simp add: sqlite_ops_def)
next
  fix s i d assume ok: "sq_ok c s"
  obtain s1 where s1: "sq_get c i s = (Inr (map_option (with_id i) (sq_docs c s i)), s1)" "sq_ok c s1" "sq_docs c s1 = sq_docs c s"
    using sq_get_ok [OF ok] by blast
  show "\<exists>s'. op_update sqlite_ops c i d s = (Inr (), s') \<and> sq_ok c s' \<and>
      sq_docs c s' = (sq_docs c s)(i \<mapsto> without_id (case sq_docs c s i of None \<Rightarrow> d | Some e \<Rightarrow> dict_merge e d))"
  proof (cases "sq_docs c s i")
    case None
    with s1 sq_set_ok [OF s1(2), of i d] show ?thesis by (simp add: sqlite_ops_def sq_update_def st_bind_def)
  next
    case (Some e)
    with s1 sq_set_ok [OF s1(2), of i "dict_merge (without_id (with_id i e)) d"] sq_no_id [OF ok Some] show ?thesis
      by (simp add: sqlite_ops_def sq_update_def st_bind_def without_with_id)
  qed
next
  fix s i assume ok: "sq_ok c s"
  obtain s' where s': "sq_delete c i s = (Inr (), s')" "sq_table c s' = dict_del (sq_table c s) i" "sq_closed s' = sq_closed s"
    using sq_run_ok [OF ok, of "\<lambda>t. ((), dict_del t i)"] by (auto simp: sq_delete_def)
  have "distinct (dict_keys (dict_del (sq_table c s) i))" using ok by (simp add: sq_ok_def distinct_delete)
  then have "sq_ok c s'" unfolding sq_ok_def s'(2) using ok s'(3) by (auto simp: sq_ok_def set_dict_del)
  moreover have "sq_docs c s' = (sq_docs c s)(i := None)"
    by (rule ext) (simp add: sq_docs_def s'(2))
  ultimately show "\<exists>s'. op_delete sqlite_ops c i s = (Inr (), s') \<and> sq_ok c s' \<and> sq_docs c s' = (sq_docs c s)(i := None)"
    using s'(1) by (auto simp: sqlite_ops_def)
next
  fix s fs order_by descending n assume ok: "sq_ok c s"
  from sq_run_read [OF ok, of "\<lambda>t. (t, t)"] obtain s' where
    "sq_run c (\<lambda>t. (t, t)) s = (Inr (sq_table c s), s')" "sq_ok c s'" "sq_table c s' = sq_table c s" by auto
  with ok show "\<exists>rows s'. distinct (map fst rows) \<and> map_of rows = sq_docs c s \<and> sq_ok c s' \<and> sq_docs c s' = sq_docs c s \<and>
      op_query sqlite_ops c fs order_by descending n s = (query_docs rows fs order_by descending n, s')"
    by (intro exI [of _ "sq_table c s"] exI [of _ s'])
      (simp add: sqlite_ops_def sq_query_def st_bind_def query_docs_def sq_docs_def sq_ok_def)
next
  fix s i f v d assume ok: "sq_ok c s"
  obtain s1 where s1: "sq_get c i s = (Inr (map_option (with_id i) (sq_docs c s i)), s1)" "sq_ok c s1" "sq_docs c s1 = sq_docs c s"
    using sq_get_ok [OF ok] by blast
  show "\<exists>s'. sq_ok c s' \<and>
      (case sq_docs c s i of
         Some e \<Rightarrow>
           if py_eq (doc_get (with_id i e) f) v
           then op_update_if sqlite_ops c i f v d s = (Inr True, s') \<and> sq_docs c s' = (sq_docs c s)(i \<mapsto> without_id (dict_merge e d))
           else op_update_if sqlite_ops c i f v d s = (Inr False, s') \<and> sq_docs c s' = sq_docs c s
       | None \<Rightarrow> op_update_if sqlite_ops c i f v d s = (Inr False, s') \<and> sq_docs c s' = sq_docs c s)"
  proof (cases "sq_docs c s i")
    case None
    with s1 show ?thesis by (auto simp: sqlite_ops_def sq_update_if_def st_bind_def)
  next
    case (Some e)
    with s1 sq_set_ok [OF s1(2), of i "dict_merge (without_id (with_id i e)) d"] sq_no_id [OF ok Some] show ?thesis
      by (cases "py_eq (doc_get (with_id i e) f) v") (auto simp: sqlite_ops_def sq_update_if_def st_bind_def without_with_id)
  qed
next
  fix s i and deltas :: doc assume ok: "sq_ok c s" and ne: "deltas \<noteq> []"
  obtain s1 where s1: "sq_get c i s = (Inr (map_option (with_id i) (sq_docs c s i)), s1)" "sq_ok c s1" "sq_docs c s1 = sq_docs c s"
    using sq_get_ok [OF ok] by blast
  let ?base = "case sq_docs c s i of None \<Rightarrow> [] | Some e \<Rightarrow> e"
  have run: "sq_increment c i deltas s = st_bind (st_lift (add_deltas ?base deltas)) (\<lambda>b. sq_set c i b) s1"
    using ne s1(1) sq_no_id [OF ok]
    by (cases "sq_docs c s i") (simp_all add: sq_increment_def st_bind_Inr without_with_id)
  show "\<exists>s'. sq_ok c s' \<and>
      (case add_deltas ?base deltas of
         Inl err \<Rightarrow> op_increment sqlite_ops c i deltas s = (Inl err, s') \<and> sq_docs c s' = sq_docs c s
       | Inr b \<Rightarrow> op_increment sqlite_ops c i deltas s = (Inr (), s') \<and> sq_docs c s' = (sq_docs c s)(i \<mapsto> without_id b))"
  proof (cases "add_deltas ?base deltas")
    case (Inl err)
    with run s1 show ?thesis by (auto simp: sqlite_ops_def st_bind_def)
  next
    case (Inr b)
    with run s1 sq_set_ok [OF s1(2), of i b] show ?thesis by (auto simp: sqlite_ops_def st_bind_def)
  qed
qed

lemma sq_run_frame:
  "sq_ok c s \<Longrightarrow> py_lower c' \<noteq> py_lower c \<Longrightarrow> sq_run c' f s = (r, s') \<Longrightarrow> sq_ok c s' \<and> sq_docs c s' = sq_docs c s"
  by (auto simp: sq_run_def sq_ok_def sq_docs_def sq_table_def Let_def split: if_splits prod.splits)

lemma sq_bind_frame:
  assumes "sq_ok c s" "st_bind m f s = (r, s')"
    and "\<And>r1 s1. m s = (r1, s1) \<Longrightarrow> sq_ok c s1 \<and> sq_docs c s1 = sq_docs c s"
    and "\<And>a s1. m s = (Inr a, s1) \<Longrightarrow> sq_ok c s1 \<Longrightarrow> f a s1 = (r, s') \<Longrightarrow> sq_ok c s' \<and> sq_docs c s' = sq_docs c s1"
  shows "sq_ok c s' \<and> sq_docs c s' = sq_docs c s"
proof (cases "m s")
  case (Pair r1 s1)
  note m = assms(3) [OF Pair]
  show ?thesis
  proof (cases r1)
    case (Inl e)
    with assms(2) Pair m show ?thesis by (simp add: st_bind_def)
  next
    case (Inr a)
    with Pair m assms(2,4) show ?thesis by (auto simp: st_bind_def)
  qed
qed

lemma sq_set_frame:
  "sq_ok c s \<Longrightarrow> py_lower c' \<noteq> py_lower c \<Longrightarrow> sq_set c' i d s = (r, s') \<Longrightarrow> sq_ok c s' \<and> sq_docs c s' = sq_docs c s"
  unfolding sq_set_def by (rule sq_run_frame)

interpretation sqlite: framed_store sqlite_ops c "sq_docs c" "sq_ok c" "\<lambda>c'. py_lower c' \<noteq> py_lower c" for c
proof
  fix s c' i r1 s' assume "sq_ok c s" "py_lower c' \<noteq> py_lower c" "op_get sqlite_ops c' i s = (r1, s')"
  then show "sq_ok c s' \<and> sq_docs c s' = sq_docs c s" unfolding sqlite_ops_def by (simp add: sq_get_def sq_run_frame)
next
  fix s c' i d r2 s' assume "sq_ok c s" "py_lower c' \<noteq> py_lower c" "op_set sqlite_ops c' i d s = (r2, s')"
  then show "sq_ok c s' \<and> sq_docs c s' = sq_docs c s" unfolding sqlite_ops_def by (simp add: sq_set_frame)
next
  fix s c' i d r2 s' assume ok: "sq_ok c s" and other: "py_lower c' \<noteq> py_lower c" and run: "op_update sqlite_ops c' i d s = (r2, s')"
  from run have run: "sq_update c' i d s = (r2, s')" by (simp add: sqlite_ops_def)
  show "sq_ok c s' \<and> sq_docs c s' = sq_docs c s"
  proof (rule sq_bind_frame [OF ok run [unfolded sq_update_def]])
    fix r1 s1 assume "sq_get c' i s = (r1, s1)"
    then show "sq_ok c s1 \<and> sq_docs c s1 = sq_docs c s" unfolding sq_get_def by (rule sq_run_frame [OF ok other])
  next
    fix a s1
    assume "sq_ok c s1" and set: "(case a of None \<Rightarrow> sq_set c' i d | Some e \<Rightarrow> sq_set c' i (dict_merge (without_id e) d)) s1 = (r2, s')"
    from set show "sq_ok c s' \<and> sq_docs c s' = sq_docs c s1"
      by (cases a) (simp_all add: sq_set_frame [OF \<open>sq_ok c s1\<close> other])
  qed
next
  fix s c' i r2 s' assume "sq_ok c s" "py_lower c' \<noteq> py_lower c" "op_delete sqlite_ops c' i s = (r2, s')"
  then show "sq_ok c s' \<and> sq_docs c s' = sq_docs c s" unfolding sqlite_ops_def by (simp add: sq_delete_def sq_run_frame)
next
  fix s c' fs o_by desc n r3 s'
  assume ok: "sq_ok c s" and other: "py_lower c' \<noteq> py_lower c" and run: "op_query sqlite_ops c' fs o_by desc n s = (r3, s')"
  from run have run: "sq_query c' fs o_by desc n s = (r3, s')" by (simp add: sqlite_ops_def)
  show "sq_ok c s' \<and> sq_docs c s' = sq_docs c s"
  proof (rule sq_bind_frame [OF ok run [unfolded sq_query_def]])
    fix r1 s1 assume "sq_run c' (\<lambda>t. (t, t)) s = (r1, s1)"
    then show "sq_ok c s1 \<and> sq_docs c s1 = sq_docs c s" by (rule sq_run_frame [OF ok other])
  qed simp
qed

section \<open>Queries that can not raise\<close>

lemma filter_docs_total:
  "(\<And>d. d \<in> set ds \<Longrightarrow> matches_filters d fs = Inr (P d)) \<Longrightarrow> filter_docs fs ds = Inr (filter P ds)"
  by (induction ds) auto

lemma insert_doc_times:
  "\<forall>d\<in>set (d # ds). k d = JTime (f d) \<Longrightarrow> insert_doc k d ds = Inr (insort_key f d ds)"
  by (induction ds) auto

lemma sort_docs_times: "\<forall>d\<in>set ds. k d = JTime (f d) \<Longrightarrow> sort_docs k ds = Inr (sort_key f ds)"
proof (induction ds)
  case Nil
  then show ?case by simp
next
  case (Cons d ds)
  then have "insert_doc k d (sort_key f ds) = Inr (insort_key f d (sort_key f ds))"
    by (intro insert_doc_times) auto
  with Cons show ?case by simp
qed

lemma limit_docs_subset: "set (limit_docs n ds) \<subseteq> set ds"
  by (auto simp: limit_docs_def dest: in_set_takeD split: option.splits nat.splits)

lemma limit_docs_Nil: "limit_docs n ds = [] \<longleftrightarrow> ds = []"
  by (auto simp: limit_docs_def split: option.splits nat.splits)

lemma doc_get_simps [simp]:
  "doc_get [] f = JNull"
  "doc_get ((k, v) # d) f = (if f = k then v else doc_get d f)"
  "doc_get (with_id i d) f = (if f = ''_id'' then JStr i else doc_get d f)"
  "doc_get (without_id d) f = (if f = ''_id'' then JNull else doc_get d f)"
  "doc_get (dict_set d k v) f = (if f = k then v else doc_get d f)"
  by (simp_all add: doc_get_def dict_get_or_def)

lemma doc_get_merge:
  "distinct (dict_keys e) \<Longrightarrow> doc_get (dict_merge d e) f = (case dict_get e f of None \<Rightarrow> doc_get d f | Some v \<Rightarrow> v)"
  by (simp add: doc_get_def dict_get_or_def dict_get_merge split: option.splits)

lemma py_eq_str: "py_eq a (JStr x) \<longleftrightarrow> a = JStr x"
  by (cases a) auto

text \<open>An operator outside the supported set raises only when a document is examined.\<close>

lemma unsupported_operator_ignored:
  "query_docs [] ((f, op, v) # fs) order_by descending n = Inr []"
  by (simp add: query_docs_def order_docs_def limit_docs_def Let_def split: option.split nat.split)

lemma unsupported_operator_raises:
  "op \<notin> set supported_operators \<Longrightarrow> query_docs (r # rows) ((f, op, v) # fs) order_by descending n = Inl (UnsupportedOperator op)"
  by (simp add: query_docs_def split: prod.split)

text \<open>A query whose filter can not raise returns the matching documents of some enumeration.\<close>

definition found :: "(doc \<Rightarrow> bool) \<Rightarrow> (string \<times> doc) list \<Rightarrow> doc list" where
  "found P rows = filter P (map (\<lambda>(i, d). with_id i d) rows)"

lemma found_mem:
  "distinct (map fst rows) \<Longrightarrow> d \<in> set (found P rows) \<longleftrightarrow> (\<exists>i e. map_of rows i = Some e \<and> d = with_id i e \<and> P d)"
  by (auto simp: found_def)

context document_store
begin

lemma query_found:
  assumes "ok s" "\<And>i d. docs s i = Some d \<Longrightarrow> matches_filters (with_id i d) fs = Inr (P (with_id i d))"
  shows "\<exists>rows s'. distinct (map fst rows) \<and> map_of rows = docs s \<and> ok s' \<and> docs s' = docs s \<and>
    op_query ops coll fs order_by descending n s =
      (res_bind (order_docs order_by descending (found P rows)) (\<lambda>os. Inr (limit_docs n os)), s')"
proof -
  obtain rows s' where q: "distinct (map fst rows)" "map_of rows = docs s" "ok s'" "docs s' = docs s"
    "op_query ops coll fs order_by descending n s = (query_docs rows fs order_by descending n, s')"
    using query_law [OF assms(1)] by blast
  have "filter_docs fs (map (\<lambda>(i, d). with_id i d) rows) = Inr (found P rows)"
    unfolding found_def
  proof (rule filter_docs_total)
    fix d assume "d \<in> set (map (\<lambda>(i, d). with_id i d) rows)"
    then obtain i e where "(i, e) \<in> set rows" "d = with_id i e" by auto
    then have "docs s i = Some e" unfolding q(2) [symmetric] using q(1) by simp
    with assms(2) \<open>d = with_id i e\<close> show "matches_filters d fs = Inr (P d)" by simp
  qed
  with q show ?thesis by (auto simp: query_docs_def)
qed

lemma query_status:
  assumes "ok s"
  shows "\<exists>rows s'. distinct (map fst rows) \<and> map_of rows = docs s \<and> ok s' \<and> docs s' = docs s \<and>
    op_query ops coll [(''status'', ''=='', JStr x)] order_by descending n s =
      (res_bind (order_docs order_by descending (found (\<lambda>d. doc_get d ''status'' = JStr x) rows)) (\<lambda>os. Inr (limit_docs n os)), s')"
  using assms by (intro query_found) (auto simp: supported_operators_def clause_holds_def py_eq_str split: bool.split)

end

section \<open>A store inside a larger world\<close>

text \<open>Programs also change what lies outside the store; their operations on the store leave that alone.\<close>

definition lift_op :: "('a, 'b) store_op \<Rightarrow> ('a \<times> 'w, 'b) store_op" where
  "lift_op m sw = (case m (fst sw) of (r, s') \<Rightarrow> (r, (s', snd sw)))"

definition lift_ops :: "'a store_ops \<Rightarrow> ('a \<times> 'w) store_ops" where
  "lift_ops ops =
     \<lparr>op_get = (\<lambda>c i. lift_op (op_get ops c i)), op_set = (\<lambda>c i d. lift_op (op_set ops c i d)),
      op_update = (\<lambda>c i d. lift_op (op_update ops c i d)), op_delete = (\<lambda>c i. lift_op (op_delete ops c i)),
      op_query = (\<lambda>c fs o_by desc n. lift_op (op_query ops c fs o_by desc n)),
      op_increment = (\<lambda>c i d. lift_op (op_increment ops c i d)),
      op_update_if = (\<lambda>c i f v d. lift_op (op_update_if ops c i f v d))\<rparr>"

lemma lift_op_Pair [simp]: "lift_op m (s, w) = (case m s of (r, s') \<Rightarrow> (r, (s', w)))"
  by (simp add: lift_op_def)

lemma lift_ops_sel [simp]:
  "op_get (lift_ops ops) c i = lift_op (op_get ops c i)" "op_set (lift_ops ops) c i d = lift_op (op_set ops c i d)"
  "op_update (lift_ops ops) c i d = lift_op (op_update ops c i d)" "op_delete (lift_ops ops) c i = lift_op (op_delete ops c i)"
  "op_query (lift_ops ops) c fs o_by desc n = lift_op (op_query ops c fs o_by desc n)"
  "op_increment (lift_ops ops) c i d = lift_op (op_increment ops c i d)"
  "op_update_if (lift_ops ops) c i f v d = lift_op (op_update_if ops c i f v d)"
  by (simp_all add: lift_ops_def)

lemma lift_op_ex: "m (fst sw) = (r, s') \<Longrightarrow> lift_op m sw = (r, (s', snd sw))"
  by (simp add: lift_op_def)

context document_store
begin

lemma lifted: "document_store (lift_ops ops) coll (\<lambda>sw :: 's \<times> 'w. docs (fst sw)) (\<lambda>sw. ok (fst sw))"
proof
  fix sw :: "'s \<times> 'w" and i d
  show "ok (fst sw) \<Longrightarrow> docs (fst sw) i = Some d \<Longrightarrow> dict_get d ''_id'' = None" by (rule no_id)
next
  fix sw :: "'s \<times> 'w" and i assume "ok (fst sw)"
  from get_law [OF this, of i] show "\<exists>s'. op_get (lift_ops ops) coll i sw = (Inr (map_option (with_id i) (docs (fst sw) i)), s') \<and> ok (fst s') \<and> docs (fst s') = docs (fst sw)"
    by (auto dest: lift_op_ex)
next
  fix sw :: "'s \<times> 'w" and i d assume "ok (fst sw)"
  from set_law [OF this, of i d] show "\<exists>s'. op_set (lift_ops ops) coll i d sw = (Inr (), s') \<and> ok (fst s') \<and> docs (fst s') = (docs (fst sw))(i \<mapsto> without_id d)"
    by (auto dest: lift_op_ex)
next
  fix sw :: "'s \<times> 'w" and i d assume "ok (fst sw)"
  from update_law [OF this, of i d] show "\<exists>s'. op_update (lift_ops ops) coll i d sw = (Inr (), s') \<and> ok (fst s') \<and>
      docs (fst s') = (docs (fst sw))(i \<mapsto> without_id (case docs (fst sw) i of None \<Rightarrow> d | Some e \<Rightarrow> dict_merge e d))"
    by (auto dest: lift_op_ex)
next
  fix sw :: "'s \<times> 'w" and i assume "ok (fst sw)"
  from delete_law [OF this, of i] show "\<exists>s'. op_delete (lift_ops ops) coll i sw = (Inr (), s') \<and> ok (fst s') \<and> docs (fst s') = (docs (fst sw))(i := None)"
    by (auto dest: lift_op_ex)
next
  fix sw :: "'s \<times> 'w" and fs o_by desc n assume "ok (fst sw)"
  from query_law [OF this, of fs o_by desc n] obtain rows s' where
    "distinct (map fst rows)" "map_of rows = docs (fst sw)" "ok s'" "docs s' = docs (fst sw)"
    "op_query ops coll fs o_by desc n (fst sw) = (query_docs rows fs o_by desc n, s')" by blast
  then show "\<exists>rows s'. distinct (map fst rows) \<and> map_of rows = docs (fst sw) \<and> ok (fst s') \<and> docs (fst s') = docs (fst sw) \<and>
      op_query (lift_ops ops) coll fs o_by desc n sw = (query_docs rows fs o_by desc n, s')"
    by (intro exI [of _ rows] exI [of _ "(s', snd sw)"]) (simp add: lift_op_ex)
next
  fix sw :: "'s \<times> 'w" and i f v d assume "ok (fst sw)"
  from update_if_law [OF this, of i f v d] obtain s' where s': "ok s'"
    "case docs (fst sw) i of
       Some e \<Rightarrow>
         if py_eq (doc_get (with_id i e) f) v
         then op_update_if ops coll i f v d (fst sw) = (Inr True, s') \<and> docs s' = (docs (fst sw))(i \<mapsto> without_id (dict_merge e d))
         else op_update_if ops coll i f v d (fst sw) = (Inr False, s') \<and> docs s' = docs (fst sw)
     | None \<Rightarrow> op_update_if ops coll i f v d (fst sw) = (Inr False, s') \<and> docs s' = docs (fst sw)" by blast
  then show "\<exists>s'. ok (fst s') \<and>
      (case docs (fst sw) i of
         Some e \<Rightarrow>
           if py_eq (doc_get (with_id i e) f) v
           then op_update_if (lift_ops ops) coll i f v d sw = (Inr True, s') \<and> docs (fst s') = (docs (fst sw))(i \<mapsto> without_id (dict_merge e d))
           else op_update_if (lift_ops ops) coll i f v d sw = (Inr False, s') \<and> docs (fst s') = docs (fst sw)
       | None \<Rightarrow> op_update_if (lift_ops ops) coll i f v d sw = (Inr False, s') \<and> docs (fst s') = docs (fst sw))"
    by (intro exI [of _ "(s', snd sw)"]) (auto simp: lift_op_ex split: option.splits if_splits)
next
  fix sw :: "'s \<times> 'w" and i and deltas :: doc assume "ok (fst sw)" "deltas \<noteq> []"
  from increment_law [OF this, of i] obtain s' where "ok s'"
    "case add_deltas (case docs (fst sw) i of None \<Rightarrow> [] | Some e \<Rightarrow> e) deltas of
       Inl err \<Rightarrow> op_increment ops coll i deltas (fst sw) = (Inl err, s') \<and> docs s' = docs (fst sw)
     | Inr b \<Rightarrow> op_increment ops coll i deltas (fst sw) = (Inr (), s') \<and> docs s' = (docs (fst sw))(i \<mapsto> without_id b)" by blast
  then show "\<exists>s'. ok (fst s') \<and>
      (case add_deltas (case docs (fst sw) i of None \<Rightarrow> [] | Some e \<Rightarrow> e) deltas of
         Inl err \<Rightarrow> op_increment (lift_ops ops) coll i deltas sw = (Inl err, s') \<and> docs (fst s') = docs (fst sw)
       | Inr b \<Rightarrow> op_increment (lift_ops ops) coll i deltas sw = (Inr (), s') \<and> docs (fst s') = (docs (fst sw))(i \<mapsto> without_id b))"
    by (intro exI [of _ "(s', snd sw)"]) (auto simp: lift_op_ex split: sum.splits)
qed

end

lemma lift_opD: "lift_op m sw = (r, sw') \<Longrightarrow> m (fst sw) = (r, fst sw')"
  by (auto simp: lift_op_def split: prod.splits)

context framed_store
begin

lemma lifted_frame: "framed_store (lift_ops ops) coll (\<lambda>sw :: 's \<times> 'w. docs (fst sw)) (\<lambda>sw. ok (fst sw)) apart"
proof (intro framed_store.intro lifted framed_store_axioms.intro)
  fix sw sw' :: "'s \<times> 'w" and c i d r1 r2 r3 fs o_by desc n
  assume h: "ok (fst sw)" "apart c"
  show "op_get (lift_ops ops) c i sw = (r1, sw') \<Longrightarrow> ok (fst sw') \<and> docs (fst sw') = docs (fst sw)"
    using frame_get [OF h] by (auto dest: lift_opD)
  show "op_set (lift_ops ops) c i d sw = (r2, sw') \<Longrightarrow> ok (fst sw') \<and> docs (fst sw') = docs (fst sw)"
    using frame_set [OF h] by (auto dest: lift_opD)
  show "op_update (lift_ops ops) c i d sw = (r2, sw') \<Longrightarrow> ok (fst sw') \<and> docs (fst sw') = docs (fst sw)"
    using frame_update [OF h] by (auto dest: lift_opD)
  show "op_delete (lift_ops ops) c i sw = (r2, sw') \<Longrightarrow> ok (fst sw') \<and> docs (fst sw') = docs (fst sw)"
    using frame_delete [OF h] by (auto dest: lift_opD)
  show "op_query (lift_ops ops) c fs o_by desc n sw = (r3, sw') \<Longrightarrow> ok (fst sw') \<and> docs (fst sw') = docs (fst sw)"
    using frame_query [OF h] by (auto dest: lift_opD)
qed

end

interpretation sqlite_world: framed_store "lift_ops sqlite_ops" c "\<lambda>sw. sq_docs c (fst sw)" "\<lambda>sw. sq_ok c (fst sw)"
    "\<lambda>c'. py_lower c' \<noteq> py_lower c" for c
  by (rule sqlite.lifted_frame)

end
