(* ===== verification/MergeQueue.thy ===== *)
theory MergeQueue
  imports DocStore
begin

text \<open>
  The merge queue of Forge (\<open>forge/merge_queue.py\<close>) over a document store: its operations, the
  abstract queue they refine, and the replicas that call \<open>dequeue\<close> concurrently as a step relation
  whose steps are the store operations of the code.
\<close>

section \<open>The operations\<close>

abbreviation merge_queue :: string where
  "merge_queue \<equiv> ''merge_queue''"

text \<open>\<open>_MERGING_TTL\<close>, 30 minutes in microseconds, and \<open>_CANDIDATE_WINDOW\<close>.\<close>

definition merging_ttl :: int where
  "merging_ttl = 30 * 60 * 1000000"

definition candidate_window :: nat where
  "candidate_window = 50"

definition doc_id :: "doc \<Rightarrow> string" where
  "doc_id d = (case doc_get d ''id'' of JStr i \<Rightarrow> i | _ \<Rightarrow> [])"

definition enqueue :: "'s store_ops \<Rightarrow> string \<Rightarrow> int \<Rightarrow> string \<Rightarrow> string \<Rightarrow> int \<Rightarrow> ('s, string) store_op" where
  "enqueue ops entry_id now pr_url tid prio =
     st_bind (op_set ops merge_queue entry_id
        [(''id'', JStr entry_id), (''pr_url'', JStr pr_url), (''task_id'', JStr tid), (''status'', JStr ''pending''),
         (''created_at'', JTime now), (''priority'', JInt prio), (''error'', JNull)])
       (\<lambda>_. st_return entry_id)"

definition expire_stale_merging :: "'s store_ops \<Rightarrow> int \<Rightarrow> ('s, nat) store_op" where
  "expire_stale_merging ops now =
     st_bind (op_query ops merge_queue
        [(''status'', ''=='', JStr ''merging''), (''merging_started_at'', ''<'', JTime (now - merging_ttl))] None False None)
       (\<lambda>stale. st_bind (st_map (\<lambda>d. op_update ops merge_queue (doc_id d)
            [(''status'', JStr ''failed''), (''error'', JStr ''Merge TTL exceeded (0:30:00)'')]) stale)
          (\<lambda>_. st_return (length stale)))"

definition merge_in_progress :: "'s store_ops \<Rightarrow> ('s, bool) store_op" where
  "merge_in_progress ops =
     st_bind (op_query ops merge_queue [(''status'', ''=='', JStr ''merging'')] None False (Some 1))
       (\<lambda>ds. st_return (ds \<noteq> []))"

definition doc_priority :: "doc \<Rightarrow> int" where
  "doc_priority d = (case doc_get d ''priority'' of JInt p \<Rightarrow> p | _ \<Rightarrow> 0)"

definition next_candidate :: "'s store_ops \<Rightarrow> ('s, doc option) store_op" where
  "next_candidate ops =
     st_bind (op_query ops merge_queue [(''status'', ''=='', JStr ''pending'')] (Some ''created_at'') False (Some candidate_window))
       (\<lambda>ds. st_return (if ds = [] then None else Some (hd (sort_key (\<lambda>d. - doc_priority d) ds))))"

definition claim_entry :: "'s store_ops \<Rightarrow> string \<Rightarrow> int \<Rightarrow> ('s, bool) store_op" where
  "claim_entry ops i claimed_at =
     op_update_if ops merge_queue i ''status'' (JStr ''pending'')
       [(''status'', JStr ''merging''), (''merging_started_at'', JTime claimed_at)]"

text \<open>\<open>(str(started or ""), str(id)) < (claimed_at, entry_id)\<close>.\<close>

definition rival_before :: "int \<Rightarrow> string \<Rightarrow> doc \<Rightarrow> bool" where
  "rival_before claimed_at i d =
     (doc_id d \<noteq> i \<and>
      (case doc_get d ''merging_started_at'' of
         JTime t \<Rightarrow> t < claimed_at \<or> (t = claimed_at \<and> doc_id d < i)
       | _ \<Rightarrow> True))"

definition confirm_sole_claim :: "'s store_ops \<Rightarrow> string \<Rightarrow> int \<Rightarrow> ('s, bool) store_op" where
  "confirm_sole_claim ops i claimed_at =
     st_bind (op_query ops merge_queue [(''status'', ''=='', JStr ''merging'')] None False None) (\<lambda>ds.
       if filter (rival_before claimed_at i) ds = [] then st_return True
       else st_bind (op_update ops merge_queue i [(''status'', JStr ''pending''), (''merging_started_at'', JNull)])
              (\<lambda>_. st_return False))"

definition dequeue :: "'s store_ops \<Rightarrow> int \<Rightarrow> int \<Rightarrow> ('s, doc option) store_op" where
  "dequeue ops now claimed_at =
     st_bind (expire_stale_merging ops now) (\<lambda>_.
     st_bind (merge_in_progress ops) (\<lambda>busy.
     if busy then st_return None
     else st_bind (next_candidate ops) (\<lambda>c. case c of
            None \<Rightarrow> st_return None
          | Some d \<Rightarrow>
              st_bind (claim_entry ops (doc_id d) claimed_at) (\<lambda>claimed.
              if \<not> claimed then st_return None
              else st_bind (confirm_sole_claim ops (doc_id d) claimed_at) (\<lambda>sole.
                   st_return (if sole
                     then Some (dict_merge d [(''status'', JStr ''merging''), (''merging_started_at'', JTime claimed_at)])
                     else None))))))"

definition mark_merged :: "'s store_ops \<Rightarrow> string \<Rightarrow> ('s, unit) store_op" where
  "mark_merged ops i = op_update ops merge_queue i [(''status'', JStr ''merged'')]"

definition mark_failed :: "'s store_ops \<Rightarrow> string \<Rightarrow> string \<Rightarrow> ('s, unit) store_op" where
  "mark_failed ops i err = op_update ops merge_queue i [(''status'', JStr ''failed''), (''error'', JStr err)]"

definition get_queue_length :: "'s store_ops \<Rightarrow> ('s, nat) store_op" where
  "get_queue_length ops =
     st_bind (op_query ops merge_queue [(''status'', ''=='', JStr ''pending'')] None False None) (\<lambda>ds. st_return (length ds))"

definition get_queue :: "'s store_ops \<Rightarrow> ('s, doc list) store_op" where
  "get_queue ops = op_query ops merge_queue [] (Some ''created_at'') False None"

section \<open>The abstract queue\<close>

datatype entry_status = QPending | QMerging int | QMerged | QFailed

record qentry =
  q_status :: entry_status
  q_created :: int
  q_priority :: int

type_synonym queue = "string \<Rightarrow> qentry option"

text \<open>The entry a document stands for; \<open>None\<close> when it is not a document the queue writes.\<close>

definition status_of_doc :: "doc \<Rightarrow> entry_status option" where
  "status_of_doc d =
     (if doc_get d ''status'' = JStr ''pending'' then Some QPending
      else if doc_get d ''status'' = JStr ''merged'' then Some QMerged
      else if doc_get d ''status'' = JStr ''failed'' then Some QFailed
      else if doc_get d ''status'' = JStr ''merging''
      then (case doc_get d ''merging_started_at'' of JTime t \<Rightarrow> Some (QMerging t) | _ \<Rightarrow> None)
      else None)"

definition entry_of_doc :: "doc \<Rightarrow> qentry option" where
  "entry_of_doc d =
     (case (status_of_doc d, doc_get d ''created_at'', doc_get d ''priority'') of
        (Some st, JTime t, JInt p) \<Rightarrow> Some \<lparr>q_status = st, q_created = t, q_priority = p\<rparr>
      | _ \<Rightarrow> None)"

definition abs_queue :: "(string \<Rightarrow> doc option) \<Rightarrow> queue" where
  "abs_queue docs i = (case docs i of None \<Rightarrow> None | Some d \<Rightarrow> entry_of_doc d)"

definition queue_docs :: "(string \<Rightarrow> doc option) \<Rightarrow> bool" where
  "queue_docs docs \<longleftrightarrow> (\<forall>i d. docs i = Some d \<longrightarrow> doc_get d ''id'' = JStr i \<and> entry_of_doc d \<noteq> None)"

definition has_status :: "(entry_status \<Rightarrow> bool) \<Rightarrow> queue \<Rightarrow> string \<Rightarrow> bool" where
  "has_status P q i \<longleftrightarrow> (\<exists>e. q i = Some e \<and> P (q_status e))"

definition is_merging :: "entry_status \<Rightarrow> bool" where
  "is_merging st \<longleftrightarrow> (\<exists>t. st = QMerging t)"

definition q_put :: "string \<Rightarrow> entry_status \<Rightarrow> queue \<Rightarrow> queue" where
  "q_put i st q = (case q i of None \<Rightarrow> q | Some e \<Rightarrow> q(i \<mapsto> e\<lparr>q_status := st\<rparr>))"

definition q_expire :: "int \<Rightarrow> queue \<Rightarrow> queue" where
  "q_expire now q i =
     (case q i of
        Some e \<Rightarrow> (case q_status e of
            QMerging t \<Rightarrow> Some (if t < now - merging_ttl then e\<lparr>q_status := QFailed\<rparr> else e)
          | _ \<Rightarrow> Some e)
      | None \<Rightarrow> None)"

text \<open>
  The candidates: the pending entries oldest first (in some order of equal times), cut to the window;
  the first of the highest priority is picked.
\<close>

definition picks :: "queue \<Rightarrow> string \<Rightarrow> bool" where
  "picks q i \<longleftrightarrow>
     (\<exists>xs. distinct xs \<and> set xs = {j. has_status ((=) QPending) q j} \<and> sorted (map (\<lambda>j. q_created (the (q j))) xs) \<and>
        xs \<noteq> [] \<and> i = hd (sort_key (\<lambda>j. - q_priority (the (q j))) (take candidate_window xs)))"

definition sole_claim :: "string \<Rightarrow> int \<Rightarrow> queue \<Rightarrow> bool" where
  "sole_claim i claimed_at q \<longleftrightarrow>
     (\<forall>j e t. q j = Some e \<and> q_status e = QMerging t \<and> j \<noteq> i \<longrightarrow> \<not> (t < claimed_at \<or> (t = claimed_at \<and> j < i)))"

section \<open>The operations refine the abstract queue\<close>

text \<open>A field update that keeps the entry apart from its status.\<close>

definition status_update :: "doc \<Rightarrow> entry_status \<Rightarrow> bool" where
  "status_update u st \<longleftrightarrow>
     (\<forall>e. entry_of_doc e \<noteq> None \<longrightarrow>
        doc_get (dict_merge e u) ''id'' = doc_get e ''id'' \<and> doc_get (dict_merge e u) ''created_at'' = doc_get e ''created_at'' \<and>
        doc_get (dict_merge e u) ''priority'' = doc_get e ''priority'' \<and> status_of_doc (dict_merge e u) = Some st)"

lemma status_updates:
  "status_update [(''status'', JStr ''merging''), (''merging_started_at'', JTime t)] (QMerging t)"
  "status_update [(''status'', JStr ''pending''), (''merging_started_at'', JNull)] QPending"
  "status_update [(''status'', JStr ''failed''), (''error'', JStr err)] QFailed"
  "status_update [(''status'', JStr ''merged'')] QMerged"
  by (simp_all add: status_update_def status_of_doc_def)

lemma status_update_entry:
  assumes "status_update u st" "entry_of_doc e = Some x"
  shows "entry_of_doc (without_id (dict_merge e u)) = Some (x\<lparr>q_status := st\<rparr>)"
    "doc_get (without_id (dict_merge e u)) ''id'' = doc_get e ''id''"
proof -
  from assms have u: "doc_get (dict_merge e u) ''id'' = doc_get e ''id''" "doc_get (dict_merge e u) ''created_at'' = doc_get e ''created_at''"
    "doc_get (dict_merge e u) ''priority'' = doc_get e ''priority''" "status_of_doc (dict_merge e u) = Some st"
    by (auto simp: status_update_def)
  have "status_of_doc (without_id d) = status_of_doc d" for d
    by (simp add: status_of_doc_def)
  with u assms(2) show "entry_of_doc (without_id (dict_merge e u)) = Some (x\<lparr>q_status := st\<rparr>)"
    by (auto simp: entry_of_doc_def split: option.splits json.splits)
  show "doc_get (without_id (dict_merge e u)) ''id'' = doc_get e ''id''" using u by simp
qed

lemma abs_queue_entry:
  "queue_docs docs \<Longrightarrow> docs i = Some d \<Longrightarrow> \<exists>x. entry_of_doc d = Some x \<and> abs_queue docs i = Some x \<and> doc_get d ''id'' = JStr i"
  by (auto simp: queue_docs_def abs_queue_def)

lemma abs_queue_dom: "queue_docs docs \<Longrightarrow> abs_queue docs i = None \<longleftrightarrow> docs i = None"
  by (auto simp: queue_docs_def abs_queue_def split: option.splits)

lemma entry_status_string:
  "entry_of_doc d = Some x \<Longrightarrow> doc_get d ''status'' = JStr ''merging'' \<longleftrightarrow> is_merging (q_status x)"
  "entry_of_doc d = Some x \<Longrightarrow> doc_get d ''status'' = JStr ''pending'' \<longleftrightarrow> q_status x = QPending"
  by (auto simp: entry_of_doc_def status_of_doc_def is_merging_def split: option.splits json.splits if_splits)

lemma entry_with_id [simp]: "entry_of_doc (with_id i d) = entry_of_doc d"
  by (simp add: entry_of_doc_def status_of_doc_def)

lemma doc_id_found: "queue_docs docs \<Longrightarrow> docs i = Some d \<Longrightarrow> doc_id (with_id i d) = i"
  by (auto simp: queue_docs_def doc_id_def)

text \<open>The documents a query returns, by id.\<close>

lemma found_ids:
  assumes "distinct (map fst rows)" "map_of rows = docs" "queue_docs docs"
  shows "distinct (map doc_id (found P rows))"
    "doc_id ` set (found P rows) = {i. \<exists>d. docs i = Some d \<and> P (with_id i d)}"
    "d \<in> set (found P rows) \<Longrightarrow> \<exists>e. docs (doc_id d) = Some e \<and> d = with_id (doc_id d) e \<and> P d"
proof -
  have row: "docs i = Some d" if "(i, d) \<in> set rows" for i d
    using that assms(1) unfolding assms(2) [symmetric] by simp
  have ids: "map doc_id (map (\<lambda>(i, d). with_id i d) rows) = map fst rows"
    unfolding map_map map_eq_conv by (auto simp: doc_id_found [OF assms(3) row])
  have "distinct (map doc_id (map (\<lambda>(i, d). with_id i d) rows))" unfolding ids by (rule assms(1))
  then have "distinct (map doc_id (filter P (map (\<lambda>(i, d). with_id i d) rows)))" by (rule distinct_map_filter)
  then show "distinct (map doc_id (found P rows))" by (simp add: found_def)
  have mem: "d \<in> set (found P rows) \<longleftrightarrow> (\<exists>i e. docs i = Some e \<and> d = with_id i e \<and> P d)" for d
    using found_mem [OF assms(1)] assms(2) by simp
  show "doc_id ` set (found P rows) = {i. \<exists>d. docs i = Some d \<and> P (with_id i d)}"
  proof -
    have "x \<in> doc_id ` set (found P rows) \<longleftrightarrow> (\<exists>i e. docs i = Some e \<and> P (with_id i e) \<and> x = doc_id (with_id i e))" for x
      unfolding image_iff Bex_def mem by blast
    moreover have "(\<exists>i e. docs i = Some e \<and> P (with_id i e) \<and> x = doc_id (with_id i e)) \<longleftrightarrow> (\<exists>d. docs x = Some d \<and> P (with_id x d))" for x
      by (metis doc_id_found [OF assms(3)])
    ultimately show ?thesis by blast
  qed
  show "d \<in> set (found P rows) \<Longrightarrow> \<exists>e. docs (doc_id d) = Some e \<and> d = with_id (doc_id d) e \<and> P d"
    using doc_id_found [OF assms(3)] by (auto simp: mem)
qed

lemma insort_key_map: "map f (insort_key (\<lambda>x. g (f x)) x xs) = insort_key g (f x) (map f xs)"
  by (induction xs) auto

lemma sort_key_map: "map f (sort_key (\<lambda>x. g (f x)) xs) = sort_key g (map f xs)"
  by (induction xs) (simp_all add: insort_key_map)

lemma sort_key_Nil [simp]: "sort_key f xs = [] \<longleftrightarrow> xs = []"
  using set_sort [of f xs] by (metis set_empty)

lemma sort_key_eq: "(\<And>x. x \<in> set xs \<Longrightarrow> f x = g x) \<Longrightarrow> sort_key f xs = sort_key g xs"
proof (induction xs)
  case Nil
  then show ?case by simp
next
  case (Cons x xs)
  have "insort_key f x ys = insort_key g x ys" if "\<forall>y\<in>set (x # ys). f y = g y" for ys
    using that by (induction ys) auto
  with Cons show ?case by simp
qed

lemma fold_put:
  "fold (\<lambda>d. q_put (f d) st) ds q = (\<lambda>i. if i \<in> f ` set ds then map_option (\<lambda>e. e\<lparr>q_status := st\<rparr>) (q i) else q i)"
proof (induction ds arbitrary: q)
  case Nil
  then show ?case by simp
next
  case (Cons d ds)
  show ?case
    unfolding fold.simps comp_def Cons.IH by (rule ext) (auto simp: q_put_def split: option.splits)
qed

lemma picks_pending: "picks q i \<Longrightarrow> has_status ((=) QPending) q i"
proof -
  assume "picks q i"
  then obtain xs where xs: "xs \<noteq> []" "set xs = {j. has_status ((=) QPending) q j}"
    "i = hd (sort_key (\<lambda>j. - q_priority (the (q j))) (take candidate_window xs))"
    by (auto simp: picks_def)
  have "sort_key (\<lambda>j. - q_priority (the (q j))) (take candidate_window xs) \<noteq> []"
    using xs(1) by (simp add: candidate_window_def)
  then have "i \<in> set (take candidate_window xs)" unfolding xs(3) by (metis hd_in_set set_sort)
  then show ?thesis using xs(2) by (auto dest: in_set_takeD)
qed

lemma expired_pending: "has_status ((=) QPending) (q_expire now q) i \<longleftrightarrow> has_status ((=) QPending) q i"
  by (auto simp: has_status_def q_expire_def split: option.splits entry_status.splits)

locale merge_store = document_store ops merge_queue docs ok
  for ops :: "'s store_ops" and docs :: "'s \<Rightarrow> string \<Rightarrow> doc option" and ok :: "'s \<Rightarrow> bool"
begin

definition good :: "'s \<Rightarrow> bool" where
  "good s \<longleftrightarrow> ok s \<and> queue_docs (docs s)"

definition queue_of :: "'s \<Rightarrow> queue" where
  "queue_of s = abs_queue (docs s)"

lemma update_refines:
  assumes "good s" "status_update u st" "queue_of s i \<noteq> None"
  shows "\<exists>s'. op_update ops merge_queue i u s = (Inr (), s') \<and> good s' \<and> queue_of s' = q_put i st (queue_of s)"
proof -
  from assms(1,3) obtain e where e: "docs s i = Some e"
    by (auto simp: good_def queue_of_def abs_queue_def split: option.splits)
  obtain x where x: "entry_of_doc e = Some x" "abs_queue (docs s) i = Some x" "doc_get e ''id'' = JStr i"
    using abs_queue_entry [of "docs s" i e] e assms(1) by (auto simp: good_def)
  note new = status_update_entry [OF assms(2) x(1)]
  obtain s' where s': "op_update ops merge_queue i u s = (Inr (), s')" "ok s'" "docs s' = (docs s)(i \<mapsto> without_id (dict_merge e u))"
    using update_law [of s i u] assms(1) e by (auto simp: good_def)
  have "queue_docs (docs s')"
    unfolding s'(3) using assms(1) new x(3) by (auto simp: queue_docs_def good_def)
  moreover have "queue_of s' = q_put i st (queue_of s)"
    by (rule ext) (auto simp: queue_of_def abs_queue_def s'(3) q_put_def new e x)
  ultimately show ?thesis using s' by (auto simp: good_def)
qed

lemma query_refines:
  assumes "good s"
  shows "\<exists>rows s'. distinct (map fst rows) \<and> map_of rows = docs s \<and> good s' \<and> queue_of s' = queue_of s \<and>
    op_query ops merge_queue [(''status'', ''=='', JStr x)] order_by descending n s =
      (res_bind (order_docs order_by descending (found (\<lambda>d. doc_get d ''status'' = JStr x) rows)) (\<lambda>os. Inr (limit_docs n os)), s')"
  using query_status [of s x order_by descending n] assms unfolding good_def queue_of_def by metis

lemma enqueue_refines:
  assumes "good s"
  shows "\<exists>s'. enqueue ops i now url tid prio s = (Inr i, s') \<and> good s' \<and>
    queue_of s' = (queue_of s)(i \<mapsto> \<lparr>q_status = QPending, q_created = now, q_priority = prio\<rparr>)"
proof -
  let ?d = "[(''id'', JStr i), (''pr_url'', JStr url), (''task_id'', JStr tid), (''status'', JStr ''pending''),
    (''created_at'', JTime now), (''priority'', JInt prio), (''error'', JNull)]"
  obtain s' where s': "op_set ops merge_queue i ?d s = (Inr (), s')" "ok s'" "docs s' = (docs s)(i \<mapsto> without_id ?d)"
    using set_law [of s i ?d] assms by (auto simp: good_def)
  have e: "entry_of_doc (without_id ?d) = Some \<lparr>q_status = QPending, q_created = now, q_priority = prio\<rparr>"
    by (simp add: entry_of_doc_def status_of_doc_def)
  have "queue_docs (docs s')"
    unfolding s'(3) using assms e by (auto simp: queue_docs_def good_def)
  moreover have "queue_of s' = (queue_of s)(i \<mapsto> \<lparr>q_status = QPending, q_created = now, q_priority = prio\<rparr>)"
    by (rule ext) (auto simp: queue_of_def abs_queue_def s'(3) e)
  ultimately show ?thesis using s' by (auto simp: good_def enqueue_def st_bind_def)
qed

lemma claim_refines:
  "refines good queue_of (claim_entry ops i ts)
     (\<lambda>q b q'. b = has_status ((=) QPending) q i \<and> q' = (if b then q_put i (QMerging ts) q else q))"
  unfolding refines_def
proof (intro allI impI)
  fix s assume good: "good s"
  let ?u = "[(''status'', JStr ''merging''), (''merging_started_at'', JTime ts)]"
  show "\<exists>b s'. claim_entry ops i ts s = (Inr b, s') \<and> good s' \<and> b = has_status ((=) QPending) (queue_of s) i \<and>
      queue_of s' = (if b then q_put i (QMerging ts) (queue_of s) else queue_of s)"
  proof (cases "docs s i")
    case None
    then obtain s' where s': "ok s'" "op_update_if ops merge_queue i ''status'' (JStr ''pending'') ?u s = (Inr False, s')" "docs s' = docs s"
      using update_if_law [of s i "''status''" "JStr ''pending''" ?u] good by (auto simp: good_def)
    with None good have "\<not> has_status ((=) QPending) (queue_of s) i" "good s'" "queue_of s' = queue_of s"
      by (simp_all add: good_def queue_of_def has_status_def abs_queue_def)
    with s'(2) show ?thesis unfolding claim_entry_def by (intro exI [of _ False] exI [of _ s']) simp
  next
    case (Some e)
    obtain x where x: "entry_of_doc e = Some x" "abs_queue (docs s) i = Some x" "doc_get e ''id'' = JStr i"
      using abs_queue_entry [of "docs s" i e] Some good by (auto simp: good_def)
    show ?thesis
    proof (cases "q_status x = QPending")
      case True
      then have p: "doc_get e ''status'' = JStr ''pending''" using entry_status_string(2) [OF x(1)] by simp
      obtain s' where s': "op_update_if ops merge_queue i ''status'' (JStr ''pending'') ?u s = (Inr True, s')" "ok s'"
        "docs s' = (docs s)(i \<mapsto> without_id (dict_merge e ?u))"
        using update_if_law [of s i "''status''" "JStr ''pending''" ?u] good Some p by (auto simp: good_def)
      note new = status_update_entry [OF status_updates(1) x(1)]
      have "queue_docs (docs s')"
        unfolding s'(3) using good new x(3) by (auto simp: queue_docs_def good_def simp del: dict_merge_Cons)
      moreover have "queue_of s' = q_put i (QMerging ts) (queue_of s)"
        by (rule ext) (auto simp: queue_of_def abs_queue_def s'(3) q_put_def new Some x simp del: dict_merge_Cons)
      moreover have "has_status ((=) QPending) (queue_of s) i" using x True by (simp add: has_status_def queue_of_def)
      ultimately show ?thesis using s' unfolding claim_entry_def good_def by auto
    next
      case False
      then have "doc_get e ''status'' \<noteq> JStr ''pending''" using entry_status_string(2) [OF x(1)] by simp
      then obtain s' where s': "ok s'" "op_update_if ops merge_queue i ''status'' (JStr ''pending'') ?u s = (Inr False, s')" "docs s' = docs s"
        using update_if_law [of s i "''status''" "JStr ''pending''" ?u] good Some by (auto simp: good_def py_eq_str)
      with False x good have "\<not> has_status ((=) QPending) (queue_of s) i" "good s'" "queue_of s' = queue_of s"
        by (auto simp: good_def queue_of_def has_status_def)
      with s'(2) show ?thesis unfolding claim_entry_def by (intro exI [of _ False] exI [of _ s']) simp
    qed
  qed
qed

lemma status_ids:
  assumes "good s"
  shows "{i. \<exists>d. docs s i = Some d \<and> doc_get (with_id i d) ''status'' = JStr ''merging''} = {i. has_status is_merging (queue_of s) i}"
    "{i. \<exists>d. docs s i = Some d \<and> doc_get (with_id i d) ''status'' = JStr ''pending''} = {i. has_status ((=) QPending) (queue_of s) i}"
proof -
  have "((\<exists>d. docs s i = Some d \<and> doc_get (with_id i d) ''status'' = JStr ''merging'') \<longleftrightarrow> has_status is_merging (queue_of s) i) \<and>
    ((\<exists>d. docs s i = Some d \<and> doc_get (with_id i d) ''status'' = JStr ''pending'') \<longleftrightarrow> has_status ((=) QPending) (queue_of s) i)" for i
  proof (cases "docs s i")
    case None
    then show ?thesis by (simp add: has_status_def queue_of_def abs_queue_def)
  next
    case (Some d)
    then obtain x where "entry_of_doc d = Some x" "queue_of s i = Some x"
      using abs_queue_entry [of "docs s" i d] assms by (auto simp: good_def queue_of_def)
    with entry_status_string [of d x] Some show ?thesis by (auto simp: has_status_def)
  qed
  then show "{i. \<exists>d. docs s i = Some d \<and> doc_get (with_id i d) ''status'' = JStr ''merging''} = {i. has_status is_merging (queue_of s) i}"
    "{i. \<exists>d. docs s i = Some d \<and> doc_get (with_id i d) ''status'' = JStr ''pending''} = {i. has_status ((=) QPending) (queue_of s) i}"
    by simp_all
qed

lemma in_progress_refines:
  "refines good queue_of (merge_in_progress ops) (\<lambda>q b q'. q' = q \<and> b = (\<exists>i. has_status is_merging q i))"
  unfolding refines_def
proof (intro allI impI)
  fix s assume good: "good s"
  obtain rows s' where q: "distinct (map fst rows)" "map_of rows = docs s" "good s'" "queue_of s' = queue_of s"
    "op_query ops merge_queue [(''status'', ''=='', JStr ''merging'')] None False (Some 1) s =
      (res_bind (order_docs None False (found (\<lambda>d. doc_get d ''status'' = JStr ''merging'') rows)) (\<lambda>os. Inr (limit_docs (Some 1) os)), s')"
    using query_refines [OF good, of "''merging''" None False "Some 1"] by blast
  let ?ds = "found (\<lambda>d. doc_get d ''status'' = JStr ''merging'') rows"
  have qd: "queue_docs (docs s)" using good by (simp add: good_def)
  have "doc_id ` set ?ds = {i. has_status is_merging (queue_of s) i}"
    unfolding found_ids(2) [OF q(1,2) qd] by (rule status_ids(1) [OF good])
  then have "?ds \<noteq> [] \<longleftrightarrow> (\<exists>i. has_status is_merging (queue_of s) i)"
    by (cases ?ds) auto
  with q show "\<exists>b s'. merge_in_progress ops s = (Inr b, s') \<and> good s' \<and> queue_of s' = queue_of s \<and> b = (\<exists>i. has_status is_merging (queue_of s) i)"
    by (auto simp: merge_in_progress_def st_bind_def order_docs_def limit_docs_Nil)
qed

lemma expire_all:
  "good s \<Longrightarrow> \<forall>d\<in>set ds. queue_of s (doc_id d) \<noteq> None \<Longrightarrow>
     \<exists>s'. st_map (\<lambda>d. op_update ops merge_queue (doc_id d) [(''status'', JStr ''failed''), (''error'', JStr err)]) ds s = (Inr (), s') \<and>
       good s' \<and> queue_of s' = fold (\<lambda>d. q_put (doc_id d) QFailed) ds (queue_of s)"
proof (induction ds arbitrary: s)
  case Nil
  then show ?case by auto
next
  case (Cons d ds)
  then obtain s1 where s1: "op_update ops merge_queue (doc_id d) [(''status'', JStr ''failed''), (''error'', JStr err)] s = (Inr (), s1)"
    "good s1" "queue_of s1 = q_put (doc_id d) QFailed (queue_of s)"
    using update_refines [OF Cons.prems(1) status_updates(3), of "doc_id d" err] Cons.prems(2) by auto
  have "\<forall>e\<in>set ds. queue_of s1 (doc_id e) \<noteq> None"
    using Cons.prems(2) by (auto simp: s1(3) q_put_def split: option.splits)
  with Cons.IH [OF s1(2)] s1 show ?case by (auto simp: st_bind_def)
qed

lemma expire_refines:
  "refines good queue_of (expire_stale_merging ops now) (\<lambda>q n q'. q' = q_expire now q)"
  unfolding refines_def
proof (intro allI impI)
  fix s assume good: "good s"
  let ?c = "now - merging_ttl"
  let ?P = "\<lambda>d. doc_get d ''status'' = JStr ''merging'' \<and> (case doc_get d ''merging_started_at'' of JTime t \<Rightarrow> t < ?c | _ \<Rightarrow> False)"
  let ?fs = "[(''status'', ''=='', JStr ''merging''), (''merging_started_at'', ''<'', JTime ?c)]"
  have started: "\<exists>t. doc_get d ''merging_started_at'' = JTime t \<and> queue_of s i = Some x \<and> q_status x = QMerging t"
    if "docs s i = Some d" "doc_get d ''status'' = JStr ''merging''" "entry_of_doc d = Some x" for i d x
    using that by (auto simp: queue_of_def abs_queue_def entry_of_doc_def status_of_doc_def split: option.splits json.splits)
  have entry: "\<exists>x. entry_of_doc d = Some x \<and> queue_of s i = Some x" if "docs s i = Some d" for i d
    using abs_queue_entry [of "docs s" i d] that good by (auto simp: good_def queue_of_def)
  have match: "matches_filters (with_id i d) ?fs = Inr (?P (with_id i d))" if d: "docs s i = Some d" for i d
  proof -
    obtain x where "entry_of_doc d = Some x" "queue_of s i = Some x" using entry [OF d] by blast
    with started [OF d] show ?thesis
      by (auto simp: supported_operators_def clause_holds_def py_eq_str present_and_def split: bool.split)
  qed
  obtain rows s1 where q: "distinct (map fst rows)" "map_of rows = docs s" "ok s1" "docs s1 = docs s"
    "op_query ops merge_queue ?fs None False None s = (Inr (found ?P rows), s1)"
    using query_found [of s ?fs ?P None False None] good match by (auto simp: good_def order_docs_def limit_docs_def)
  have s1: "good s1" "queue_of s1 = queue_of s" using good q(3,4) by (simp_all add: good_def queue_of_def)
  have qd: "queue_docs (docs s)" using good by (simp add: good_def)
  note ids = found_ids [OF q(1,2) qd, where P = ?P]
  have "\<forall>d\<in>set (found ?P rows). queue_of s1 (doc_id d) \<noteq> None"
  proof
    fix d assume "d \<in> set (found ?P rows)"
    then obtain e where "docs s (doc_id d) = Some e" using ids(3) by blast
    from entry [OF this] s1(2) show "queue_of s1 (doc_id d) \<noteq> None" by auto
  qed
  from expire_all [OF s1(1) this, of "''Merge TTL exceeded (0:30:00)''", unfolded s1(2)]
  obtain s2 where s2: "st_map (\<lambda>d. op_update ops merge_queue (doc_id d)
      [(''status'', JStr ''failed''), (''error'', JStr ''Merge TTL exceeded (0:30:00)'')]) (found ?P rows) s1 = (Inr (), s2)"
    "good s2" "queue_of s2 = fold (\<lambda>d. q_put (doc_id d) QFailed) (found ?P rows) (queue_of s)"
    by blast
  have stale: "i \<in> doc_id ` set (found ?P rows) \<longleftrightarrow> (\<exists>x t. queue_of s i = Some x \<and> q_status x = QMerging t \<and> t < ?c)" for i
  proof (cases "docs s i")
    case None
    then show ?thesis unfolding ids(2) by (auto simp: queue_of_def abs_queue_def)
  next
    case (Some d)
    obtain x where x: "entry_of_doc d = Some x" "queue_of s i = Some x" using entry [OF Some] by blast
    have "doc_get d ''merging_started_at'' = JTime t" if "q_status x = QMerging t" for t
      using started [OF Some _ x(1)] x entry_status_string(1) [OF x(1)] that by (auto simp: is_merging_def)
    then show ?thesis
      unfolding ids(2) using Some x started [OF Some _ x(1)] entry_status_string(1) [OF x(1)]
      by (cases "q_status x") (auto simp: is_merging_def)
  qed
  have "queue_of s2 = q_expire now (queue_of s)"
  proof (rule ext)
    fix i
    show "queue_of s2 i = q_expire now (queue_of s) i"
      unfolding s2(3) fold_put q_expire_def
      using stale [of i] by (auto split: option.splits entry_status.splits)
  qed
  with q(5) s2 show "\<exists>n s'. expire_stale_merging ops now s = (Inr n, s') \<and> good s' \<and> queue_of s' = q_expire now (queue_of s)"
    by (auto simp: expire_stale_merging_def st_bind_def)
qed

lemma candidate_refines:
  "refines good queue_of (next_candidate ops)
     (\<lambda>q r q'. q' = q \<and> (case r of None \<Rightarrow> \<forall>i. \<not> has_status ((=) QPending) q i | Some d \<Rightarrow> picks q (doc_id d)))"
  unfolding refines_def
proof (intro allI impI)
  fix s assume good: "good s"
  let ?q = "queue_of s"
  let ?created = "\<lambda>d. q_created (the (?q (doc_id d)))" and ?prio = "\<lambda>d. - q_priority (the (?q (doc_id d)))"
  obtain rows s' where q: "distinct (map fst rows)" "map_of rows = docs s" "good s'" "queue_of s' = ?q"
    "op_query ops merge_queue [(''status'', ''=='', JStr ''pending'')] (Some ''created_at'') False (Some candidate_window) s =
      (res_bind (order_docs (Some ''created_at'') False (found (\<lambda>d. doc_get d ''status'' = JStr ''pending'') rows))
        (\<lambda>os. Inr (limit_docs (Some candidate_window) os)), s')"
    using query_refines [OF good, of "''pending''" "Some ''created_at''" False "Some candidate_window"] by blast
  let ?ds = "found (\<lambda>d. doc_get d ''status'' = JStr ''pending'') rows"
  have qd: "queue_docs (docs s)" using good by (simp add: good_def)
  note ids = found_ids [OF q(1,2) qd, where P = "\<lambda>d. doc_get d ''status'' = JStr ''pending''"]
  have fields: "dict_get_or d ''created_at'' (JStr []) = JTime (?created d) \<and> - doc_priority d = ?prio d" if "d \<in> set ?ds" for d
  proof -
    from ids(3) [OF that] obtain e where e: "docs s (doc_id d) = Some e" "d = with_id (doc_id d) e" by blast
    obtain x where x: "entry_of_doc e = Some x" "?q (doc_id d) = Some x"
      using abs_queue_entry [OF qd e(1)] by (auto simp: queue_of_def)
    have "doc_get e ''created_at'' = JTime (q_created x)" "doc_get e ''priority'' = JInt (q_priority x)"
      using x(1) by (auto simp: entry_of_doc_def split: option.splits json.splits)
    then have "doc_get d ''created_at'' = JTime (q_created x)" "doc_get d ''priority'' = JInt (q_priority x)"
      by (subst e(2), simp)+
    then show ?thesis using x(2) by (auto simp: doc_get_def dict_get_or_def doc_priority_def split: option.splits)
  qed
  have sorted: "order_docs (Some ''created_at'') False ?ds = Inr (sort_key ?created ?ds)"
    using fields by (simp add: order_docs_def Let_def sort_docs_times)
  let ?os = "take candidate_window (sort_key ?created ?ds)"
  have run: "next_candidate ops s = (Inr (if ?os = [] then None else Some (hd (sort_key (\<lambda>d. - doc_priority d) ?os))), s')"
    using q(5) by (simp add: next_candidate_def st_bind_def sorted limit_docs_def candidate_window_def)
  have pending: "doc_id ` set ?ds = {i. has_status ((=) QPending) ?q i}"
    unfolding ids(2) by (rule status_ids(2) [OF good])
  show "\<exists>r s'. next_candidate ops s = (Inr r, s') \<and> good s' \<and> queue_of s' = ?q \<and>
      (case r of None \<Rightarrow> \<forall>i. \<not> has_status ((=) QPending) ?q i | Some d \<Rightarrow> picks ?q (doc_id d))"
  proof (cases "?ds = []")
    case True
    with run q pending show ?thesis by auto
  next
    case False
    then have ne: "?os \<noteq> []" by (simp add: candidate_window_def)
    let ?xs = "map doc_id (sort_key ?created ?ds)"
    have prio: "sort_key (\<lambda>d. - doc_priority d) ?os = sort_key ?prio ?os"
      using fields by (intro sort_key_eq) (auto dest: in_set_takeD)
    have "sort_key ?prio ?os \<noteq> []" using ne unfolding sort_key_Nil .
    then have "doc_id (hd (sort_key ?prio ?os)) = hd (map doc_id (sort_key ?prio ?os))" by (rule hd_map [symmetric])
    also have "map doc_id (sort_key ?prio ?os) = sort_key (\<lambda>j. - q_priority (the (?q j))) (take candidate_window ?xs)"
      unfolding sort_key_map [where g = "\<lambda>j. - q_priority (the (?q j))" and f = doc_id] take_map ..
    finally have hd: "doc_id (hd (sort_key ?prio ?os)) = hd (sort_key (\<lambda>j. - q_priority (the (?q j))) (take candidate_window ?xs))" .
    have "map (\<lambda>j. q_created (the (?q j))) ?xs = map ?created (sort_key ?created ?ds)" by simp
    then have "sorted (map (\<lambda>j. q_created (the (?q j))) ?xs)" by (simp only: sorted_sort_key)
    moreover have "distinct ?xs" using ids(1) by (simp add: distinct_map)
    moreover have "set ?xs = {j. has_status ((=) QPending) ?q j}" using pending by simp
    moreover have "?xs \<noteq> []" using False by simp
    ultimately have "picks ?q (doc_id (hd (sort_key ?prio ?os)))"
      unfolding picks_def hd by blast
    with run ne q(3,4) prio show ?thesis by auto
  qed
qed

lemma confirm_refines:
  assumes good: "good s" and i: "queue_of s i \<noteq> None"
  shows "\<exists>s'. confirm_sole_claim ops i ts s = (Inr (sole_claim i ts (queue_of s)), s') \<and> good s' \<and>
    queue_of s' = (if sole_claim i ts (queue_of s) then queue_of s else q_put i QPending (queue_of s))"
proof -
  obtain rows s1 where q: "distinct (map fst rows)" "map_of rows = docs s" "good s1" "queue_of s1 = queue_of s"
    "op_query ops merge_queue [(''status'', ''=='', JStr ''merging'')] None False None s =
      (res_bind (order_docs None False (found (\<lambda>d. doc_get d ''status'' = JStr ''merging'') rows)) (\<lambda>os. Inr (limit_docs None os)), s1)"
    using query_refines [OF good, of "''merging''" None False None] by blast
  let ?ds = "found (\<lambda>d. doc_get d ''status'' = JStr ''merging'') rows"
  have qd: "queue_docs (docs s)" using good by (simp add: good_def)
  note ids = found_ids [OF q(1,2) qd, where P = "\<lambda>d. doc_get d ''status'' = JStr ''merging''"]
  have run: "op_query ops merge_queue [(''status'', ''=='', JStr ''merging'')] None False None s = (Inr ?ds, s1)"
    using q(5) by (simp add: order_docs_def limit_docs_def)
  have rival: "rival_before ts i d \<longleftrightarrow> (\<exists>e t. queue_of s (doc_id d) = Some e \<and> q_status e = QMerging t \<and> doc_id d \<noteq> i \<and>
      (t < ts \<or> (t = ts \<and> doc_id d < i)))" if "d \<in> set ?ds" for d
  proof -
    from ids(3) [OF that] obtain e where e: "docs s (doc_id d) = Some e" "d = with_id (doc_id d) e" "doc_get d ''status'' = JStr ''merging''"
      by blast
    obtain x where x: "entry_of_doc e = Some x" "queue_of s (doc_id d) = Some x"
      using abs_queue_entry [OF qd e(1)] by (auto simp: queue_of_def)
    have "entry_of_doc d = Some x" by (subst e(2)) (simp add: x(1))
    then obtain t where "doc_get d ''merging_started_at'' = JTime t" "q_status x = QMerging t"
      using e(3) by (auto simp: entry_of_doc_def status_of_doc_def split: option.splits json.splits)
    with x(2) show ?thesis by (simp add: rival_before_def)
  qed
  have merging: "doc_id ` set ?ds = {j. has_status is_merging (queue_of s) j}"
    unfolding ids(2) by (rule status_ids(1) [OF good])
  have sole: "filter (rival_before ts i) ?ds = [] \<longleftrightarrow> sole_claim i ts (queue_of s)"
  proof -
    have "filter (rival_before ts i) ?ds = [] \<longleftrightarrow> (\<forall>d\<in>set ?ds. \<not> (\<exists>e t. queue_of s (doc_id d) = Some e \<and> q_status e = QMerging t \<and> doc_id d \<noteq> i \<and>
      (t < ts \<or> (t = ts \<and> doc_id d < i))))"
      unfolding filter_empty_conv using rival by blast
    also have "\<dots> \<longleftrightarrow> (\<forall>j\<in>doc_id ` set ?ds. \<not> (\<exists>e t. queue_of s j = Some e \<and> q_status e = QMerging t \<and> j \<noteq> i \<and>
      (t < ts \<or> (t = ts \<and> j < i))))" by blast
    also have "\<dots> \<longleftrightarrow> sole_claim i ts (queue_of s)"
      unfolding merging sole_claim_def has_status_def is_merging_def by blast
    finally show ?thesis .
  qed
  show ?thesis
  proof (cases "sole_claim i ts (queue_of s)")
    case True
    with run sole q(3,4) show ?thesis by (simp add: confirm_sole_claim_def st_bind_def)
  next
    case False
    with update_refines [OF q(3) status_updates(2), of i] i q(4) run sole show ?thesis
      by (auto simp: confirm_sole_claim_def st_bind_def)
  qed
qed

text \<open>A \<open>dequeue\<close> that runs without another replica in between.\<close>

lemma dequeue_refines:
  assumes "good s"
  shows "\<exists>r s'. dequeue ops now ts s = (Inr r, s') \<and> good s' \<and>
    (let q = q_expire now (queue_of s) in
       case r of
         None \<Rightarrow> queue_of s' = q \<and> ((\<exists>i. has_status is_merging q i) \<or> (\<forall>i. \<not> has_status ((=) QPending) q i))
       | Some d \<Rightarrow> (\<forall>i. \<not> has_status is_merging q i) \<and> picks q (doc_id d) \<and> queue_of s' = q_put (doc_id d) (QMerging ts) q)"
proof -
  let ?q = "q_expire now (queue_of s)"
  obtain n s1 where s1: "expire_stale_merging ops now s = (Inr n, s1)" "good s1" "queue_of s1 = ?q"
    using refinesD [OF expire_refines assms] by blast
  obtain b s2 where s2: "merge_in_progress ops s1 = (Inr b, s2)" "good s2" "queue_of s2 = ?q" "b = (\<exists>i. has_status is_merging ?q i)"
    using refinesD [OF in_progress_refines s1(2)] s1(3) by auto
  show ?thesis
  proof (cases b)
    case True
    with s1 s2 show ?thesis by (auto simp: dequeue_def st_bind_def Let_def)
  next
    case False
    obtain c s3 where s3: "next_candidate ops s2 = (Inr c, s3)" "good s3" "queue_of s3 = ?q"
      "case c of None \<Rightarrow> \<forall>i. \<not> has_status ((=) QPending) ?q i | Some d \<Rightarrow> picks ?q (doc_id d)"
      using refinesD [OF candidate_refines s2(2), unfolded s2(3)] by blast
    show ?thesis
    proof (cases c)
      case None
      with False s1(1) s2(1) s3 show ?thesis by (auto simp: dequeue_def st_bind_def Let_def)
    next
      case (Some d)
      let ?i = "doc_id d"
      from Some s3(4) have picks: "picks ?q ?i" by simp
      then have pending: "has_status ((=) QPending) ?q ?i" by (rule picks_pending)
      obtain s4 where s4: "claim_entry ops ?i ts s3 = (Inr True, s4)" "good s4" "queue_of s4 = q_put ?i (QMerging ts) ?q"
        using refinesD [OF claim_refines s3(2), of ?i ts] s3(3) pending by auto
      have sole: "sole_claim ?i ts (queue_of s4)"
        using False s2(4) unfolding sole_claim_def s4(3) by (auto simp: q_put_def has_status_def is_merging_def split: option.splits)
      have "queue_of s4 ?i \<noteq> None" using pending by (auto simp: s4(3) q_put_def has_status_def)
      from confirm_refines [OF s4(2) this, of ts] sole obtain s5 where
        s5: "confirm_sole_claim ops ?i ts s4 = (Inr True, s5)" "good s5" "queue_of s5 = queue_of s4" by auto
      let ?d = "dict_merge d [(''status'', JStr ''merging''), (''merging_started_at'', JTime ts)]"
      have "doc_id ?d = ?i" by (simp add: doc_id_def)
      moreover have "dequeue ops now ts s = (Inr (Some ?d), s5)"
        using s1(1) s2(1) s3(1) s4(1) s5(1) False Some by (simp add: dequeue_def st_bind_def)
      ultimately show ?thesis
        using s5(2,3) s4(3) picks False s2(4) by (intro exI [of _ "Some ?d"] exI [of _ s5]) (simp add: Let_def)
    qed
  qed
qed

end

interpretation merge_sqlite: merge_store sqlite_ops "sq_docs merge_queue" "sq_ok merge_queue"
  by unfold_locales

section \<open>Which entry is picked\<close>

lemma insort_hd: "hd (insort_key f x xs) = (if xs = [] \<or> f x \<le> f (hd xs) then x else hd xs)"
  by (cases xs) auto

text \<open>The first of a stable sort by priority of a list sorted by time: nothing in it is better.\<close>

lemma hd_sort_key_best:
  fixes f :: "'a \<Rightarrow> int"
  assumes "sorted (map g xs)" "xs \<noteq> []" "j \<in> set xs"
  shows "hd (sort_key f xs) \<in> set xs \<and> f (hd (sort_key f xs)) \<le> f j \<and> (f (hd (sort_key f xs)) = f j \<longrightarrow> g (hd (sort_key f xs)) \<le> (g j :: int))"
  using assms
proof (induction xs arbitrary: j)
  case Nil
  then show ?case by simp
next
  case (Cons x xs)
  show ?case
  proof (cases "xs = []")
    case True
    with Cons.prems show ?thesis by simp
  next
    case False
    have s: "sorted (map g xs)" using Cons.prems(1) by simp
    have ne: "sort_key f xs \<noteq> []" using False by simp
    have ih: "hd (sort_key f xs) \<in> set xs" using Cons.IH [OF s False, of "hd xs"] False by simp
    have le: "g x \<le> g y" if "y \<in> set xs" for y using Cons.prems(1) that by simp
    have hd: "hd (sort_key f (x # xs)) = (if f x \<le> f (hd (sort_key f xs)) then x else hd (sort_key f xs))"
      using ne by (simp add: insort_hd)
    consider "j = x" | "j \<in> set xs" using Cons.prems(3) by auto
    then show ?thesis
    proof cases
      case 1
      with hd ih show ?thesis by auto
    next
      case 2
      from Cons.IH [OF s False 2] hd ih le [OF 2] show ?thesis by auto
    qed
  qed
qed

text \<open>Within the window no pending entry has a higher priority, and none of the same priority is older.\<close>

lemma picks_best:
  assumes "picks q i" "card {j. has_status ((=) QPending) q j} \<le> candidate_window" "has_status ((=) QPending) q j"
  shows "has_status ((=) QPending) q i \<and> q_priority (the (q j)) \<le> q_priority (the (q i)) \<and>
    (q_priority (the (q i)) = q_priority (the (q j)) \<longrightarrow> q_created (the (q i)) \<le> q_created (the (q j)))"
proof -
  from assms(1) obtain xs where xs: "distinct xs" "set xs = {j. has_status ((=) QPending) q j}"
    "sorted (map (\<lambda>j. q_created (the (q j))) xs)" "xs \<noteq> []"
    "i = hd (sort_key (\<lambda>j. - q_priority (the (q j))) (take candidate_window xs))"
    by (auto simp: picks_def)
  have "length xs \<le> candidate_window" using assms(2) distinct_card [OF xs(1)] xs(2) by simp
  then have "take candidate_window xs = xs" by simp
  with xs(5) have "i = hd (sort_key (\<lambda>j. - q_priority (the (q j))) xs)" by simp
  with hd_sort_key_best [OF xs(3,4), of j "\<lambda>j. - q_priority (the (q j))"] assms(3) xs(2) show ?thesis by auto
qed

section \<open>Replicas that dequeue concurrently\<close>

text \<open>
  Several Forge processes call \<open>dequeue\<close> on one store. Each store operation is atomic; between two of
  them any other replica may run. \<open>claimed_at\<close> is read from the clock before the claim is sent, so
  the claims of two replicas may arrive in the other order.
\<close>

datatype replica_state =
    Idle
  | Expired
  | Guarded
  | Picked string int
  | Claimed string int
  | Holding string int

record machine =
  m_queue :: queue
  m_replicas :: "nat \<Rightarrow> replica_state"
  m_clock :: int

text \<open>\<open>in_order\<close> says that a claim is only granted when it is later than every merging entry's.\<close>

definition in_order :: "int \<Rightarrow> queue \<Rightarrow> bool" where
  "in_order ts q \<longleftrightarrow> (\<forall>j e t. q j = Some e \<and> q_status e = QMerging t \<longrightarrow> t < ts)"

inductive replica_step :: "bool \<Rightarrow> machine \<Rightarrow> machine \<Rightarrow> bool" for ordered :: bool where
  tick: "0 < d \<Longrightarrow> replica_step ordered m (m\<lparr>m_clock := m_clock m + d\<rparr>)"
| add: "m_queue m i = None \<Longrightarrow>
    replica_step ordered m (m\<lparr>m_queue := (m_queue m)(i \<mapsto> \<lparr>q_status = QPending, q_created = m_clock m, q_priority = p\<rparr>)\<rparr>)"
| expire: "m_replicas m r = Idle \<Longrightarrow>
    replica_step ordered m (m\<lparr>m_queue := q_expire (m_clock m) (m_queue m), m_replicas := (m_replicas m)(r := Expired)\<rparr>)"
| busy: "m_replicas m r = Expired \<Longrightarrow> has_status is_merging (m_queue m) i \<Longrightarrow>
    replica_step ordered m (m\<lparr>m_replicas := (m_replicas m)(r := Idle)\<rparr>)"
| free: "m_replicas m r = Expired \<Longrightarrow> \<forall>i. \<not> has_status is_merging (m_queue m) i \<Longrightarrow>
    replica_step ordered m (m\<lparr>m_replicas := (m_replicas m)(r := Guarded)\<rparr>)"
| none: "m_replicas m r = Guarded \<Longrightarrow> \<forall>i. \<not> has_status ((=) QPending) (m_queue m) i \<Longrightarrow>
    replica_step ordered m (m\<lparr>m_replicas := (m_replicas m)(r := Idle)\<rparr>)"
| pick: "m_replicas m r = Guarded \<Longrightarrow> picks (m_queue m) i \<Longrightarrow>
    replica_step ordered m (m\<lparr>m_replicas := (m_replicas m)(r := Picked i (m_clock m))\<rparr>)"
| lose: "m_replicas m r = Picked i ts \<Longrightarrow> \<not> has_status ((=) QPending) (m_queue m) i \<Longrightarrow>
    replica_step ordered m (m\<lparr>m_replicas := (m_replicas m)(r := Idle)\<rparr>)"
| claim: "m_replicas m r = Picked i ts \<Longrightarrow> has_status ((=) QPending) (m_queue m) i \<Longrightarrow>
    ordered \<longrightarrow> in_order ts (m_queue m) \<Longrightarrow>
    replica_step ordered m (m\<lparr>m_queue := q_put i (QMerging ts) (m_queue m), m_replicas := (m_replicas m)(r := Claimed i ts)\<rparr>)"
| confirm: "m_replicas m r = Claimed i ts \<Longrightarrow> sole_claim i ts (m_queue m) \<Longrightarrow>
    replica_step ordered m (m\<lparr>m_replicas := (m_replicas m)(r := Holding i ts)\<rparr>)"
| release: "m_replicas m r = Claimed i ts \<Longrightarrow> \<not> sole_claim i ts (m_queue m) \<Longrightarrow>
    replica_step ordered m (m\<lparr>m_queue := q_put i QPending (m_queue m), m_replicas := (m_replicas m)(r := Idle)\<rparr>)"
| finish: "m_replicas m r = Holding i ts \<Longrightarrow> st = QMerged \<or> st = QFailed \<Longrightarrow>
    replica_step ordered m (m\<lparr>m_queue := q_put i st (m_queue m), m_replicas := (m_replicas m)(r := Idle)\<rparr>)"

inductive machine_run :: "bool \<Rightarrow> machine \<Rightarrow> machine \<Rightarrow> bool" for ordered m0 where
  run_start: "machine_run ordered m0 m0"
| run_step: "machine_run ordered m0 m \<Longrightarrow> replica_step ordered m m' \<Longrightarrow> machine_run ordered m0 m'"

text \<open>A replica holds the queue while its entry is still merging since its claim.\<close>

definition holds_queue :: "machine \<Rightarrow> nat \<Rightarrow> bool" where
  "holds_queue m r \<longleftrightarrow>
     (\<exists>i ts e. m_replicas m r = Holding i ts \<and> m_queue m i = Some e \<and> q_status e = QMerging ts)"

definition empty_machine :: machine where
  "empty_machine = \<lparr>m_queue = Map.empty, m_replicas = (\<lambda>_. Idle), m_clock = 0\<rparr>"

fun claim_of :: "replica_state \<Rightarrow> string option" where
  "claim_of (Claimed i ts) = Some i"
| "claim_of (Holding i ts) = Some i"
| "claim_of _ = None"

text \<open>
  The invariant: a claimed entry is not pending and claimed by one replica; a holding replica's entry,
  while merging, is claimed before every other merging entry.
\<close>

definition claims_ok :: "machine \<Rightarrow> bool" where
  "claims_ok m \<longleftrightarrow>
     (\<forall>r i. claim_of (m_replicas m r) = Some i \<longrightarrow> m_queue m i \<noteq> None \<and> \<not> has_status ((=) QPending) (m_queue m) i) \<and>
     (\<forall>r r' i. claim_of (m_replicas m r) = Some i \<and> claim_of (m_replicas m r') = Some i \<longrightarrow> r = r')"

definition holders_first :: "machine \<Rightarrow> bool" where
  "holders_first m \<longleftrightarrow>
     (\<forall>r i ts e j f t. m_replicas m r = Holding i ts \<and> m_queue m i = Some e \<and> q_status e = QMerging ts \<and>
        m_queue m j = Some f \<and> q_status f = QMerging t \<and> j \<noteq> i \<longrightarrow> ts < t \<or> (t = ts \<and> i < j))"

lemma q_put_apply: "q_put i st q j = (if j = i then map_option (\<lambda>e. e\<lparr>q_status := st\<rparr>) (q i) else q j)"
  by (auto simp: q_put_def split: option.splits)

lemma q_expire_None [simp]: "q_expire now q i = None \<longleftrightarrow> q i = None"
  by (auto simp: q_expire_def split: option.splits entry_status.splits)

lemma q_expire_status:
  "q_expire now q i = Some e \<Longrightarrow> \<exists>f. q i = Some f \<and> (q_status e = q_status f \<or> (q_status e = QFailed \<and> q_status f \<noteq> QPending))"
  by (auto simp: q_expire_def split: option.splits entry_status.splits if_splits)

lemma claims_ok_step: "replica_step ordered m m' \<Longrightarrow> claims_ok m \<Longrightarrow> claims_ok m'"
proof (induction rule: replica_step.induct)
  case (expire m r)
  have "has_status ((=) QPending) (q_expire (m_clock m) (m_queue m)) i \<Longrightarrow> has_status ((=) QPending) (m_queue m) i" for i
    by (auto simp: has_status_def dest!: q_expire_status)
  with expire show ?case by (auto simp: claims_ok_def)
next
  case (add m i p)
  then have "claim_of (m_replicas m r) \<noteq> Some i" for r unfolding claims_ok_def by blast
  with add show ?case by (auto simp: claims_ok_def has_status_def)
next
  case (confirm m r i ts)
  then have "claim_of (m_replicas m r) = Some i" by simp
  with confirm have "m_queue m i \<noteq> None \<and> \<not> has_status ((=) QPending) (m_queue m) i"
    "\<forall>r'. claim_of (m_replicas m r') = Some i \<longrightarrow> r' = r" unfolding claims_ok_def by blast+
  with confirm show ?case by (auto simp: claims_ok_def has_status_def)
qed (auto simp: claims_ok_def has_status_def q_put_apply split: if_splits)

lemma holders_first_weaken:
  assumes "holders_first m"
    and "\<And>r i ts. m_replicas m' r = Holding i ts \<Longrightarrow> m_replicas m r = Holding i ts"
    and "\<And>i e t. m_queue m' i = Some e \<Longrightarrow> q_status e = QMerging t \<Longrightarrow> \<exists>f. m_queue m i = Some f \<and> q_status f = QMerging t"
  shows "holders_first m'"
  unfolding holders_first_def
proof (intro allI impI, elim conjE)
  fix r i ts e j f t
  assume h: "m_replicas m' r = Holding i ts" "m_queue m' i = Some e" "q_status e = QMerging ts"
    "m_queue m' j = Some f" "q_status f = QMerging t" "j \<noteq> i"
  from assms(3) [OF h(2,3)] obtain e' where "m_queue m i = Some e'" "q_status e' = QMerging ts" by blast
  moreover from assms(3) [OF h(4,5)] obtain f' where "m_queue m j = Some f'" "q_status f' = QMerging t" by blast
  ultimately show "ts < t \<or> t = ts \<and> i < j"
    using assms(1) assms(2) [OF h(1)] h(6) unfolding holders_first_def by blast
qed

lemma holders_first_step:
  "replica_step True m m' \<Longrightarrow> claims_ok m \<Longrightarrow> holders_first m \<Longrightarrow> holders_first m'"
proof (induction rule: replica_step.induct)
  case (expire m r)
  show ?case
  proof (rule holders_first_weaken [OF expire.prems(2)])
    fix i e t assume h: "m_queue (m\<lparr>m_queue := q_expire (m_clock m) (m_queue m), m_replicas := (m_replicas m)(r := Expired)\<rparr>) i = Some e" "q_status e = QMerging t"
    then have "q_expire (m_clock m) (m_queue m) i = Some e" by simp
    from q_expire_status [OF this] h(2) show "\<exists>f. m_queue m i = Some f \<and> q_status f = QMerging t" by auto
  qed (auto split: if_splits)
next
  case (claim m r i ts)
  have no_holder: "m_replicas m r' \<noteq> Holding i ts'" for r' ts'
    using claim.hyps(2) claim.prems(1) unfolding claims_ok_def by (metis claim_of.simps(2))
  have later: "t < ts" if "m_queue m j = Some e" "q_status e = QMerging t" for j e t
    using claim.hyps(3) that unfolding in_order_def by blast
  show ?case
    unfolding holders_first_def
  proof (intro allI impI, elim conjE)
    fix q i' ts' e j f t
    assume h: "m_replicas (m\<lparr>m_queue := q_put i (QMerging ts) (m_queue m), m_replicas := (m_replicas m)(r := Claimed i ts)\<rparr>) q = Holding i' ts'"
      "m_queue (m\<lparr>m_queue := q_put i (QMerging ts) (m_queue m), m_replicas := (m_replicas m)(r := Claimed i ts)\<rparr>) i' = Some e"
      "q_status e = QMerging ts'"
      "m_queue (m\<lparr>m_queue := q_put i (QMerging ts) (m_queue m), m_replicas := (m_replicas m)(r := Claimed i ts)\<rparr>) j = Some f"
      "q_status f = QMerging t" "j \<noteq> i'"
    from h(1) have q: "m_replicas m q = Holding i' ts'" by (auto split: if_splits)
    with no_holder have ne: "i' \<noteq> i" by blast
    with h(2) have e: "m_queue m i' = Some e" by (simp add: q_put_apply)
    show "ts' < t \<or> t = ts' \<and> i' < j"
    proof (cases "j = i")
      case True
      with h(4,5) have "t = ts" by (auto simp: q_put_apply)
      with later [OF e h(3)] show ?thesis by simp
    next
      case False
      with h(4) have "m_queue m j = Some f" by (simp add: q_put_apply)
      with claim.prems(2) q e h(3,5,6) show ?thesis unfolding holders_first_def by blast
    qed
  qed
next
  case (confirm m r i ts)
  from confirm.hyps(2) have "ts < t \<or> (t = ts \<and> i < j)" if "m_queue m j = Some f" "q_status f = QMerging t" "j \<noteq> i" for j f t
    using that unfolding sole_claim_def by (meson linorder_neqE)
  then have sole: "ts < t \<or> t = ts \<and> i < j" if "m_queue m j = Some f" "q_status f = QMerging t" "j \<noteq> i" for j f t
    using that by blast
  show ?case
    unfolding holders_first_def
  proof (intro allI impI, elim conjE)
    fix q i' ts' e j f t
    assume h: "m_replicas (m\<lparr>m_replicas := (m_replicas m)(r := Holding i ts)\<rparr>) q = Holding i' ts'"
      "m_queue (m\<lparr>m_replicas := (m_replicas m)(r := Holding i ts)\<rparr>) i' = Some e" "q_status e = QMerging ts'"
      "m_queue (m\<lparr>m_replicas := (m_replicas m)(r := Holding i ts)\<rparr>) j = Some f" "q_status f = QMerging t" "j \<noteq> i'"
    from h(4) have j: "m_queue m j = Some f" by simp
    show "ts' < t \<or> t = ts' \<and> i' < j"
    proof (cases "q = r")
      case True
      with h(1) have "i' = i" "ts' = ts" by simp_all
      with sole [OF j h(5)] h(6) show ?thesis by blast
    next
      case False
      with h(1,2) confirm.prems(2) j h(3,5,6) show ?thesis unfolding holders_first_def by simp
    qed
  qed
qed (rule holders_first_weaken, assumption, auto simp: q_put_apply split: if_splits)+

lemma machine_run_invariant:
  "machine_run True m0 m \<Longrightarrow> claims_ok m0 \<Longrightarrow> holders_first m0 \<Longrightarrow> claims_ok m \<and> holders_first m"
  by (induction rule: machine_run.induct) (blast intro: claims_ok_step holders_first_step)+

lemma empty_machine_ok: "claims_ok empty_machine" "holders_first empty_machine"
  by (simp_all add: claims_ok_def holders_first_def empty_machine_def)

text \<open>With claims granted in the order of their times, at most one replica holds the queue.\<close>

lemma one_holder:
  assumes "machine_run True empty_machine m" "holds_queue m r" "holds_queue m r'"
  shows "r = r'"
proof -
  from assms(1) have inv: "claims_ok m" "holders_first m"
    using machine_run_invariant empty_machine_ok by blast+
  from assms(2,3) obtain i ts e i' ts' e' where h: "m_replicas m r = Holding i ts" "m_queue m i = Some e" "q_status e = QMerging ts"
    "m_replicas m r' = Holding i' ts'" "m_queue m i' = Some e'" "q_status e' = QMerging ts'"
    by (auto simp: holds_queue_def)
  have "i = i'"
  proof (rule ccontr)
    assume "i \<noteq> i'"
    then have "ts < ts' \<or> (ts' = ts \<and> i < i')" "ts' < ts \<or> (ts = ts' \<and> i' < i)"
      using inv(2) h unfolding holders_first_def by metis+
    then show False by auto
  qed
  with h inv(1) show ?thesis unfolding claims_ok_def by (metis claim_of.simps(2))
qed

text \<open>
  The clock is read before the claim is sent, so claims can be granted out of order: replica 0 picks an
  entry and stalls; a newer entry of a higher priority arrives; replica 1 picks, claims and confirms it;
  then replica 0's claim, with the earlier time, is granted and confirmed too.
\<close>

definition race_entry :: "entry_status \<Rightarrow> int \<Rightarrow> qentry" where
  "race_entry st p = \<lparr>q_status = st, q_created = p, q_priority = p\<rparr>"

definition two_replicas :: "queue \<Rightarrow> replica_state \<Rightarrow> replica_state \<Rightarrow> int \<Rightarrow> machine" where
  "two_replicas q a b now = \<lparr>m_queue = q, m_replicas = (\<lambda>_. Idle)(0 := a, 1 := b), m_clock = now\<rparr>"

definition race_machine :: machine where
  "race_machine =
     two_replicas [''a'' \<mapsto> race_entry (QMerging 0) 0, ''b'' \<mapsto> race_entry (QMerging 1) 1] (Holding ''a'' 0) (Holding ''b'' 1) 1"

lemma two_replicas_sel [simp]:
  "m_queue (two_replicas q a b now) = q" "m_clock (two_replicas q a b now) = now"
  "m_replicas (two_replicas q a b now) 0 = a" "m_replicas (two_replicas q a b now) (Suc 0) = b"
  by (simp_all add: two_replicas_def)

lemma two_replicas_upd [simp]:
  "(two_replicas q a b now)\<lparr>m_queue := q'\<rparr> = two_replicas q' a b now"
  "(two_replicas q a b now)\<lparr>m_clock := t\<rparr> = two_replicas q a b t"
  "(two_replicas q a b now)\<lparr>m_replicas := (m_replicas (two_replicas q' a b t))(0 := a')\<rparr> = two_replicas q a' b now"
  "(two_replicas q a b now)\<lparr>m_replicas := (m_replicas (two_replicas q' a b t))(Suc 0 := b')\<rparr> = two_replicas q a b' now"
  by (simp_all add: two_replicas_def fun_eq_iff)

lemma race_expire: "q_expire now [''a'' \<mapsto> race_entry QPending 0] = [''a'' \<mapsto> race_entry QPending 0]"
  "q_expire now [''a'' \<mapsto> race_entry QPending 0, ''b'' \<mapsto> race_entry QPending 1] = [''a'' \<mapsto> race_entry QPending 0, ''b'' \<mapsto> race_entry QPending 1]"
  by (auto simp: q_expire_def race_entry_def fun_eq_iff)

lemma race_put:
  "q_put ''b'' (QMerging 1) [''a'' \<mapsto> race_entry QPending 0, ''b'' \<mapsto> race_entry QPending 1]
     = [''a'' \<mapsto> race_entry QPending 0, ''b'' \<mapsto> race_entry (QMerging 1) 1]"
  "q_put ''a'' (QMerging 0) [''a'' \<mapsto> race_entry QPending 0, ''b'' \<mapsto> race_entry (QMerging 1) 1]
     = [''a'' \<mapsto> race_entry (QMerging 0) 0, ''b'' \<mapsto> race_entry (QMerging 1) 1]"
  by (auto simp: q_put_def race_entry_def fun_eq_iff)

lemma race_picks:
  "picks [''a'' \<mapsto> race_entry QPending 0] ''a''"
  "picks [''a'' \<mapsto> race_entry QPending 0, ''b'' \<mapsto> race_entry QPending 1] ''b''"
  unfolding picks_def
  by (intro exI [of _ "[''a'']"], auto simp: has_status_def candidate_window_def race_entry_def split: if_splits)
    (intro exI [of _ "[''a'', ''b'']"], auto simp: has_status_def candidate_window_def race_entry_def split: if_splits)

lemmas race_simps = race_expire race_put has_status_def is_merging_def sole_claim_def race_entry_def

lemma first_picked: "machine_run ordered empty_machine (two_replicas [''a'' \<mapsto> race_entry QPending 0] (Picked ''a'' 0) Idle 0)"
proof -
  let ?a = "[''a'' \<mapsto> race_entry QPending 0]"
  have "empty_machine = two_replicas Map.empty Idle Idle 0"
    by (simp add: empty_machine_def two_replicas_def fun_eq_iff)
  then have 0: "machine_run ordered empty_machine (two_replicas Map.empty Idle Idle 0)"
    using run_start [of ordered empty_machine] by simp
  have "replica_step ordered (two_replicas Map.empty Idle Idle 0) (two_replicas ?a Idle Idle 0)"
    using replica_step.add [of "two_replicas Map.empty Idle Idle 0" "''a''" ordered 0] by (simp add: race_entry_def)
  note 1 = run_step [OF 0 this]
  have "replica_step ordered (two_replicas ?a Idle Idle 0) (two_replicas ?a Expired Idle 0)"
    using replica_step.expire [of "two_replicas ?a Idle Idle 0" 0 ordered] by (simp add: race_expire)
  note 2 = run_step [OF 1 this]
  have "replica_step ordered (two_replicas ?a Expired Idle 0) (two_replicas ?a Guarded Idle 0)"
    using replica_step.free [of "two_replicas ?a Expired Idle 0" 0 ordered] by (simp add: race_simps)
  note 3 = run_step [OF 2 this]
  have "replica_step ordered (two_replicas ?a Guarded Idle 0) (two_replicas ?a (Picked ''a'' 0) Idle 0)"
    using replica_step.pick [of "two_replicas ?a Guarded Idle 0" 0 "''a''" ordered] race_picks by simp
  from run_step [OF 3 this] show ?thesis .
qed

lemma race_reachable: "machine_run False empty_machine race_machine"
proof -
  let ?a = "[''a'' \<mapsto> race_entry QPending 0]"
  let ?ab = "[''a'' \<mapsto> race_entry QPending 0, ''b'' \<mapsto> race_entry QPending 1]"
  let ?aB = "[''a'' \<mapsto> race_entry QPending 0, ''b'' \<mapsto> race_entry (QMerging 1) 1]"
  let ?AB = "[''a'' \<mapsto> race_entry (QMerging 0) 0, ''b'' \<mapsto> race_entry (QMerging 1) 1]"
  let ?pa = "Picked ''a'' 0" and ?pb = "Picked ''b'' 1"
  note 4 = first_picked [of False]
  have "replica_step False (two_replicas ?a ?pa Idle 0) (two_replicas ?a ?pa Idle 1)"
    using replica_step.tick [of 1 False "two_replicas ?a ?pa Idle 0"] by simp
  note 5 = run_step [OF 4 this]
  have "replica_step False (two_replicas ?a ?pa Idle 1) (two_replicas ?ab ?pa Idle 1)"
    using replica_step.add [of "two_replicas ?a ?pa Idle 1" "''b''" False 1] by (simp add: race_entry_def)
  note 6 = run_step [OF 5 this]
  have "replica_step False (two_replicas ?ab ?pa Idle 1) (two_replicas ?ab ?pa Expired 1)"
    using replica_step.expire [of "two_replicas ?ab ?pa Idle 1" "Suc 0" False] by (simp add: race_expire)
  note 7 = run_step [OF 6 this]
  have "replica_step False (two_replicas ?ab ?pa Expired 1) (two_replicas ?ab ?pa Guarded 1)"
    using replica_step.free [of "two_replicas ?ab ?pa Expired 1" "Suc 0" False] by (simp add: race_simps)
  note 8 = run_step [OF 7 this]
  have "replica_step False (two_replicas ?ab ?pa Guarded 1) (two_replicas ?ab ?pa ?pb 1)"
    using replica_step.pick [of "two_replicas ?ab ?pa Guarded 1" "Suc 0" "''b''" False] race_picks by simp
  note 9 = run_step [OF 8 this]
  have "replica_step False (two_replicas ?ab ?pa ?pb 1) (two_replicas ?aB ?pa (Claimed ''b'' 1) 1)"
    using replica_step.claim [of "two_replicas ?ab ?pa ?pb 1" "Suc 0" "''b''" 1 False] by (simp add: race_put has_status_def) (simp add: race_entry_def)
  note 10 = run_step [OF 9 this]
  have "replica_step False (two_replicas ?aB ?pa (Claimed ''b'' 1) 1) (two_replicas ?aB ?pa (Holding ''b'' 1) 1)"
    using replica_step.confirm [of "two_replicas ?aB ?pa (Claimed ''b'' 1) 1" "Suc 0" "''b''" 1 False] by (simp add: race_simps)
  note 11 = run_step [OF 10 this]
  have "replica_step False (two_replicas ?aB ?pa (Holding ''b'' 1) 1) (two_replicas ?AB (Claimed ''a'' 0) (Holding ''b'' 1) 1)"
    using replica_step.claim [of "two_replicas ?aB ?pa (Holding ''b'' 1) 1" 0 "''a''" 0 False] by (simp add: race_put has_status_def) (simp add: race_entry_def)
  note 12 = run_step [OF 11 this]
  have "replica_step False (two_replicas ?AB (Claimed ''a'' 0) (Holding ''b'' 1) 1) race_machine"
    using replica_step.confirm [of "two_replicas ?AB (Claimed ''a'' 0) (Holding ''b'' 1) 1" 0 "''a''" 0 False]
    by (simp add: race_simps race_machine_def)
  from run_step [OF 12 this] show ?thesis .
qed

section \<open>Properties\<close>

text \<open>
  C14: On SQLite, a \<open>dequeue\<close> that no other replica interrupts implements the abstract queue: it always
  returns, fails exactly the claims past their TTL, then either reports that a merge runs or nothing is
  pending, or claims the entry the policy picks, and nothing else changes.
\<close>

theorem sqlite_dequeue_refines:
  assumes "sq_ok merge_queue s" "queue_docs (sq_docs merge_queue s)"
  shows "\<exists>r s'. dequeue sqlite_ops now ts s = (Inr r, s') \<and> sq_ok merge_queue s' \<and> queue_docs (sq_docs merge_queue s') \<and>
    (let q = q_expire now (abs_queue (sq_docs merge_queue s)); q' = abs_queue (sq_docs merge_queue s') in
       case r of
         None \<Rightarrow> q' = q \<and> ((\<exists>i. has_status is_merging q i) \<or> (\<forall>i. \<not> has_status ((=) QPending) q i))
       | Some d \<Rightarrow> (\<forall>i. \<not> has_status is_merging q i) \<and> picks q (doc_id d) \<and> q' = q_put (doc_id d) (QMerging ts) q)"
  using merge_sqlite.dequeue_refines [of s now ts, unfolded merge_sqlite.good_def merge_sqlite.queue_of_def] assms
  unfolding Let_def by simp

definition stored_entry :: "string \<Rightarrow> string \<Rightarrow> json \<Rightarrow> int \<Rightarrow> int \<Rightarrow> string \<times> doc" where
  "stored_entry i st started created p =
     (i, [(''id'', JStr i), (''status'', JStr st), (''created_at'', JTime created), (''priority'', JInt p), (''merging_started_at'', started)])"

definition crashed_store :: sqlite_store where
  "crashed_store =
     \<lparr>sq_tables = [(merge_queue, [stored_entry ''a'' ''merging'' (JTime 0) 0 0, stored_entry ''b'' ''pending'' JNull 1 2])],
      sq_closed = False\<rparr>"

lemma crashed_docs:
  "sq_docs merge_queue crashed_store = map_of [stored_entry ''a'' ''merging'' (JTime 0) 0 0, stored_entry ''b'' ''pending'' JNull 1 2]"
proof -
  have "py_lower merge_queue = merge_queue" by code_simp
  then show ?thesis by (simp add: sq_docs_def sq_table_def crashed_store_def dict_get_or_def fun_upd_def fun_eq_iff)
qed

lemma crashed_ok: "sq_ok merge_queue crashed_store" "queue_docs (sq_docs merge_queue crashed_store)"
proof -
  show "sq_ok merge_queue crashed_store" by code_simp
  show "queue_docs (sq_docs merge_queue crashed_store)"
    unfolding crashed_docs by (auto simp: queue_docs_def stored_entry_def entry_of_doc_def status_of_doc_def split: if_splits)
qed


lemma sqlite_dequeue_refines_witness:
  "\<exists>r s'. dequeue sqlite_ops (2 * merging_ttl) 7 crashed_store = (Inr r, s') \<and> sq_ok merge_queue s' \<and> queue_docs (sq_docs merge_queue s') \<and>
    (let q = q_expire (2 * merging_ttl) (abs_queue (sq_docs merge_queue crashed_store)); q' = abs_queue (sq_docs merge_queue s') in
       case r of
         None \<Rightarrow> q' = q \<and> ((\<exists>i. has_status is_merging q i) \<or> (\<forall>i. \<not> has_status ((=) QPending) q i))
       | Some d \<Rightarrow> (\<forall>i. \<not> has_status is_merging q i) \<and> picks q (doc_id d) \<and> q' = q_put (doc_id d) (QMerging 7) q)"
  by (rule sqlite_dequeue_refines [OF crashed_ok])

text \<open>
  C15: A crashed merge does not block the queue for good: when every merging entry is past its TTL and
  something is pending, \<open>dequeue\<close> on SQLite claims an entry that was pending.
\<close>

theorem stale_merge_unblocks:
  assumes "sq_ok merge_queue s" "queue_docs (sq_docs merge_queue s)"
    and "\<And>i e t. abs_queue (sq_docs merge_queue s) i = Some e \<Longrightarrow> q_status e = QMerging t \<Longrightarrow> t < now - merging_ttl"
    and "has_status ((=) QPending) (abs_queue (sq_docs merge_queue s)) j"
  shows "\<exists>d s'. dequeue sqlite_ops now ts s = (Inr (Some d), s') \<and>
    has_status ((=) QPending) (abs_queue (sq_docs merge_queue s)) (doc_id d) \<and>
    has_status ((=) (QMerging ts)) (abs_queue (sq_docs merge_queue s')) (doc_id d)"
proof -
  let ?q = "abs_queue (sq_docs merge_queue s)"
  note pending = expired_pending [of now ?q]
  have none: "\<not> has_status is_merging (q_expire now ?q) i" for i
    using assms(3) by (auto simp: has_status_def is_merging_def q_expire_def split: option.splits entry_status.splits)
  obtain r s' where run: "dequeue sqlite_ops now ts s = (Inr r, s')"
    "case r of
         None \<Rightarrow> abs_queue (sq_docs merge_queue s') = q_expire now ?q \<and>
           ((\<exists>i. has_status is_merging (q_expire now ?q) i) \<or> (\<forall>i. \<not> has_status ((=) QPending) (q_expire now ?q) i))
       | Some d \<Rightarrow> (\<forall>i. \<not> has_status is_merging (q_expire now ?q) i) \<and> picks (q_expire now ?q) (doc_id d) \<and>
           abs_queue (sq_docs merge_queue s') = q_put (doc_id d) (QMerging ts) (q_expire now ?q)"
    using merge_sqlite.dequeue_refines [of s now ts, unfolded merge_sqlite.good_def merge_sqlite.queue_of_def] assms(1,2)
    unfolding Let_def by blast
  show ?thesis
  proof (cases r)
    case None
    with run none assms(4) pending show ?thesis by auto
  next
    case (Some d)
    with run have "picks (q_expire now ?q) (doc_id d)" by simp
    from picks_pending [OF this] have p: "has_status ((=) QPending) (q_expire now ?q) (doc_id d)" .
    with run Some pending show ?thesis by (auto simp: q_put_def has_status_def split: option.splits)
  qed
qed


lemma crashed_abs: "abs_queue (sq_docs merge_queue crashed_store) =
   [''a'' \<mapsto> \<lparr>q_status = QMerging 0, q_created = 0, q_priority = 0\<rparr>, ''b'' \<mapsto> \<lparr>q_status = QPending, q_created = 1, q_priority = 2\<rparr>]"
  unfolding crashed_docs
  by (auto simp: abs_queue_def stored_entry_def entry_of_doc_def status_of_doc_def fun_eq_iff)

lemma stale_merge_unblocks_witness:
  "\<exists>d s'. dequeue sqlite_ops (2 * merging_ttl) 7 crashed_store = (Inr (Some d), s') \<and>
    has_status ((=) QPending) (abs_queue (sq_docs merge_queue crashed_store)) (doc_id d) \<and>
    has_status ((=) (QMerging 7)) (abs_queue (sq_docs merge_queue s')) (doc_id d)"
proof (rule stale_merge_unblocks [OF crashed_ok, where j = "''b''"])
  show "t < 2 * merging_ttl - merging_ttl" if "abs_queue (sq_docs merge_queue crashed_store) i = Some e" "q_status e = QMerging t" for i e t
    using that unfolding crashed_abs by (auto simp: merging_ttl_def split: if_splits)
qed (simp add: crashed_abs has_status_def)

text \<open>
  While at most 50 entries are pending, no pending entry has a higher priority than the picked one,
  and none of its priority is older.
\<close>

theorem picked_entry_best:
  assumes "picks q i" "card {j. has_status ((=) QPending) q j} \<le> candidate_window" "has_status ((=) QPending) q j"
  shows "q_priority (the (q j)) \<le> q_priority (the (q i)) \<and>
    (q_priority (the (q i)) = q_priority (the (q j)) \<longrightarrow> q_created (the (q i)) \<le> q_created (the (q j)))"
  using picks_best [OF assms] by blast

lemma race_pending: "{j. has_status ((=) QPending) [''a'' \<mapsto> race_entry QPending 0, ''b'' \<mapsto> race_entry QPending 1] j} = {''a'', ''b''}"
  by (auto simp: has_status_def race_entry_def split: if_splits)

lemma picked_entry_best_witness:
  "let q = [''a'' \<mapsto> race_entry QPending 0, ''b'' \<mapsto> race_entry QPending 1] in
     q_priority (the (q ''a'')) \<le> q_priority (the (q ''b'')) \<and>
     (q_priority (the (q ''b'')) = q_priority (the (q ''a'')) \<longrightarrow> q_created (the (q ''b'')) \<le> q_created (the (q ''a'')))"
  unfolding Let_def
proof (rule picked_entry_best)
  show "has_status ((=) QPending) [''a'' \<mapsto> race_entry QPending 0, ''b'' \<mapsto> race_entry QPending 1] ''a''"
    by (simp add: has_status_def race_entry_def)
  show "card {j. has_status ((=) QPending) [''a'' \<mapsto> race_entry QPending 0, ''b'' \<mapsto> race_entry QPending 1] j} \<le> candidate_window"
    unfolding race_pending by (simp add: candidate_window_def)
qed (rule race_picks)

text \<open>
  The priority only counts within the window: a picked entry has fewer than 50 strictly older
  pending entries, whatever their priorities.
\<close>

theorem picked_within_window:
  assumes "picks q i"
  shows "card {j. has_status ((=) QPending) q j \<and> q_created (the (q j)) < q_created (the (q i))} < candidate_window"
proof -
  let ?c = "\<lambda>j. q_created (the (q j))"
  from assms obtain xs where xs: "distinct xs" "set xs = {j. has_status ((=) QPending) q j}" "sorted (map ?c xs)" "xs \<noteq> []"
    "i = hd (sort_key (\<lambda>j. - q_priority (the (q j))) (take candidate_window xs))"
    by (auto simp: picks_def)
  have "sort_key (\<lambda>j. - q_priority (the (q j))) (take candidate_window xs) \<noteq> []"
    using xs(4) by (simp add: candidate_window_def)
  then have "i \<in> set (take candidate_window xs)" unfolding xs(5) by (metis hd_in_set set_sort)
  then obtain k where k: "k < candidate_window" "k < length xs" "i = xs ! k"
    by (auto simp: in_set_conv_nth)
  have "{j. has_status ((=) QPending) q j \<and> ?c j < ?c i} \<subseteq> (!) xs ` {..<k}"
  proof
    fix j assume "j \<in> {j. has_status ((=) QPending) q j \<and> ?c j < ?c i}"
    then have j: "j \<in> set xs" "?c j < ?c i" using xs(2) by auto
    then obtain l where l: "l < length xs" "j = xs ! l" by (auto simp: in_set_conv_nth)
    have "l < k"
    proof (rule ccontr)
      assume "\<not> l < k"
      then have "?c (xs ! k) \<le> ?c (xs ! l)" using sorted_nth_mono [OF xs(3), of k l] l(1) by simp
      with j(2) l(2) k(3) show False by simp
    qed
    with l show "j \<in> (!) xs ` {..<k}" by blast
  qed
  from card_mono [OF _ this] card_image_le [of "{..<k}" "(!) xs"] k(1) show ?thesis by simp
qed

lemma picked_within_window_witness:
  "let q = [''a'' \<mapsto> race_entry QPending 0, ''b'' \<mapsto> race_entry QPending 1] in
     card {j. has_status ((=) QPending) q j \<and> q_created (the (q j)) < q_created (the (q ''b''))} < candidate_window"
  unfolding Let_def by (rule picked_within_window) (rule race_picks)


definition one_holder_machine :: machine where
  "one_holder_machine = two_replicas [''a'' \<mapsto> race_entry (QMerging 0) 0] (Holding ''a'' 0) Idle 0"

lemma one_holder_reachable: "machine_run True empty_machine one_holder_machine" "holds_queue one_holder_machine 0"
proof -
  let ?a = "[''a'' \<mapsto> race_entry QPending 0]" and ?A = "[''a'' \<mapsto> race_entry (QMerging 0) 0]"
  note 4 = first_picked [of True]
  have put: "q_put ''a'' (QMerging 0) ?a = ?A" by (auto simp: q_put_def race_entry_def fun_eq_iff)
  have "in_order 0 ?a" "has_status ((=) QPending) ?a ''a''"
    by (simp_all add: in_order_def has_status_def race_entry_def)
  then have "replica_step True (two_replicas ?a (Picked ''a'' 0) Idle 0) (two_replicas ?A (Claimed ''a'' 0) Idle 0)"
    using replica_step.claim [of "two_replicas ?a (Picked ''a'' 0) Idle 0" 0 "''a''" 0 True] by (simp add: put del: fun_upd_apply)
  note 5 = run_step [OF 4 this]
  have "replica_step True (two_replicas ?A (Claimed ''a'' 0) Idle 0) one_holder_machine"
    using replica_step.confirm [of "two_replicas ?A (Claimed ''a'' 0) Idle 0" 0 "''a''" 0 True]
    by (simp add: race_simps one_holder_machine_def)
  from run_step [OF 5 this] show "machine_run True empty_machine one_holder_machine" .
  show "holds_queue one_holder_machine 0"
    by (simp add: holds_queue_def one_holder_machine_def race_entry_def)
qed


text \<open>
  C17: Without that order two replicas can both hold the queue: a stalled replica's claim carries an
  earlier timestamp than one already confirmed, and is confirmed as well.
\<close>

theorem stalled_claim_confirmed_twice:
  "\<exists>m. machine_run False empty_machine m \<and> holds_queue m 0 \<and> holds_queue m 1"
proof -
  have "holds_queue race_machine 0" "holds_queue race_machine 1"
    by (simp_all add: holds_queue_def race_machine_def race_entry_def)
  with race_reachable show ?thesis by blast
qed

end
