(* ===== verification/Tracker.thy ===== *)
theory Tracker
  imports DocStore Executor Pricing
begin

text \<open>
  The task tracker (\<open>observability/tracker.py\<close>): the execution document of a task and every operation
  on it, over any document store. Each writing operation catches every exception of the store, so the
  document may silently stay behind; only \<open>get_stalled_tasks\<close> and \<open>get_task_strict\<close> let it through.
\<close>

section \<open>Values of a document\<close>

abbreviation task_executions :: string where
  "task_executions \<equiv> ''task_executions''"

abbreviation processed_messages :: string where
  "processed_messages \<equiv> ''processed_messages''"

text \<open>Python truth.\<close>

definition py_true :: "json \<Rightarrow> bool" where
  "py_true v = (v \<notin> set [JNull, JBool False, JInt 0, JFloat 0, JStr [], JList [], JObj []])"

lemma py_true_simps [simp]:
  "\<not> py_true JNull" "py_true (JBool b) = b" "py_true (JInt i) = (i \<noteq> 0)" "py_true (JFloat r) = (r \<noteq> 0)"
  "py_true (JStr x) = (x \<noteq> [])" "py_true (JTime t)" "py_true (JList xs) = (xs \<noteq> [])" "py_true (JObj d) = (d \<noteq> [])"
  by (auto simp: py_true_def)

definition json_opt :: "('a \<Rightarrow> json) \<Rightarrow> 'a option \<Rightarrow> json" where
  "json_opt f v = (case v of None \<Rightarrow> JNull | Some x \<Rightarrow> f x)"

definition opt_item :: "string \<Rightarrow> ('a \<Rightarrow> json) \<Rightarrow> 'a option \<Rightarrow> doc" where
  "opt_item k f v = (case v of None \<Rightarrow> [] | Some x \<Rightarrow> [(k, f x)])"

text \<open>\<open>list(v)\<close> and \<open>dict(v)\<close> for the fields that hold lists and objects; \<open>None\<close> is a \<open>TypeError\<close>.\<close>

definition as_list :: "json \<Rightarrow> json list option" where
  "as_list v = (case v of JList xs \<Rightarrow> Some xs | JObj xs \<Rightarrow> Some (map (JStr \<circ> fst) xs) | JStr s \<Rightarrow> Some (map (\<lambda>c. JStr [c]) s) | _ \<Rightarrow> None)"

definition as_dict :: "json \<Rightarrow> doc option" where
  "as_dict v = (case v of JObj xs \<Rightarrow> Some xs | JList [] \<Rightarrow> Some [] | JStr [] \<Rightarrow> Some [] | _ \<Rightarrow> None)"

definition or_type_error :: "'a option \<Rightarrow> ('s, 'a) store_op" where
  "or_type_error v = (case v of None \<Rightarrow> st_raise TypeErr | Some x \<Rightarrow> st_return x)"

section \<open>The values of enumerations\<close>

fun status_value :: "operative_status \<Rightarrow> string" where
  "status_value SPAWNING = ''spawning''"
| "status_value INITIALIZING = ''initializing''"
| "status_value EXECUTING = ''executing''"
| "status_value REPORTING = ''reporting''"
| "status_value COMPLETED = ''completed''"
| "status_value FAILED = ''failed''"
| "status_value TIMED_OUT = ''timed_out''"
| "status_value BLOCKED = ''blocked''"
| "status_value INTERRUPTED = ''interrupted''"

fun condition_value :: "edge_condition \<Rightarrow> string" where
  "condition_value Pass = ''pass''"
| "condition_value Fail = ''fail''"

text \<open>\<open>SUCCESS_STATUSES\<close>, \<open>TERMINAL_EXECUTION_STATES\<close>, \<open>_RETENTION_DAYS\<close>.\<close>

definition success_statuses :: "string list" where
  "success_statuses = [''completed'', ''pr_created'']"

definition terminal_states :: "string list" where
  "terminal_states = [''completed'', ''escalated'']"

definition days :: "int \<Rightarrow> int" where
  "days n = n * 24 * 60 * 60 * 1000000"

definition minutes :: "int \<Rightarrow> int" where
  "minutes n = n * 60 * 1000000"

section \<open>Writing the document\<close>

text \<open>\<open>try: ... except Exception: log\<close>.\<close>

definition quietly :: "('s, unit) store_op \<Rightarrow> ('s, unit) store_op" where
  "quietly m = st_catch m (\<lambda>_. st_return ())"

text \<open>
  \<open>start_task\<close> persists the whole task payload; \<open>dump\<close> is Pydantic's \<open>model_dump(mode="json")\<close>.
\<close>

definition initial_doc :: "(henchmen_task \<Rightarrow> json) \<Rightarrow> int \<Rightarrow> henchmen_task \<Rightarrow> string \<Rightarrow> doc" where
  "initial_doc dump now task scheme =
     [(''task_id'', JStr (task_id task)), (''title'', JStr (title task)),
      (''source'', JStr (source_value (task_source_of task))), (''scheme_id'', JStr scheme),
      (''task_payload'', dump task), (''created_at'', JTime now), (''completed_at'', JNull),
      (''final_status'', JNull), (''pr_url'', JNull), (''pr_number'', JNull), (''ci_passed'', JNull),
      (''nodes_executed'', JList []), (''total_input_tokens'', JInt 0), (''total_output_tokens'', JInt 0),
      (''total_model_calls'', JInt 0), (''total_tool_calls'', JInt 0), (''estimated_cost_usd'', JFloat 0),
      (''wall_clock_seconds'', JFloat 0), (''node_metrics'', JObj []), (''rag_chunks_retrieved'', JInt 0),
      (''files_changed'', JList []), (''confidence_score'', JFloat 0), (''expires_at'', JTime (now + days 30)),
      (''ci_fix_attempts'', JInt 0), (''ci_fix_in_progress'', JBool False), (''execution_state'', JStr ''running''),
      (''current_node_id'', JNull), (''last_heartbeat'', JTime now), (''recovery_attempts'', JInt 0),
      (''escalation_reason'', JNull), (''escalation_node'', JNull)]"

definition start_task ::
  "'s store_ops \<Rightarrow> (henchmen_task \<Rightarrow> json) \<Rightarrow> int \<Rightarrow> henchmen_task \<Rightarrow> string \<Rightarrow> ('s, unit) store_op" where
  "start_task ops dump now task scheme =
     quietly (op_set ops task_executions (task_id task) (initial_doc dump now task scheme))"

definition finalize_doc :: "int \<Rightarrow> string \<Rightarrow> string option \<Rightarrow> int option \<Rightarrow> doc" where
  "finalize_doc now status pr_url pr_number =
     [(''completed_at'', JTime now), (''final_status'', JStr status), (''pr_url'', json_opt JStr pr_url),
      (''pr_number'', json_opt JInt pr_number),
      (''execution_state'', JStr (if status = ''escalated'' then ''escalated'' else ''completed'')),
      (''current_node_id'', JNull)]"

definition finalize_task ::
  "'s store_ops \<Rightarrow> int \<Rightarrow> string \<Rightarrow> string \<Rightarrow> string option \<Rightarrow> int option \<Rightarrow> ('s, unit) store_op" where
  "finalize_task ops now tid status pr_url pr_number =
     quietly (op_update ops task_executions tid (finalize_doc now status pr_url pr_number))"

definition update_heartbeat :: "'s store_ops \<Rightarrow> int \<Rightarrow> string \<Rightarrow> ('s, unit) store_op" where
  "update_heartbeat ops now tid = quietly (op_update ops task_executions tid [(''last_heartbeat'', JTime now)])"

definition mark_stalled :: "'s store_ops \<Rightarrow> string \<Rightarrow> ('s, unit) store_op" where
  "mark_stalled ops tid = quietly (op_update ops task_executions tid [(''execution_state'', JStr ''stalled'')])"

definition escalate_doc :: "int \<Rightarrow> string \<Rightarrow> string option \<Rightarrow> doc" where
  "escalate_doc now reason node =
     [(''execution_state'', JStr ''escalated''), (''final_status'', JStr ''escalated''),
      (''escalation_reason'', JStr reason), (''completed_at'', JTime now)] @ opt_item ''escalation_node'' JStr node"

definition mark_escalated :: "'s store_ops \<Rightarrow> int \<Rightarrow> string \<Rightarrow> string \<Rightarrow> string option \<Rightarrow> ('s, unit) store_op" where
  "mark_escalated ops now tid reason node = quietly (op_update ops task_executions tid (escalate_doc now reason node))"

definition increment_recovery_attempts :: "'s store_ops \<Rightarrow> string \<Rightarrow> ('s, unit) store_op" where
  "increment_recovery_attempts ops tid = quietly (op_increment ops task_executions tid [(''recovery_attempts'', JInt 1)])"

definition record_rag_chunks :: "'s store_ops \<Rightarrow> string \<Rightarrow> int \<Rightarrow> ('s, unit) store_op" where
  "record_rag_chunks ops tid n = quietly (op_increment ops task_executions tid [(''rag_chunks_retrieved'', JInt n)])"

definition record_ci_result :: "'s store_ops \<Rightarrow> string \<Rightarrow> bool \<Rightarrow> ('s, unit) store_op" where
  "record_ci_result ops tid passed = quietly (op_update ops task_executions tid [(''ci_passed'', JBool passed)])"

definition record_ci_fix_attempt :: "'s store_ops \<Rightarrow> string \<Rightarrow> ('s, unit) store_op" where
  "record_ci_fix_attempt ops tid =
     quietly (st_bind (op_increment ops task_executions tid [(''ci_fix_attempts'', JInt 1)])
       (\<lambda>_. op_update ops task_executions tid [(''ci_fix_in_progress'', JBool True)]))"

definition clear_ci_fix_in_progress :: "'s store_ops \<Rightarrow> string \<Rightarrow> ('s, unit) store_op" where
  "clear_ci_fix_in_progress ops tid = quietly (op_update ops task_executions tid [(''ci_fix_in_progress'', JBool False)])"

record evaluation_result =
  fulfillment_score :: json
  tool_call_valid_score :: json
  safety_score :: json
  overall_quality :: json
  evaluation_error :: json

definition record_evaluation :: "'s store_ops \<Rightarrow> string \<Rightarrow> evaluation_result \<Rightarrow> ('s, unit) store_op" where
  "record_evaluation ops tid ev =
     quietly (op_update ops task_executions tid
       [(''evaluation_scores'',
           JObj [(''fulfillment'', fulfillment_score ev), (''tool_call_valid'', tool_call_valid_score ev),
                 (''safety'', safety_score ev), (''overall_quality'', overall_quality ev)]),
        (''evaluation_error'', evaluation_error ev)])"

section \<open>Node results\<close>

text \<open>The telemetry of a report beyond the fields the executor reads.\<close>

record operative_telemetry = operative_report +
  tm_cached_input_tokens :: int
  tm_model_calls :: int
  tm_tool_calls :: int
  tm_wall_clock_seconds :: rat
  tm_confidence_score :: rat
  tm_steps_used :: int
  tm_context_at_start :: int
  tm_context_at_end :: int

text \<open>
  \<open>tracker.estimate_cost\<close> with the settings at hand: an unpriced model costs nothing. \<open>_node_cost\<close>
  prefers the figure the provider billed.
\<close>

definition tracker_estimate_cost :: "settings \<Rightarrow> string \<Rightarrow> int \<Rightarrow> int \<Rightarrow> int \<Rightarrow> int \<Rightarrow> rat" where
  "tracker_estimate_cost st model i out cached written =
     (case lookup_price (resolve_model_name st model None) of
        None \<Rightarrow> 0
      | Some _ \<Rightarrow> estimate_cost_for_settings st model i out cached written)"

definition node_cost :: "settings \<Rightarrow> operative_telemetry \<Rightarrow> string \<Rightarrow> rat" where
  "node_cost st r model =
     (if rep_cost_usd r > 0 then rep_cost_usd r
      else tracker_estimate_cost st model (rep_input_tokens r) (rep_output_tokens r) (tm_cached_input_tokens r) 0)"

definition node_data :: "operative_telemetry \<Rightarrow> string \<Rightarrow> rat \<Rightarrow> doc" where
  "node_data r model cost =
     [(''input_tokens'', JInt (rep_input_tokens r)), (''output_tokens'', JInt (rep_output_tokens r)),
      (''cached_input_tokens'', JInt (tm_cached_input_tokens r)), (''model_calls'', JInt (tm_model_calls r)),
      (''tool_calls'', JInt (tm_tool_calls r)), (''wall_clock_seconds'', JFloat (tm_wall_clock_seconds r)),
      (''cost_usd'', JFloat cost), (''model_name'', JStr model), (''status'', JStr (status_value (rep_status r))),
      (''confidence_score'', JFloat (tm_confidence_score r)), (''steps_used'', JInt (tm_steps_used r)),
      (''context_tokens_at_start'', JInt (tm_context_at_start r)), (''context_tokens_at_end'', JInt (tm_context_at_end r))]"

definition counter_deltas :: "operative_telemetry \<Rightarrow> rat \<Rightarrow> doc" where
  "counter_deltas r cost =
     filter (\<lambda>(k, v). py_true v)
       [(''total_input_tokens'', JInt (rep_input_tokens r)), (''total_output_tokens'', JInt (rep_output_tokens r)),
        (''total_model_calls'', JInt (tm_model_calls r)), (''total_tool_calls'', JInt (tm_tool_calls r)),
        (''estimated_cost_usd'', JFloat cost), (''wall_clock_seconds'', JFloat (tm_wall_clock_seconds r))]"

text \<open>Append what is not in the list yet.\<close>

fun add_missing :: "json list \<Rightarrow> json list \<Rightarrow> json list" where
  "add_missing xs [] = xs"
| "add_missing xs (y # ys) = add_missing (if list_ex (py_eq y) xs then xs else xs @ [y]) ys"

text \<open>The structured part of \<open>record_node_result\<close>, under the lock of the document.\<close>

definition merge_node :: "doc \<Rightarrow> string \<Rightarrow> operative_telemetry \<Rightarrow> doc \<Rightarrow> doc option" where
  "merge_node current nid r data =
     (case (as_list (dict_get_or current ''nodes_executed'' (JList [])),
            as_list (dict_get_or current ''files_changed'' (JList [])),
            as_dict (dict_get_or current ''node_metrics'' (JObj []))) of
        (Some nodes, Some files, Some metrics) \<Rightarrow>
          Some ([(''node_metrics'', JObj (dict_set metrics nid (JObj data))),
                 (''nodes_executed'', JList (add_missing nodes [JStr nid])),
                 (''confidence_score'', JFloat (tm_confidence_score r))] @
                (if rep_files_changed r = [] then []
                 else [(''files_changed'', JList (add_missing files (map JStr (rep_files_changed r))))]))
      | _ \<Rightarrow> None)"

definition record_node_result ::
  "'s store_ops \<Rightarrow> settings \<Rightarrow> string \<Rightarrow> string \<Rightarrow> operative_telemetry \<Rightarrow> ('s, unit) store_op" where
  "record_node_result ops st tid nid r =
     (let model = (if rep_model_name r = [] then [] else resolve_model_name st (rep_model_name r) None);
          cost = node_cost st r model;
          deltas = counter_deltas r cost
      in quietly
        (st_bind (if deltas = [] then st_return () else op_increment ops task_executions tid deltas) (\<lambda>_.
         st_bind (op_get ops task_executions tid) (\<lambda>d.
         st_bind (or_type_error (merge_node (case d of None \<Rightarrow> [] | Some c \<Rightarrow> c) nid r (node_data r model cost))) (\<lambda>u.
         op_update ops task_executions tid u)))))"

section \<open>Checkpoints\<close>

text \<open>
  The dictionaries of the executor as JSON values: a result has the keys its handler set, and a report
  is dumped with it (here with the fields the executor reads back).
\<close>

definition report_json :: "operative_report \<Rightarrow> json" where
  "report_json r =
     JObj ([(''operative_id'', JStr (rep_operative_id r)), (''status'', JStr (status_value (rep_status r))),
            (''summary'', JStr (rep_summary r))] @
           opt_item ''error'' JStr (rep_error r) @ opt_item ''block_reason'' JStr (rep_block_reason r) @
           [(''files_changed'', JList (map JStr (rep_files_changed r))), (''model_name'', JStr (rep_model_name r)),
            (''total_input_tokens'', JInt (rep_input_tokens r)), (''total_output_tokens'', JInt (rep_output_tokens r)),
            (''estimated_cost_usd'', JFloat (rep_cost_usd r))])"

definition result_json :: "node_result \<Rightarrow> json" where
  "result_json r =
     JObj (opt_item ''condition'' (JStr \<circ> condition_value) (nr_condition r) @
           opt_item ''message'' JStr (nr_message r) @ opt_item ''output'' JStr (nr_output r) @
           (if nr_escalated r then [(''escalated'', JBool True)] else []) @
           opt_item ''escalation_reason'' JStr (nr_escalation_reason r) @ opt_item ''pr_url'' JStr (nr_pr_url r) @
           opt_item ''pr_number'' JInt (nr_pr_number r) @ opt_item ''report'' report_json (nr_report r) @
           opt_item ''lair_id'' JStr (nr_lair_id r) @
           (if nr_dev_mode r then [(''dev_mode'', JBool True)] else []) @ opt_item ''plan'' JStr (nr_plan r))"

definition results_json :: "results \<Rightarrow> json" where
  "results_json nrs = JObj (map (\<lambda>(k, r). (k, result_json r)) nrs)"

definition counts_json :: "(string, nat) dict \<Rightarrow> json" where
  "counts_json rcs = JObj (map (\<lambda>(k, n). (k, JInt (int n))) rcs)"

definition checkpoint_doc :: "int \<Rightarrow> string \<Rightarrow> results \<Rightarrow> (string, nat) dict \<Rightarrow> doc" where
  "checkpoint_doc now nid nrs rcs =
     [(''current_node_id'', JStr nid), (''node_results'', results_json nrs), (''retry_counts'', counts_json rcs),
      (''execution_state'', JStr ''running''), (''last_heartbeat'', JTime now)]"

definition update_execution_state ::
  "'s store_ops \<Rightarrow> int \<Rightarrow> string \<Rightarrow> string \<Rightarrow> results \<Rightarrow> (string, nat) dict \<Rightarrow> ('s, unit) store_op" where
  "update_execution_state ops now tid nid nrs rcs =
     quietly (op_update ops task_executions tid (checkpoint_doc now nid nrs rcs))"

text \<open>Reading a checkpoint back, as the executor reads the dictionaries.\<close>

definition str_of :: "json \<Rightarrow> string option" where
  "str_of v = (case v of JStr s \<Rightarrow> Some s | _ \<Rightarrow> None)"

definition int_of :: "json \<Rightarrow> int option" where
  "int_of v = (case v of JInt i \<Rightarrow> Some i | _ \<Rightarrow> None)"

definition strs_of :: "json \<Rightarrow> string list" where
  "strs_of v = (case v of JList xs \<Rightarrow> List.map_filter str_of xs | _ \<Rightarrow> [])"

definition condition_of :: "json \<Rightarrow> edge_condition option" where
  "condition_of v = (if v = JStr ''pass'' then Some Pass else if v = JStr ''fail'' then Some Fail else None)"

definition status_of :: "json \<Rightarrow> operative_status option" where
  "status_of v =
     find (\<lambda>s. v = JStr (status_value s))
       [SPAWNING, INITIALIZING, EXECUTING, REPORTING, COMPLETED, FAILED, TIMED_OUT, BLOCKED, INTERRUPTED]"

definition report_of :: "json \<Rightarrow> operative_report option" where
  "report_of v =
     (case v of
        JObj d \<Rightarrow>
          (case (str_of (doc_get d ''operative_id''), status_of (doc_get d ''status''), str_of (doc_get d ''summary''),
                 str_of (doc_get d ''model_name''), int_of (doc_get d ''total_input_tokens''),
                 int_of (doc_get d ''total_output_tokens''), num_of (doc_get d ''estimated_cost_usd'')) of
             (Some oid, Some st, Some sm, Some mn, Some i, Some out, Some c) \<Rightarrow>
               Some \<lparr>rep_operative_id = oid, rep_status = st, rep_summary = sm, rep_error = str_of (doc_get d ''error''),
                     rep_block_reason = str_of (doc_get d ''block_reason''),
                     rep_files_changed = strs_of (doc_get d ''files_changed''), rep_model_name = mn,
                     rep_input_tokens = i, rep_output_tokens = out, rep_cost_usd = c\<rparr>
           | _ \<Rightarrow> None)
      | _ \<Rightarrow> None)"

definition result_of :: "json \<Rightarrow> node_result" where
  "result_of v =
     (let d = (case v of JObj d \<Rightarrow> d | _ \<Rightarrow> []) in
      \<lparr>nr_condition = condition_of (doc_get d ''condition''), nr_message = str_of (doc_get d ''message''),
       nr_output = str_of (doc_get d ''output''), nr_escalated = py_true (doc_get d ''escalated''),
       nr_escalation_reason = str_of (doc_get d ''escalation_reason''), nr_pr_url = str_of (doc_get d ''pr_url''),
       nr_pr_number = int_of (doc_get d ''pr_number''), nr_report = report_of (doc_get d ''report''),
       nr_lair_id = str_of (doc_get d ''lair_id''), nr_dev_mode = py_true (doc_get d ''dev_mode''),
       nr_plan = str_of (doc_get d ''plan'')\<rparr>)"

definition saved_results :: "doc \<Rightarrow> results" where
  "saved_results d =
     (case doc_get d ''node_results'' of JObj rs \<Rightarrow> map (\<lambda>(k, v). (k, result_of v)) rs | _ \<Rightarrow> [])"

definition saved_counts :: "doc \<Rightarrow> (string, nat) dict" where
  "saved_counts d =
     (case doc_get d ''retry_counts'' of
        JObj rs \<Rightarrow> map (\<lambda>(k, v). (k, case v of JInt i \<Rightarrow> nat i | _ \<Rightarrow> 0)) rs | _ \<Rightarrow> [])"

section \<open>Reading\<close>

definition get_task_strict :: "'s store_ops \<Rightarrow> string \<Rightarrow> ('s, doc option) store_op" where
  "get_task_strict ops tid = op_get ops task_executions tid"

definition get_task :: "'s store_ops \<Rightarrow> string \<Rightarrow> ('s, doc option) store_op" where
  "get_task ops tid = st_catch (get_task_strict ops tid) (\<lambda>_. st_return None)"

text \<open>Fail-closed: the failure of the query is raised again.\<close>

definition stalled_filters :: "int \<Rightarrow> int \<Rightarrow> filter_clause list" where
  "stalled_filters now threshold =
     [(''execution_state'', ''=='', JStr ''running''), (''last_heartbeat'', ''<'', JTime (now - minutes threshold))]"

definition get_stalled_tasks :: "'s store_ops \<Rightarrow> int \<Rightarrow> int \<Rightarrow> ('s, doc list) store_op" where
  "get_stalled_tasks ops now threshold = op_query ops task_executions (stalled_filters now threshold) None False None"

definition get_recent_tasks :: "'s store_ops \<Rightarrow> int \<Rightarrow> int \<Rightarrow> ('s, doc list) store_op" where
  "get_recent_tasks ops now n =
     st_catch (op_query ops task_executions [(''created_at'', ''>='', JTime (now - days n))] (Some ''created_at'') True None)
       (\<lambda>_. st_return [])"

text \<open>
  The range \<open>[prefix, prefix + "\uffff")\<close>, ordered, cut to one document. The bound is written with the
  largest character of the model; ids are hexadecimal.
\<close>

definition get_task_by_id_prefix :: "'s store_ops \<Rightarrow> string \<Rightarrow> ('s, doc option) store_op" where
  "get_task_by_id_prefix ops pre =
     st_catch
       (st_bind (op_query ops task_executions
            [(''task_id'', ''>='', JStr pre), (''task_id'', ''<'', JStr (pre @ [CHR 0xFF]))] (Some ''task_id'') False (Some 1))
          (\<lambda>ds. st_return (case ds of [] \<Rightarrow> None | d # _ \<Rightarrow> Some d)))
       (\<lambda>_. st_return None)"

section \<open>The metrics summary\<close>

record metrics_summary =
  ms_total :: nat
  ms_success_rate :: rat
  ms_escalation_rate :: rat
  ms_avg_cost :: rat
  ms_total_cost :: json
  ms_tokens_in :: json
  ms_tokens_out :: json
  ms_cost_by_model :: "(string, json) dict"
  ms_escalation_reasons :: "(string, nat) dict"

text \<open>\<open>sum(t.get(field, 0) for t in tasks)\<close>; \<open>None\<close> is a \<open>TypeError\<close>.\<close>

fun sum_json :: "json list \<Rightarrow> json \<Rightarrow> json option" where
  "sum_json [] acc = Some acc"
| "sum_json (v # vs) acc = (case py_add acc v of None \<Rightarrow> None | Some w \<Rightarrow> sum_json vs w)"

definition sum_field :: "string \<Rightarrow> doc list \<Rightarrow> json option" where
  "sum_field f ts = sum_json (map (\<lambda>t. dict_get_or t f (JInt 0)) ts) (JInt 0)"

text \<open>\<open>nm.get("model_name") or "unknown"\<close>: a non-string is not a key the tracker writes.\<close>

definition model_key :: "doc \<Rightarrow> string" where
  "model_key nm = (case doc_get nm ''model_name'' of JStr s \<Rightarrow> (if s = [] then ''unknown'' else s) | _ \<Rightarrow> ''unknown'')"

fun add_model_costs :: "(string \<times> json) list \<Rightarrow> (string, json) dict \<Rightarrow> (string, json) dict option" where
  "add_model_costs [] acc = Some acc"
| "add_model_costs ((nid, JObj nm) # rest) acc =
     (let m = model_key nm in
      case py_add (dict_get_or acc m (JFloat 0)) (dict_get_or nm ''cost_usd'' (JFloat 0)) of
        None \<Rightarrow> None
      | Some v \<Rightarrow> add_model_costs rest (dict_set acc m v))"
| "add_model_costs (_ # rest) acc = None"

fun cost_by_model :: "doc list \<Rightarrow> (string, json) dict \<Rightarrow> (string, json) dict option" where
  "cost_by_model [] acc = Some acc"
| "cost_by_model (t # ts) acc =
     (case dict_get_or t ''node_metrics'' (JObj []) of
        JObj ms \<Rightarrow> (case add_model_costs ms acc of None \<Rightarrow> None | Some acc' \<Rightarrow> cost_by_model ts acc')
      | _ \<Rightarrow> None)"

definition count_reason :: "doc \<Rightarrow> (string, nat) dict \<Rightarrow> (string, nat) dict" where
  "count_reason t acc =
     (case doc_get t ''escalation_reason'' of
        JStr r \<Rightarrow> (if r = [] then acc else dict_set acc r (dict_get_or acc r 0 + 1))
      | _ \<Rightarrow> acc)"

definition succeeded :: "doc \<Rightarrow> bool" where
  "succeeded t = (case doc_get t ''final_status'' of JStr s \<Rightarrow> py_lower s \<in> set success_statuses | _ \<Rightarrow> False)"

text \<open>The aggregate of a non-empty list of tasks; \<open>None\<close> is an exception of a sum.\<close>

definition summarize :: "doc list \<Rightarrow> metrics_summary option" where
  "summarize ts =
     (case (sum_field ''estimated_cost_usd'' ts, sum_field ''total_input_tokens'' ts, sum_field ''total_output_tokens'' ts,
            cost_by_model ts []) of
        (Some c, Some i, Some out, Some by_model) \<Rightarrow>
          (case num_of c of
             None \<Rightarrow> None
           | Some r \<Rightarrow>
               Some \<lparr>ms_total = length ts,
                     ms_success_rate = of_nat (length (filter succeeded ts)) / of_nat (length ts),
                     ms_escalation_rate =
                       of_nat (length (filter (\<lambda>t. doc_get t ''final_status'' = JStr ''escalated'') ts)) / of_nat (length ts),
                     ms_avg_cost = r / of_nat (length ts), ms_total_cost = c, ms_tokens_in = i, ms_tokens_out = out,
                     ms_cost_by_model = by_model, ms_escalation_reasons = fold count_reason ts []\<rparr>)
      | _ \<Rightarrow> None)"

datatype summary_reply = NoTasks | Summary metrics_summary | SummaryFailed

definition get_metrics_summary :: "'s store_ops \<Rightarrow> int \<Rightarrow> int \<Rightarrow> ('s, summary_reply) store_op" where
  "get_metrics_summary ops now n =
     st_bind (get_recent_tasks ops now n) (\<lambda>ts.
       st_return (if ts = [] then NoTasks
                  else (case summarize ts of None \<Rightarrow> SummaryFailed | Some m \<Rightarrow> Summary m)))"

section \<open>Cleaning up\<close>

text \<open>The ids of the documents that have one, in order.\<close>

definition field_ids :: "string \<Rightarrow> doc list \<Rightarrow> string list" where
  "field_ids f ds = filter (\<lambda>k. k \<noteq> []) (List.map_filter (\<lambda>d. str_of (doc_get d f)) ds)"

definition cleanup_expired :: "'s store_ops \<Rightarrow> int \<Rightarrow> nat \<Rightarrow> ('s, nat) store_op" where
  "cleanup_expired ops now batch =
     st_catch
       (st_bind (op_query ops task_executions [(''expires_at'', ''<'', JTime now)] None False (Some batch)) (\<lambda>ds.
        st_bind (st_map (op_delete ops task_executions) (field_ids ''task_id'' ds)) (\<lambda>_.
        st_return (length (field_ids ''task_id'' ds)))))
       (\<lambda>_. st_return 0)"

text \<open>The keys of both sweeps, each once, in the order of their first sight.\<close>

definition cleanup_processed_messages :: "'s store_ops \<Rightarrow> int \<Rightarrow> int \<Rightarrow> nat \<Rightarrow> ('s, nat) store_op" where
  "cleanup_processed_messages ops now retention batch =
     (let cutoff = JTime (now - days retention) in
      st_catch
        (st_bind (op_query ops processed_messages [(''processed_at'', ''<'', cutoff)] None False (Some batch)) (\<lambda>ds1.
         st_bind (op_query ops processed_messages [(''acquired_at'', ''<'', cutoff)] None False (Some batch)) (\<lambda>ds2.
         let keys = take batch (rev (remdups (rev (field_ids ''key'' (ds1 @ ds2))))) in
         st_bind (st_map (op_delete ops processed_messages) keys) (\<lambda>_. st_return (length keys)))))
        (\<lambda>_. st_return 0))"

section \<open>A checkpoint is read back as it was written\<close>

lemma doc_get_append: "doc_get (d @ e) k = (case dict_get d k of None \<Rightarrow> doc_get e k | Some v \<Rightarrow> v)"
  by (simp add: doc_get_def dict_get_or_def map_add_def split: option.splits)

definition opt_or :: "'a option \<Rightarrow> ('a \<Rightarrow> 'b) \<Rightarrow> 'b \<Rightarrow> 'b" where
  "opt_or v f w = (case v of None \<Rightarrow> w | Some x \<Rightarrow> f x)"

lemma doc_get_opt_item [simp]:
  "doc_get (opt_item k f v @ d) k' = (if k' = k then opt_or v f (doc_get d k) else doc_get d k')"
  "doc_get (opt_item k f v) k' = (if k' = k then opt_or v f JNull else JNull)"
  by (simp_all add: opt_item_def opt_or_def split: option.split)

lemma doc_get_if_item [simp]:
  "doc_get ((if b then [(k, v)] else []) @ d) k' = (if b \<and> k' = k then v else doc_get d k')"
  by simp

lemma of_option [simp]: "str_of (opt_or v JStr JNull) = v" "int_of (opt_or w JInt JNull) = w"
  by (simp_all add: str_of_def int_of_def opt_or_def split: option.split)

lemma of_plain [simp]:
  "str_of (JStr s) = Some s" "int_of (JInt i) = Some i" "str_of JNull = None" "int_of JNull = None"
  by (simp_all add: str_of_def int_of_def)

lemma condition_of_value [simp]: "condition_of (opt_or c (JStr \<circ> condition_value) JNull) = c"
proof (cases c)
  case None
  then show ?thesis by (simp add: condition_of_def opt_or_def)
next
  case (Some x)
  then show ?thesis by (cases x) (simp_all add: condition_of_def opt_or_def)
qed

lemma status_of_value [simp]: "status_of (JStr (status_value st)) = Some st"
  by (cases st) (simp_all add: status_of_def)

lemma strs_of_map [simp]: "strs_of (JList (map JStr xs)) = xs"
  by (simp add: strs_of_def List.map_filter_def comp_def)

lemma report_of_json [simp]: "report_of (report_json r) = Some r"
  by (simp add: report_of_def report_json_def)

lemma report_of_option [simp]: "report_of (opt_or v report_json JNull) = v"
proof (cases v)
  case None
  then show ?thesis by (simp add: opt_or_def report_of_def)
qed (simp add: opt_or_def)

lemma result_of_json: "result_of (result_json r) = r"
proof -
  have flag: "(if b then [(k, JBool True)] else []) @ d = opt_item k JBool (if b then Some True else None) @ d" for b k and d :: doc
    by (simp add: opt_item_def)
  have flag_of: "py_true (opt_or (if b then Some True else None) JBool JNull) = b" for b
    by (simp add: opt_or_def)
  show ?thesis
    unfolding result_of_def result_json_def flag by (simp add: flag_of del: if_split)
qed

lemma saved_checkpoint:
  assumes "doc_get d ''node_results'' = results_json nrs" "doc_get d ''retry_counts'' = counts_json rcs"
  shows "saved_results d = nrs" "saved_counts d = rcs"
  using assms by (simp_all add: saved_results_def saved_counts_def results_json_def counts_json_def comp_def
      result_of_json case_prod_beta map_idI)

section \<open>The tracker on a lawful store\<close>

text \<open>What an update writes: the fields of \<open>u\<close> over the document, which is created when missing.\<close>

definition patch :: "string \<Rightarrow> doc \<Rightarrow> (string \<Rightarrow> doc option) \<Rightarrow> string \<Rightarrow> doc option" where
  "patch i u x = x(i \<mapsto> without_id (case x i of None \<Rightarrow> u | Some e \<Rightarrow> dict_merge e u))"

lemma patch_other [simp]: "j \<noteq> i \<Longrightarrow> patch i u x j = x j"
  by (simp add: patch_def)

text \<open>The document of a task, empty when there is none.\<close>

definition doc_of :: "(string \<Rightarrow> doc option) \<Rightarrow> string \<Rightarrow> doc" where
  "doc_of x i = (case x i of None \<Rightarrow> [] | Some d \<Rightarrow> d)"

lemma doc_of_patch:
  "distinct (dict_keys u) \<Longrightarrow> f \<noteq> ''_id'' \<Longrightarrow>
     doc_get (doc_of (patch i u x) j) f =
       (if j = i then (case dict_get u f of None \<Rightarrow> doc_get (doc_of x i) f | Some v \<Rightarrow> v) else doc_get (doc_of x j) f)"
  by (simp add: doc_of_def patch_def doc_get_merge split: option.split) (simp add: doc_get_def dict_get_or_def split: option.split)

lemma quietly_refines: "refines good q m P \<Longrightarrow> refines good q (quietly m) P"
  unfolding refines_def quietly_def using st_catch_Inr by fastforce

lemma quietly_total: "\<exists>s'. quietly m s = (Inr (), s')"
  by (cases "m s") (auto simp: quietly_def st_catch_def split: sum.split)

lemma get_task_total: "\<exists>d s'. get_task ops i s = (Inr d, s')"
  by (cases "get_task_strict ops i s") (auto simp: get_task_def st_catch_def split: sum.split)

text \<open>The writing operations return on every store, also on one that always raises.\<close>

lemmas tracker_total [simp] =
  quietly_total get_task_total

locale tracker_store = document_store ops task_executions docs ok
  for ops :: "'s store_ops" and docs :: "'s \<Rightarrow> string \<Rightarrow> doc option" and ok :: "'s \<Rightarrow> bool"
begin

lemma update_patch: "refines ok docs (quietly (op_update ops task_executions i u)) (\<lambda>x _ y. y = patch i u x)"
  by (rule quietly_refines) (auto simp: refines_def patch_def dest: update_law [of _ i u])

lemma start_refines:
  "refines ok docs (start_task ops dump now task scheme)
     (\<lambda>x _ y. y = x(task_id task \<mapsto> without_id (initial_doc dump now task scheme)))"
  unfolding start_task_def
  by (rule quietly_refines) (auto simp: refines_def dest: set_law [of _ "task_id task" "initial_doc dump now task scheme"])

lemma get_refines: "refines ok docs (get_task ops i) (\<lambda>x d y. y = x \<and> d = map_option (with_id i) (x i))"
  unfolding get_task_def get_task_strict_def refines_def
proof (intro allI impI)
  fix s assume "ok s"
  from get_law [OF this, of i] obtain s' where "op_get ops task_executions i s = (Inr (map_option (with_id i) (docs s i)), s')"
    "ok s'" "docs s' = docs s" by blast
  then show "\<exists>a s'. st_catch (op_get ops task_executions i) (\<lambda>_. st_return None) s = (Inr a, s') \<and> ok s' \<and>
      docs s' = docs s \<and> a = map_option (with_id i) (docs s i)"
    by (simp add: st_catch_Inr)
qed

lemmas update_refines =
  update_patch [of i "finalize_doc now status pr_url pr_number" for i now status pr_url pr_number, folded finalize_task_def]
  update_patch [of i "[(''last_heartbeat'', JTime now)]" for i now, folded update_heartbeat_def]
  update_patch [of i "[(''execution_state'', JStr ''stalled'')]" for i, folded mark_stalled_def]
  update_patch [of i "escalate_doc now reason node" for i now reason node, folded mark_escalated_def]
  update_patch [of i "checkpoint_doc now nid nrs rcs" for i now nid nrs rcs, folded update_execution_state_def]
  update_patch [of i "[(''ci_passed'', JBool passed)]" for i passed, folded record_ci_result_def]
  update_patch [of i "[(''ci_fix_in_progress'', JBool False)]" for i, folded clear_ci_fix_in_progress_def]

text \<open>A checkpoint is restored exactly.\<close>

lemma checkpoint_roundtrip:
  assumes "ok s"
  shows "\<exists>s1 d s2. update_execution_state ops now tid nid nrs rcs s = (Inr (), s1) \<and>
    get_task ops tid s1 = (Inr (Some d), s2) \<and> saved_results d = nrs \<and> saved_counts d = rcs"
proof -
  let ?u = "checkpoint_doc now nid nrs rcs"
  obtain a s1 where s1: "update_execution_state ops now tid nid nrs rcs s = (Inr a, s1)" "ok s1"
    "docs s1 = patch tid ?u (docs s)"
    using refinesD [OF update_refines(5) assms, of now tid nid nrs rcs] by blast
  obtain s2 where s2: "get_task ops tid s1 = (Inr (map_option (with_id tid) (docs s1 tid)), s2)"
    using refinesD [OF get_refines s1(2), of tid] by blast
  obtain e where e: "docs s1 tid = Some e" by (simp add: s1(3) patch_def)
  have "distinct (dict_keys ?u)" by (simp add: checkpoint_doc_def)
  from doc_of_patch [OF this, of _ tid "docs s" tid] e s1(3)
  have "f \<noteq> ''_id'' \<Longrightarrow> doc_get e f = (case dict_get ?u f of None \<Rightarrow> doc_get (doc_of (docs s) tid) f | Some v \<Rightarrow> v)" for f
    by (simp add: doc_of_def)
  then have "doc_get (with_id tid e) ''node_results'' = results_json nrs" "doc_get (with_id tid e) ''retry_counts'' = counts_json rcs"
    by (simp_all add: checkpoint_doc_def)
  from saved_checkpoint [OF this] s1(1) s2 e show ?thesis by simp
qed

end

interpretation tracker_sqlite: tracker_store sqlite_ops "sq_docs task_executions" "sq_ok task_executions"
  by unfold_locales

end
