(* ===== verification/MessageDedup.thy ===== *)
theory MessageDedup
  imports Tracker
begin

text \<open>
  Deliveries that must not be processed twice: the two-phase markers of \<open>utils/message_dedup.py\<close> in the
  document store, and the in-process replay guard \<open>TTLSet\<close> of \<open>dispatch/idempotency.py\<close>.
\<close>

section \<open>Markers in the document store\<close>

definition seconds :: "int \<Rightarrow> int" where
  "seconds n = n * 1000000"

text \<open>\<open>DEFAULT_INFLIGHT_TTL_SECONDS\<close>.\<close>

definition inflight_ttl :: int where
  "inflight_ttl = seconds 900"

text \<open>
  When the marker was acquired: \<open>None\<close> without a usable field, \<open>TypeErr\<close> for a field that is no
  string, the current time for a string that is no timestamp.
\<close>

definition acquired_time :: "int \<Rightarrow> doc \<Rightarrow> store_error + int option" where
  "acquired_time now d =
     (let raw = (if py_true (doc_get d ''acquired_at'') then doc_get d ''acquired_at'' else doc_get d ''processed_at'') in
      if \<not> py_true raw then Inr None
      else (case raw of JTime t \<Rightarrow> Inr (Some t) | JStr _ \<Rightarrow> Inr (Some now) | _ \<Rightarrow> Inl TypeErr))"

text \<open>Whether the marker that was read makes the delivery a duplicate.\<close>

definition is_duplicate :: "int \<Rightarrow> int \<Rightarrow> doc option \<Rightarrow> store_error + bool" where
  "is_duplicate now ttl existing =
     (case existing of
        None \<Rightarrow> Inr False
      | Some d \<Rightarrow>
          if py_eq (dict_get_or d ''status'' (JStr ''done'')) (JStr ''done'') then Inr True
          else res_bind (acquired_time now d) (\<lambda>t. Inr (case t of None \<Rightarrow> False | Some acquired \<Rightarrow> now - acquired < ttl)))"

definition in_flight_marker :: "int \<Rightarrow> string \<Rightarrow> string \<Rightarrow> doc" where
  "in_flight_marker now handler key =
     [(''status'', JStr ''in_flight''), (''acquired_at'', JTime now), (''processed_at'', JTime now),
      (''handler'', JStr handler), (''key'', JStr key)]"

text \<open>A claim is a read and a write, two operations of the store: \<open>True\<close> means duplicate.\<close>

definition check_marker :: "'s store_ops \<Rightarrow> int \<Rightarrow> int \<Rightarrow> string \<Rightarrow> ('s, bool) store_op" where
  "check_marker ops now ttl key =
     st_bind (op_get ops processed_messages key) (\<lambda>e. st_lift (is_duplicate now ttl e))"

definition set_marker :: "'s store_ops \<Rightarrow> int \<Rightarrow> string \<Rightarrow> string \<Rightarrow> ('s, unit) store_op" where
  "set_marker ops now handler key = op_set ops processed_messages key (in_flight_marker now handler key)"

definition claim_message :: "'s store_ops \<Rightarrow> int \<Rightarrow> int \<Rightarrow> string \<Rightarrow> string \<Rightarrow> ('s, bool) store_op" where
  "claim_message ops now ttl handler key =
     st_bind (check_marker ops now ttl key) (\<lambda>dup.
       if dup then st_return True else st_bind (set_marker ops now handler key) (\<lambda>_. st_return False))"

definition done_marker :: "int \<Rightarrow> string \<Rightarrow> string \<Rightarrow> doc" where
  "done_marker now handler key =
     [(''status'', JStr ''done''), (''processed_at'', JTime now), (''handler'', JStr handler), (''key'', JStr key)]"

definition mark_message_done :: "'s store_ops \<Rightarrow> int \<Rightarrow> string \<Rightarrow> string \<Rightarrow> ('s, unit) store_op" where
  "mark_message_done ops now handler key = quietly (op_set ops processed_messages key (done_marker now handler key))"

definition release_message_claim :: "'s store_ops \<Rightarrow> string \<Rightarrow> ('s, unit) store_op" where
  "release_message_claim ops key = quietly (op_delete ops processed_messages key)"

section \<open>The markers as an abstract state\<close>

datatype marker = Unseen | InFlight int | Done

text \<open>The marker a document stands for; \<open>None\<close> when it is not one these functions write.\<close>

definition marker_of :: "string \<Rightarrow> doc option \<Rightarrow> marker option" where
  "marker_of key e =
     (case e of
        None \<Rightarrow> Some Unseen
      | Some d \<Rightarrow>
          if doc_get d ''key'' \<noteq> JStr key then None
          else if doc_get d ''status'' = JStr ''done'' then Some Done
          else if doc_get d ''status'' = JStr ''in_flight''
          then (case doc_get d ''acquired_at'' of JTime t \<Rightarrow> Some (InFlight t) | _ \<Rightarrow> None)
          else None)"

definition markers :: "(string \<Rightarrow> doc option) \<Rightarrow> string \<Rightarrow> marker" where
  "markers docs key = (case marker_of key (docs key) of None \<Rightarrow> Unseen | Some m \<Rightarrow> m)"

definition marker_docs :: "(string \<Rightarrow> doc option) \<Rightarrow> bool" where
  "marker_docs docs \<longleftrightarrow> (\<forall>key. marker_of key (docs key) \<noteq> None)"

fun blocks :: "int \<Rightarrow> int \<Rightarrow> marker \<Rightarrow> bool" where
  "blocks now ttl Unseen = False"
| "blocks now ttl (InFlight t) = (now - t < ttl)"
| "blocks now ttl Done = True"

lemma is_duplicate_marker:
  assumes "marker_of key e = Some m"
  shows "is_duplicate now ttl (map_option (with_id key) e) = Inr (blocks now ttl m)"
proof (cases e)
  case None
  with assms show ?thesis by (auto simp: marker_of_def is_duplicate_def)
next
  case (Some d)
  have st: "dict_get_or (with_id key d) ''status'' (JStr ''done'') =
      (case dict_get d ''status'' of None \<Rightarrow> JStr ''done'' | Some v \<Rightarrow> v)"
    by (simp add: dict_get_or_def)
  have val: "doc_get d ''status'' = JStr x \<Longrightarrow> dict_get d ''status'' = Some (JStr x)" for x
    by (auto simp: doc_get_def dict_get_or_def split: option.splits)
  show ?thesis
  proof (cases "doc_get d ''status'' = JStr ''done''")
    case True
    with assms Some st val [OF True] show ?thesis by (auto simp: marker_of_def is_duplicate_def split: if_splits)
  next
    case False
    with assms Some obtain t where m: "doc_get d ''status'' = JStr ''in_flight''" "doc_get d ''acquired_at'' = JTime t" "m = InFlight t"
      by (auto simp: marker_of_def split: if_splits json.splits)
    with Some st val [OF m(1)] show ?thesis by (simp add: is_duplicate_def acquired_time_def)
  qed
qed

lemma marker_of_written:
  "marker_of key (Some (without_id (in_flight_marker now h key))) = Some (InFlight now)"
  "marker_of key (Some (without_id (done_marker now h key))) = Some Done"
  by (simp_all add: marker_of_def in_flight_marker_def done_marker_def)

locale message_store = document_store ops processed_messages docs ok
  for ops :: "'s store_ops" and docs :: "'s \<Rightarrow> string \<Rightarrow> doc option" and ok :: "'s \<Rightarrow> bool"
begin

definition good :: "'s \<Rightarrow> bool" where
  "good s \<longleftrightarrow> ok s \<and> marker_docs (docs s)"

definition marks :: "'s \<Rightarrow> string \<Rightarrow> marker" where
  "marks s = markers (docs s)"

lemma marker_known: "good s \<Longrightarrow> marker_of key (docs s key) = Some (marks s key)"
  by (auto simp: good_def marker_docs_def marks_def markers_def split: option.splits)

lemma write_refines:
  assumes "\<And>x. marker_of key (Some (without_id d)) = Some m"
  shows "refines good marks (op_set ops processed_messages key d) (\<lambda>x _ y. y = x(key := m))"
  unfolding refines_def
proof (intro allI impI)
  fix s assume g: "good s"
  then obtain s' where s': "op_set ops processed_messages key d s = (Inr (), s')" "ok s'" "docs s' = (docs s)(key \<mapsto> without_id d)"
    using set_law [of s key d] by (auto simp: good_def)
  have "good s'" using g s' assms by (auto simp: good_def marker_docs_def)
  moreover have "marks s' = (marks s)(key := m)"
    using s'(3) assms by (auto simp: marks_def markers_def fun_eq_iff)
  ultimately show "\<exists>a s'. op_set ops processed_messages key d s = (Inr a, s') \<and> good s' \<and> marks s' = (marks s)(key := m)"
    using s'(1) by blast
qed

lemma check_refines: "refines good marks (check_marker ops now ttl key) (\<lambda>x a y. y = x \<and> a = blocks now ttl (x key))"
  unfolding refines_def
proof (intro allI impI)
  fix s assume g: "good s"
  then obtain s' where s': "op_get ops processed_messages key s = (Inr (map_option (with_id key) (docs s key)), s')" "ok s'" "docs s' = docs s"
    using get_law [of s key] by (auto simp: good_def)
  have "check_marker ops now ttl key s = (Inr (blocks now ttl (marks s key)), s')"
    using is_duplicate_marker [OF marker_known [OF g]] s'(1) by (simp add: check_marker_def st_bind_Inr)
  with s' g show "\<exists>a s'. check_marker ops now ttl key s = (Inr a, s') \<and> good s' \<and> marks s' = marks s \<and> a = blocks now ttl (marks s key)"
    by (auto simp: good_def marks_def)
qed

lemma mark_refines: "refines good marks (set_marker ops now h key) (\<lambda>x _ y. y = x(key := InFlight now))"
  unfolding set_marker_def by (rule write_refines) (rule marker_of_written)

lemma done_refines: "refines good marks (mark_message_done ops now h key) (\<lambda>x _ y. y = x(key := Done))"
  unfolding mark_message_done_def by (rule quietly_refines [OF write_refines]) (rule marker_of_written)

lemma release_refines: "refines good marks (release_message_claim ops key) (\<lambda>x _ y. y = x(key := Unseen))"
  unfolding release_message_claim_def
proof (rule quietly_refines, unfold refines_def, intro allI impI)
  fix s assume g: "good s"
  then obtain s' where s': "op_delete ops processed_messages key s = (Inr (), s')" "ok s'" "docs s' = (docs s)(key := None)"
    using delete_law [of s key] by (auto simp: good_def)
  have "good s'" using g s' by (auto simp: good_def marker_docs_def marker_of_def)
  moreover have "marks s' = (marks s)(key := Unseen)"
    using s'(3) by (auto simp: marks_def markers_def marker_of_def fun_eq_iff)
  ultimately show "\<exists>a s'. op_delete ops processed_messages key s = (Inr a, s') \<and> good s' \<and> marks s' = (marks s)(key := Unseen)"
    using s'(1) by blast
qed

text \<open>A claim that no other handler interrupts.\<close>

lemma claim_refines:
  "refines good marks (claim_message ops now ttl h key)
     (\<lambda>x dup y. dup = blocks now ttl (x key) \<and> y = (if dup then x else x(key := InFlight now)))"
  unfolding refines_def
proof (intro allI impI)
  fix s assume "good s"
  from refinesD [OF check_refines this, of now ttl key] obtain s1 where
    s1: "check_marker ops now ttl key s = (Inr (blocks now ttl (marks s key)), s1)" "good s1" "marks s1 = marks s" by blast
  from refinesD [OF mark_refines s1(2), of now h key] obtain s2 where
    s2: "set_marker ops now h key s1 = (Inr (), s2)" "good s2" "marks s2 = (marks s)(key := InFlight now)"
    unfolding s1(3) by auto
  show "\<exists>a s'. claim_message ops now ttl h key s = (Inr a, s') \<and> good s' \<and> a = blocks now ttl (marks s key) \<and>
      marks s' = (if a then marks s else (marks s)(key := InFlight now))"
    using s1 s2 by (cases "blocks now ttl (marks s key)") (auto simp: claim_message_def st_bind_Inr)
qed

end

interpretation dedup_sqlite: message_store sqlite_ops "sq_docs processed_messages" "sq_ok processed_messages"
  by unfold_locales

end
