(* ===== verification/Mastermind.thy ===== *)
theory Mastermind
  imports MessageDedup Handlers
begin

text \<open>
  The orchestrator (\<open>mastermind/agent.py\<close>): scheme selection, \<open>handle_task\<close>, \<open>resume_task\<close> and the CI
  fix loop, over the task tracker and the scheme executor. What lies outside (nodes, dossier, broker,
  GitHub, lairs) is the record \<open>outside\<close>; its operations act on the same state as the store. The
  in-memory set of active task ids is never read and not modelled, nor is the optional experiment log.
\<close>

section \<open>Choosing a scheme\<close>

definition feature_keywords :: "string list" where
  "feature_keywords =
     [''feature'', ''implement'', ''build'', ''create'', ''add'', ''new module'', ''new endpoint'', ''new page'',
      ''new component'', ''set up'', ''setup'', ''scaffold'', ''portal'', ''dashboard'', ''homepage'']"

definition bugfix_keywords :: "string list" where
  "bugfix_keywords = [''bug'', ''fix'', ''error'', ''crash'', ''broken'']"

definition goal_keywords :: "string list" where
  "goal_keywords =
     [''improve'', ''optimize'', ''refactor all'', ''fix all'', ''update all'', ''increase coverage'', ''reduce'',
      ''clean up all'', ''migrate'']"

text \<open>\<open>\w\<close> on code points below 256: alphanumeric or an underscore.\<close>

definition is_word_char :: "char \<Rightarrow> bool" where
  "is_word_char c =
     (let n = of_char c :: nat in
      (48 \<le> n \<and> n \<le> 57) \<or> (65 \<le> n \<and> n \<le> 90) \<or> n = 95 \<or> (97 \<le> n \<and> n \<le> 122) \<or>
      n \<in> {170, 178, 179, 181, 185, 186, 188, 189, 190} \<or> (192 \<le> n \<and> n \<noteq> 215 \<and> n \<noteq> 247))"

definition word_opt :: "char option \<Rightarrow> bool" where
  "word_opt c = (case c of None \<Rightarrow> False | Some d \<Rightarrow> is_word_char d)"

definition first_char :: "string \<Rightarrow> char option" where
  "first_char s = (case s of [] \<Rightarrow> None | c # _ \<Rightarrow> Some c)"

text \<open>\<open>\b\<close> between two neighbouring characters (none at either end of the text).\<close>

definition boundary :: "char option \<Rightarrow> char option \<Rightarrow> bool" where
  "boundary a b \<longleftrightarrow> word_opt a \<noteq> word_opt b"

text \<open>\<open>re.search(rf"\b{re.escape(kw)}\b", text)\<close>, with the character before the rest of the text.\<close>

fun word_search :: "char option \<Rightarrow> string \<Rightarrow> string \<Rightarrow> bool" where
  "word_search prev kw [] = False"
| "word_search prev kw (c # s) =
     ((prefix kw (c # s) \<and> boundary prev (Some (hd kw)) \<and> boundary (Some (last kw)) (first_char (drop (length kw) (c # s))))
      \<or> word_search (Some c) kw s)"

definition matches_keyword :: "string \<Rightarrow> string list \<Rightarrow> bool" where
  "matches_keyword text kws = list_ex (\<lambda>kw. word_search None kw text) kws"

definition select_scheme :: "henchmen_task \<Rightarrow> string" where
  "select_scheme task =
     (let title_lower = py_lower (title task);
          full_text = py_lower (title task @ '' '' @ description task) in
      if matches_keyword title_lower goal_keywords then ''goal_decomposition''
      else if task_type_of task = Some BUGFIX then ''bugfix_standard''
      else if task_type_of task = Some FEATURE \<or> task_type_of task = Some REFACTOR then ''feature_standard''
      else if matches_keyword full_text bugfix_keywords then ''bugfix_standard''
      else if matches_keyword full_text feature_keywords then ''feature_standard''
      else ''bugfix_standard'')"

section \<open>The outside\<close>

record 's outside =
  mm_store :: "'s store_ops"
  mm_clock :: "'s \<Rightarrow> int"
  mm_dump :: "henchmen_task \<Rightarrow> json"
  mm_load :: "json \<Rightarrow> henchmen_task option"
  mm_dossier :: "henchmen_task \<Rightarrow> scheme_graph \<Rightarrow> ('s, unit) store_op"
  mm_node :: "henchmen_task \<Rightarrow> scheme_node \<Rightarrow> results \<Rightarrow> 's \<Rightarrow> node_result \<times> 's"
  mm_publish :: "string \<Rightarrow> doc \<Rightarrow> doc \<Rightarrow> ('s, unit) store_op"
  mm_github_token :: "string \<Rightarrow> ('s, store_error + unit) store_op"
  mm_ci_errors :: "string \<Rightarrow> int \<Rightarrow> ('s, string list) store_op"
  mm_report :: "henchmen_task \<Rightarrow> ('s, unit) store_op"
  mm_fix_lair :: "string \<Rightarrow> string \<Rightarrow> nat \<Rightarrow> string list \<Rightarrow> ('s, operative_status) store_op"

text \<open>\<open>datetime.now(UTC)\<close>.\<close>

definition st_now :: "'s outside \<Rightarrow> ('s, int) store_op" where
  "st_now env s = (Inr (mm_clock env s), s)"

lemma st_now_run [simp]: "st_now env s = (Inr (mm_clock env s), s)"
  by (simp add: st_now_def)

section \<open>Running a scheme\<close>

definition task_env :: "'s outside \<Rightarrow> henchmen_task \<Rightarrow> 's exec_env" where
  "task_env env task =
     \<lparr>run_node = mm_node env task,
      checkpoint = (\<lambda>k nrs rcs s. snd (update_execution_state (mm_store env) (mm_clock env s) (task_id task) k nrs rcs s))\<rparr>"

text \<open>\<open>executor.execute\<close>: the report, or the \<open>ValueError\<close> of a scheme without a single root.\<close>

definition run_scheme :: "'s outside \<Rightarrow> henchmen_task \<Rightarrow> scheme_graph \<Rightarrow> exec_state \<Rightarrow> ('s, execution_report) store_op" where
  "run_scheme env task g st s =
     (case execute (task_env env task) g st s of
        Inl roots \<Rightarrow> (Inl (Raised ''no single root''), s)
      | Inr None \<Rightarrow> (Inl (Raised ''out of fuel''), s)
      | Inr (Some (rep, s')) \<Rightarrow> (Inr rep, s'))"

fun final_status_value :: "final_status \<Rightarrow> string" where
  "final_status_value Escalated = ''escalated''"
| "final_status_value PrCreated = ''pr_created''"
| "final_status_value Completed = ''completed''"

definition report_pr_number :: "execution_report \<Rightarrow> int option" where
  "report_pr_number rep = Option.bind (dict_get (er_node_results rep) ''create_pr'') nr_pr_number"

text \<open>\<open>escalation_reason(result)\<close>.\<close>

definition escalation_reason :: "execution_report \<Rightarrow> string" where
  "escalation_reason rep =
     (case er_escalation_node rep of
        None \<Rightarrow> ''Escalated during execution''
      | Some k \<Rightarrow>
          if k = [] then ''Escalated during execution''
          else (case dict_get (er_node_results rep) k of
                  Some r \<Rightarrow> if str_truthy (nr_escalation_reason r) then the (nr_escalation_reason r)
                            else ''Escalated at node: '' @ k
                | None \<Rightarrow> ''Escalated at node: '' @ k))"

definition trigger_ci :: "'s outside \<Rightarrow> henchmen_task \<Rightarrow> execution_report \<Rightarrow> ('s, unit) store_op" where
  "trigger_ci env task rep =
     (case er_pr_url rep of
        Some url \<Rightarrow>
          if contains_str ''pull/'' url
          then quietly (mm_publish env ''forge-request''
                 [(''pr_url'', JStr url), (''action'', JStr ''run_ci''), (''task_id'', JStr (task_id task))] [])
          else st_return ()
      | None \<Rightarrow> st_return ())"

definition finalize_now ::
  "'s outside \<Rightarrow> string \<Rightarrow> string \<Rightarrow> string option \<Rightarrow> int option \<Rightarrow> ('s, unit) store_op" where
  "finalize_now env tid status pr_url pr_number =
     st_bind (st_now env) (\<lambda>now. finalize_task (mm_store env) now tid status pr_url pr_number)"

definition escalate_now :: "'s outside \<Rightarrow> string \<Rightarrow> string \<Rightarrow> string option \<Rightarrow> ('s, unit) store_op" where
  "escalate_now env tid reason node = st_bind (st_now env) (\<lambda>now. mark_escalated (mm_store env) now tid reason node)"

section \<open>A task\<close>

datatype task_outcome =
    AlreadyRunning
  | NotStarted string
  | Finished execution_report
  | HandlerError store_error

text \<open>The body of the \<open>try\<close> of \<open>handle_task\<close>.\<close>

definition run_task :: "'s outside \<Rightarrow> registry \<Rightarrow> henchmen_task \<Rightarrow> ('s, task_outcome) store_op" where
  "run_task env reg task =
     (let tid = task_id task; scheme = select_scheme task in
      st_bind (st_now env) (\<lambda>now.
      st_bind (start_task (mm_store env) (mm_dump env) now task scheme) (\<lambda>_.
      case registry_get reg scheme of
        None \<Rightarrow>
          st_bind (finalize_now env tid ''escalated'' None None) (\<lambda>_. st_return (NotStarted (''Unknown scheme: '' @ scheme)))
      | Some g \<Rightarrow>
          (let problems = validate_deterministic_handlers g in
           if problems \<noteq> []
           then st_bind (finalize_now env tid ''escalated'' None None) (\<lambda>_.
                st_bind (escalate_now env tid (join_with ''; '' problems) None) (\<lambda>_.
                st_return (NotStarted (join_with ''; '' problems))))
           else st_bind (mm_dossier env task g) (\<lambda>_.
                st_bind (run_scheme env task g init_state) (\<lambda>rep.
                st_bind (trigger_ci env task rep) (\<lambda>_.
                st_bind (finalize_now env tid (final_status_value (final_status_of rep)) (er_pr_url rep) (report_pr_number rep)) (\<lambda>_.
                st_bind (if final_status_of rep = Escalated
                         then escalate_now env tid (escalation_reason rep) (er_escalation_node rep) else st_return ()) (\<lambda>_.
                st_return (Finished rep))))))))))"

text \<open>\<open>handle_task\<close>: a task that is running or stalled is left alone.\<close>

definition in_progress :: "doc option \<Rightarrow> bool" where
  "in_progress d =
     (case d of None \<Rightarrow> False
      | Some e \<Rightarrow> e \<noteq> [] \<and> (doc_get e ''execution_state'' = JStr ''running'' \<or> doc_get e ''execution_state'' = JStr ''stalled''))"

definition handle_task :: "'s outside \<Rightarrow> registry \<Rightarrow> henchmen_task \<Rightarrow> ('s, task_outcome) store_op" where
  "handle_task env reg task =
     st_bind (get_task (mm_store env) (task_id task)) (\<lambda>existing.
       if in_progress existing then st_return AlreadyRunning
       else st_catch (run_task env reg task)
              (\<lambda>e. st_bind (finalize_now env (task_id task) ''escalated'' None None) (\<lambda>_. st_return (HandlerError e))))"

section \<open>Resuming\<close>

datatype resume_outcome = CannotResume string | ResumeEscalated string | Resumed execution_report

text \<open>\<open>resume_task\<close> runs the scheme from the saved results and retry counts; its exceptions propagate.\<close>

definition resume_task :: "'s outside \<Rightarrow> registry \<Rightarrow> string \<Rightarrow> ('s, resume_outcome) store_op" where
  "resume_task env reg tid =
     st_bind (get_task (mm_store env) tid) (\<lambda>data.
     case data of
       None \<Rightarrow> st_return (CannotResume (''Task '' @ tid @ '' not found in Firestore''))
     | Some d \<Rightarrow>
         if \<not> py_true (doc_get d ''task_payload'')
         then st_return (CannotResume (''Task '' @ tid @ '' has no persisted payload for resume''))
         else (case mm_load env (doc_get d ''task_payload'') of
             None \<Rightarrow> st_raise (Raised ''invalid task payload'')
           | Some task \<Rightarrow>
               (let scheme = (case doc_get d ''scheme_id'' of JStr x \<Rightarrow> x | _ \<Rightarrow> []) in
                case registry_get reg scheme of
                  None \<Rightarrow> st_return (CannotResume (''Unknown scheme: '' @ scheme))
                | Some g \<Rightarrow>
                    (let problems = validate_deterministic_handlers g in
                     if problems \<noteq> []
                     then st_bind (escalate_now env tid (join_with ''; '' problems) None) (\<lambda>_.
                          st_return (ResumeEscalated (join_with ''; '' problems)))
                     else st_bind (mm_dossier env task g) (\<lambda>_.
                          st_bind (run_scheme env task g (resume_state (saved_results d) (saved_counts d))) (\<lambda>rep.
                          st_bind (finalize_now env tid (final_status_value (final_status_of rep)) (er_pr_url rep)
                                     (report_pr_number rep)) (\<lambda>_.
                          st_return (Resumed rep))))))))"

section \<open>The CI fix loop\<close>

datatype ci_outcome =
    CiSkipped string
  | CiEscalated string
  | FixFailed nat operative_status
  | FixDispatched nat
  | CiError store_error

definition max_ci_fixes :: rat where
  "max_ci_fixes = 2"

text \<open>
  \<open>handle_ci_failure\<close>: at most two fix operatives per task. The lair of the fix node (its creation and
  its report) is \<open>mm_fix_lair\<close>; \<open>mm_github_token\<close> returns the \<open>GitHubAuthError\<close> it catches.
\<close>

definition handle_ci_failure :: "'s outside \<Rightarrow> string \<Rightarrow> string \<Rightarrow> string \<Rightarrow> int \<Rightarrow> ('s, ci_outcome) store_op" where
  "handle_ci_failure env id_prefix repo branch suite =
     st_bind (get_task_by_id_prefix (mm_store env) id_prefix) (\<lambda>data.
     case data of
       None \<Rightarrow> st_return (CiSkipped ''task not found'')
     | Some d \<Rightarrow>
         (case (doc_get d ''task_id'', num_of (dict_get_or d ''ci_fix_attempts'' (JInt 0))) of
            (JStr tid, Some attempts) \<Rightarrow>
              if py_true (doc_get d ''ci_fix_in_progress'') then st_return (CiSkipped ''fix in progress'')
              else if attempts \<ge> max_ci_fixes
              then st_bind (record_ci_result (mm_store env) tid False) (\<lambda>_.
                   st_bind (escalate_now env tid ''CI still failing after max retries (2 fix attempts)'' None) (\<lambda>_.
                   st_return (CiEscalated ''CI still failing after max retries (2 fix attempts)'')))
              else if repo = [] then st_return (CiSkipped ''missing repo'')
              else st_bind (mm_github_token env repo) (\<lambda>tok. case tok of
                     Inl e \<Rightarrow>
                       st_bind (escalate_now env tid ''GitHub credentials unavailable'' None) (\<lambda>_.
                       st_return (CiEscalated ''GitHub credentials unavailable''))
                   | Inr _ \<Rightarrow>
                       st_bind (mm_ci_errors env repo suite) (\<lambda>errors.
                       if errors = [] then st_return (CiSkipped ''no errors found'')
                       else (let n = nat \<lfloor>attempts\<rfloor> + 1 in
                            st_bind (record_ci_fix_attempt (mm_store env) tid) (\<lambda>_.
                            st_catch
                              (st_bind (mm_fix_lair env tid branch n errors) (\<lambda>status.
                               st_bind (clear_ci_fix_in_progress (mm_store env) tid) (\<lambda>_.
                               st_return (if status = COMPLETED then FixDispatched n else FixFailed n status))))
                              (\<lambda>e. st_bind (clear_ci_fix_in_progress (mm_store env) tid) (\<lambda>_. st_return (CiError e)))))))
          | _ \<Rightarrow> st_raise TypeErr))"

section \<open>Every run of a task ends with a reply\<close>

lemma st_bind_total: "(\<And>s. \<exists>a s'. m s = (Inr a, s')) \<Longrightarrow> (\<And>a s. \<exists>b s'. f a s = (Inr b, s')) \<Longrightarrow> \<exists>b s'. st_bind m f s = (Inr b, s')"
  proof -
  assume m: "\<And>s. \<exists>a s'. m s = (Inr a, s')" and f: "\<And>a s. \<exists>b s'. f a s = (Inr b, s')"
  from m obtain a s1 where "m s = (Inr a, s1)" by blast
  moreover from f obtain b s2 where "f a s1 = (Inr b, s2)" by blast
  ultimately show "\<exists>b s'. st_bind m f s = (Inr b, s')" by (simp add: st_bind_Inr)
qed

lemma finalize_now_total: "\<exists>s'. finalize_now env tid status u n s = (Inr (), s')"
  by (simp add: finalize_now_def st_bind_def finalize_task_def)

lemma handle_task_returns: "\<exists>out s'. handle_task env reg task s = (Inr out, s')"
proof -
  obtain d s1 where get: "get_task (mm_store env) (task_id task) s = (Inr d, s1)" using get_task_total [of "mm_store env" "task_id task" s] by blast
  show ?thesis
  proof (cases "in_progress d")
    case True
    with get show ?thesis by (simp add: handle_task_def st_bind_Inr)
  next
    case False
    obtain r s2 where run: "run_task env reg task s1 = (r, s2)" by (cases "run_task env reg task s1")
    obtain s3 where "finalize_now env (task_id task) ''escalated'' None None s2 = (Inr (), s3)" using finalize_now_total [of env "task_id task" "''escalated''" None None s2] by blast
    with get False run show ?thesis by (cases r) (simp_all add: handle_task_def st_bind_Inr st_catch_def)
  qed
qed

section \<open>The task document after a run\<close>

definition keeps :: "('s \<Rightarrow> bool) \<Rightarrow> ('s, 'a) store_op \<Rightarrow> bool" where
  "keeps P m \<longleftrightarrow> (\<forall>s r s'. P s \<longrightarrow> m s = (r, s') \<longrightarrow> P s')"

lemma keepsD: "keeps P m \<Longrightarrow> P s \<Longrightarrow> m s = (r, s') \<Longrightarrow> P s'"
  by (simp add: keeps_def)

lemma refines_keeps: "refines P q m R \<Longrightarrow> keeps P m"
  unfolding keeps_def
proof (intro allI impI)
  fix s r s' assume "refines P q m R" "P s" "m s = (r, s')"
  with refinesD [of P q m R s] show "P s'" by auto
qed

lemma keeps_bind [intro]:
  assumes "keeps P m" "\<And>a. keeps P (f a)"
  shows "keeps P (st_bind m f)"
  unfolding keeps_def
proof (intro allI impI)
  fix s r s' assume s: "P s" and run: "st_bind m f s = (r, s')"
  obtain r1 s1 where m: "m s = (r1, s1)" by (cases "m s")
  with keepsD [OF assms(1) s] have "P s1" by blast
  with run m keepsD [OF assms(2)] show "P s'" by (cases r1) (auto simp: st_bind_def)
qed

lemma keeps_plain [intro, simp]: "keeps P (st_return a)" "keeps P (st_raise e)" "keeps P (st_now env)"
  by (auto simp: keeps_def)

lemma keeps_catch [intro]:
  assumes "keeps P m" "\<And>e. keeps P (h e)"
  shows "keeps P (st_catch m h)"
  unfolding keeps_def
proof (intro allI impI)
  fix s r s' assume s: "P s" and run: "st_catch m h s = (r, s')"
  obtain r1 s1 where m: "m s = (r1, s1)" by (cases "m s")
  with keepsD [OF assms(1) s] have "P s1" by blast
  with run m keepsD [OF assms(2)] show "P s'" by (cases r1) (auto simp: st_catch_def)
qed

lemma keeps_quietly [intro]: "keeps P m \<Longrightarrow> keeps P (quietly m)"
  unfolding quietly_def by blast

text \<open>What lies outside leaves the store usable.\<close>

definition harmless :: "('s \<Rightarrow> bool) \<Rightarrow> 's outside \<Rightarrow> bool" where
  "harmless P env \<longleftrightarrow>
     (\<forall>task g. keeps P (mm_dossier env task g)) \<and> (\<forall>topic d a. keeps P (mm_publish env topic d a)) \<and>
     (\<forall>task n nrs s. P s \<longrightarrow> P (snd (mm_node env task n nrs s)))"

lemma exec_step_world:
  assumes "exec_step env g n s w = (nx, s', w')" "I w"
    and "\<And>n nrs w. I w \<Longrightarrow> I (snd (run_node env n nrs w))" "\<And>k nrs rcs w. I w \<Longrightarrow> I (checkpoint env k nrs rcs w)"
  shows "I w'"
proof -
  have "I w1" if p: "perform env n s w = (r, s1, w1)" for r s1 w1
  proof (cases "max_node_retries \<le> dict_get_or (retry_counts s) (node_id n) 0")
    case True
    with p assms(2,4) show ?thesis by (auto simp: perform_def Let_def)
  next
    case False
    have "I (snd (run_node env n (node_results (s\<lparr>visited_states := insert (node_id n, dict_get_or (retry_counts s) (node_id n) 0) (visited_states s)\<rparr>)) w))"
      using assms(2,3) by blast
    with False p assms(4) show ?thesis by (auto simp: perform_def Let_def split: prod.splits)
  qed
  with assms(1,2) show ?thesis by (auto simp: exec_step_def Let_def split: if_splits prod.splits)
qed

lemma exec_loop_world:
  assumes "exec_loop fuel env g n s w = Some (s', w')" "I w"
    and "\<And>n nrs w. I w \<Longrightarrow> I (snd (run_node env n nrs w))" "\<And>k nrs rcs w. I w \<Longrightarrow> I (checkpoint env k nrs rcs w)"
  shows "I w'"
  using assms(1,2)
proof (induction fuel arbitrary: n s w)
  case 0
  then show ?case by simp
next
  case (Suc fuel)
  obtain nx s1 w1 where step: "exec_step env g n s w = (nx, s1, w1)" by (cases "exec_step env g n s w")
  from exec_step_world [OF step Suc.prems(2) assms(3,4)] have "I w1" .
  with Suc step show ?case by (cases nx) auto
qed

lemma execute_world:
  assumes "execute env g s w = Inr (Some (rep, w'))" "I w"
    and "\<And>n nrs w. I w \<Longrightarrow> I (snd (run_node env n nrs w))" "\<And>k nrs rcs w. I w \<Longrightarrow> I (checkpoint env k nrs rcs w)"
  shows "I w'"
proof -
  from assms(1) obtain r0 s' where "exec_loop (exec_fuel g) env g r0 s w = Some (s', w')"
    by (auto simp: execute_def split: sum.splits)
  from exec_loop_world [OF this assms(2,3,4)] show ?thesis .
qed

lemma run_scheme_keeps:
  assumes "harmless P env" "\<And>k nrs rcs s. P s \<Longrightarrow> P (snd (update_execution_state (mm_store env) (mm_clock env s) (task_id task) k nrs rcs s))"
  shows "keeps P (run_scheme env task g st)"
  unfolding keeps_def
proof (intro allI impI)
  fix s r s' assume s: "P s" and run: "run_scheme env task g st s = (r, s')"
  show "P s'"
  proof (cases "execute (task_env env task) g st s")
    case (Inl roots)
    with run s show ?thesis by (simp add: run_scheme_def)
  next
    case (Inr out)
    show ?thesis
    proof (cases out)
      case None
      with Inr run s show ?thesis by (simp add: run_scheme_def)
    next
      case (Some p)
      then obtain rep w' where p: "p = (rep, w')" by (cases p)
      with Some Inr run have "s' = w'" by (simp add: run_scheme_def)
      moreover have "P w'"
        by (rule execute_world [of "task_env env task" g st s rep w' P])
          (use Inr Some p s assms in \<open>simp_all add: task_env_def harmless_def\<close>)
      ultimately show ?thesis by simp
    qed
  qed
qed

text \<open>The field \<open>execution_state\<close> of a task.\<close>

definition state_of :: "(string \<Rightarrow> doc option) \<Rightarrow> string \<Rightarrow> json" where
  "state_of x tid = doc_get (doc_of x tid) ''execution_state''"

definition escalated_outcome :: "task_outcome \<Rightarrow> bool" where
  "escalated_outcome out = (case out of Finished rep \<Rightarrow> final_status_of rep = Escalated | _ \<Rightarrow> True)"

context tracker_store
begin

lemma finalize_now_state:
  assumes "mm_store env = ops" "ok s"
  shows "\<exists>s'. finalize_now env tid st u n s = (Inr (), s') \<and> ok s' \<and>
    state_of (docs s') tid = JStr (if st = ''escalated'' then ''escalated'' else ''completed'')"
proof -
  obtain s' where "finalize_task ops (mm_clock env s) tid st u n s = (Inr (), s')" "ok s'"
    "docs s' = patch tid (finalize_doc (mm_clock env s) st u n) (docs s)"
    using refinesD [OF update_refines(1) assms(2), of "mm_clock env s" tid st u n] by auto
  then show ?thesis
    using assms(1) by (simp add: finalize_now_def st_bind_Inr state_of_def doc_of_patch finalize_doc_def)
qed

lemma escalate_now_state:
  assumes "mm_store env = ops" "ok s"
  shows "\<exists>s'. escalate_now env tid reason node s = (Inr (), s') \<and> ok s' \<and> state_of (docs s') tid = JStr ''escalated''"
proof -
  have dist: "distinct (dict_keys (escalate_doc (mm_clock env s) reason node))"
    by (simp add: escalate_doc_def opt_item_def split: option.split)
  obtain s' where "mark_escalated ops (mm_clock env s) tid reason node s = (Inr (), s')" "ok s'"
    "docs s' = patch tid (escalate_doc (mm_clock env s) reason node) (docs s)"
    using refinesD [OF update_refines(4) assms(2), of "mm_clock env s" tid reason node] by auto
  then show ?thesis
    using assms(1) dist by (simp add: escalate_now_def st_bind_Inr state_of_def doc_of_patch) (simp add: escalate_doc_def)
qed

lemma checkpoint_keeps: "ok s \<Longrightarrow> ok (snd (update_execution_state ops now tid k nrs rcs s))"
  using refinesD [OF update_refines(5), of s now tid k nrs rcs] by auto

lemma run_task_keeps:
  assumes "mm_store env = ops" "harmless ok env"
  shows "keeps ok (mm_dossier env task g)" "keeps ok (run_scheme env task g st)" "keeps ok (trigger_ci env task rep)"
    "keeps ok (finalize_now env tid status u n)" "keeps ok (escalate_now env tid reason node)"
    "keeps ok (start_task ops dump now task scheme)"
proof -
  show "keeps ok (mm_dossier env task g)" using assms(2) by (simp add: harmless_def)
  show "keeps ok (run_scheme env task g st)"
    by (rule run_scheme_keeps [OF assms(2)]) (simp add: assms(1) checkpoint_keeps)
  have "keeps ok (mm_publish env topic d a)" for topic d a using assms(2) by (simp add: harmless_def)
  then show "keeps ok (trigger_ci env task rep)" by (auto simp: trigger_ci_def split: option.split)
  show "keeps ok (finalize_now env tid status u n)" unfolding finalize_now_def assms(1)
    by (intro keeps_bind keeps_plain refines_keeps [OF update_refines(1)])
  show "keeps ok (escalate_now env tid reason node)" unfolding escalate_now_def assms(1)
    by (intro keeps_bind keeps_plain refines_keeps [OF update_refines(4)])
  show "keeps ok (start_task ops dump now task scheme)" by (rule refines_keeps [OF start_refines])
qed

lemma run_task_ok:
  assumes "mm_store env = ops" "harmless ok env"
  shows "keeps ok (run_task env reg task)"
proof -
  note k = run_task_keeps [OF assms]
  show ?thesis
    unfolding run_task_def Let_def assms(1)
    by (intro keeps_bind keeps_plain k) (auto intro!: keeps_bind k split: option.split)
qed

lemma run_task_final:
  assumes env: "mm_store env = ops" "harmless ok env" and "ok s" "run_task env reg task s = (Inr out, s')"
  shows "state_of (docs s') (task_id task) = JStr (if escalated_outcome out then ''escalated'' else ''completed'')"
proof -
  note k = run_task_keeps [OF env]
  obtain s1 where s1: "start_task ops (mm_dump env) (mm_clock env s) task (select_scheme task) s = (Inr (), s1)" "ok s1"
    using refinesD [OF start_refines assms(3), of "mm_dump env" "mm_clock env s" task "select_scheme task"] by auto
  show ?thesis
  proof (cases "registry_get reg (select_scheme task)")
    case None
    from finalize_now_state [OF env(1) s1(2), of "task_id task" "''escalated''" None None] None s1(1) assms(4) env(1)
    show ?thesis by (auto simp: run_task_def Let_def st_bind_Inr escalated_outcome_def)
  next
    case (Some g)
    show ?thesis
    proof (cases "validate_deterministic_handlers g = []")
      case False
      obtain s2 where s2: "finalize_now env (task_id task) ''escalated'' None None s1 = (Inr (), s2)" "ok s2"
        using finalize_now_state [OF env(1) s1(2)] by blast
      from escalate_now_state [OF env(1) s2(2), of "task_id task" "join_with ''; '' (validate_deterministic_handlers g)" None]
        s2(1) Some s1(1) False assms(4) env(1)
      show ?thesis by (auto simp: run_task_def Let_def st_bind_Inr escalated_outcome_def)
    next
      case True
      with assms(4) Some s1(1) env(1) obtain s2 rep s3 s4 where steps:
        "mm_dossier env task g s1 = (Inr (), s2)" "run_scheme env task g init_state s2 = (Inr rep, s3)"
        "trigger_ci env task rep s3 = (Inr (), s4)"
        "st_bind (finalize_now env (task_id task) (final_status_value (final_status_of rep)) (er_pr_url rep) (report_pr_number rep)) (\<lambda>_.
         st_bind (if final_status_of rep = Escalated then escalate_now env (task_id task) (escalation_reason rep) (er_escalation_node rep)
                  else st_return ()) (\<lambda>_. st_return (Finished rep))) s4 = (Inr out, s')"
        by (auto simp: run_task_def Let_def st_bind_Inr_iff)
      have ok4: "ok s4" using keepsD [OF k(1) s1(2) steps(1)] keepsD [OF k(2) _ steps(2)] keepsD [OF k(3) _ steps(3)] by blast
      obtain s5 where s5: "finalize_now env (task_id task) (final_status_value (final_status_of rep)) (er_pr_url rep) (report_pr_number rep) s4 = (Inr (), s5)"
        "ok s5" "state_of (docs s5) (task_id task) = JStr (if final_status_value (final_status_of rep) = ''escalated'' then ''escalated'' else ''completed'')"
        using finalize_now_state [OF env(1) ok4] by blast
      show ?thesis
      proof (cases "final_status_of rep = Escalated")
        case True
        from escalate_now_state [OF env(1) s5(2), of "task_id task" "escalation_reason rep" "er_escalation_node rep"] steps(4) s5(1) True
        show ?thesis by (auto simp: st_bind_Inr escalated_outcome_def)
      next
        case False
        then have "final_status_value (final_status_of rep) \<noteq> ''escalated''" by (cases "final_status_of rep") simp_all
        with steps(4) s5 False show ?thesis by (auto simp: st_bind_Inr escalated_outcome_def)
      qed
    qed
  qed
qed

lemma handle_task_final:
  assumes env: "mm_store env = ops" "harmless ok env" and s: "ok s" and run: "handle_task env reg task s = (Inr out, s')"
    and out: "out \<noteq> AlreadyRunning"
  shows "ok s' \<and> state_of (docs s') (task_id task) = JStr (if escalated_outcome out then ''escalated'' else ''completed'')"
proof -
  obtain d s1 where get: "get_task ops (task_id task) s = (Inr d, s1)" "ok s1" "docs s1 = docs s"
    using refinesD [OF get_refines s] by blast
  with run out env(1) have np: "\<not> in_progress d" by (auto simp: handle_task_def st_bind_Inr)
  obtain r s2 where r: "run_task env reg task s1 = (r, s2)" by (cases "run_task env reg task s1")
  from keepsD [OF run_task_ok [OF env] get(2) r] have ok2: "ok s2" .
  show ?thesis
  proof (cases r)
    case (Inl e)
    from finalize_now_state [OF env(1) ok2, of "task_id task" "''escalated''" None None] run get(1) np r Inl env(1)
    show ?thesis by (auto simp: handle_task_def st_bind_Inr st_catch_Inl escalated_outcome_def)
  next
    case (Inr o1)
    with run get(1) np r env(1) have "o1 = out" "s2 = s'" by (auto simp: handle_task_def st_bind_Inr st_catch_Inr)
    with run_task_final [OF env get(2), of reg task out s'] r Inr ok2 show ?thesis by simp
  qed
qed

end

end
