(* ===== verification/Intake.thy ===== *)
theory Intake
  imports Mastermind
begin

text \<open>
  The endpoints of the Mastermind service (\<open>mastermind/server.py\<close>): task intake with its message dedup,
  operative reports, CI events, the watchdog with its lease, the dead-letter check and the cleanup.
  Authentication of the caller and the decoding of an envelope come before; an \<open>HTTPException\<close> is a
  reply with its status, an exception that escapes a handler is \<open>Inl\<close> (the framework's 500).
\<close>

section \<open>Messages and their dedup\<close>

datatype message_data = NoData | Undecodable | Payload json

record push_message =
  pm_id :: string
  pm_dedup_key :: "string option"
  pm_data :: message_data

definition claim_now :: "'s outside \<Rightarrow> string \<Rightarrow> string \<Rightarrow> ('s, bool) store_op" where
  "claim_now env handler key = st_bind (st_now env) (\<lambda>now. claim_message (mm_store env) now inflight_ttl handler key)"

text \<open>\<open>_check_message_dedup\<close>: the explicit key first, then the message id.\<close>

definition check_message_dedup :: "'s outside \<Rightarrow> string \<Rightarrow> string option \<Rightarrow> string \<Rightarrow> ('s, bool) store_op" where
  "check_message_dedup env mid key handler =
     (if mid = [] \<and> \<not> str_truthy key then st_return False
      else st_bind (if str_truthy key then claim_now env handler (the key) else st_return False) (\<lambda>dup.
        if dup then st_return True
        else if mid = [] then st_return False
        else claim_now env handler mid))"

definition message_keys :: "string \<Rightarrow> string option \<Rightarrow> string list" where
  "message_keys mid key = (if str_truthy key then [the key] else []) @ (if mid = [] then [] else [mid])"

definition mark_done :: "'s outside \<Rightarrow> string \<Rightarrow> string option \<Rightarrow> string \<Rightarrow> ('s, unit) store_op" where
  "mark_done env mid key handler =
     st_map (\<lambda>k. st_bind (st_now env) (\<lambda>now. mark_message_done (mm_store env) now handler k)) (message_keys mid key)"

definition release_claims :: "'s outside \<Rightarrow> string \<Rightarrow> string option \<Rightarrow> ('s, unit) store_op" where
  "release_claims env mid key = st_map (release_message_claim (mm_store env)) (message_keys mid key)"

section \<open>Task intake\<close>

datatype intake_reply =
    Duplicate
  | EmptyMessage
  | BadMessage
  | InvalidTask
  | TaskCompleted string
  | Failed500

text \<open>\<open>_process_task\<close>: the run, then reporting, whose failures are only logged.\<close>

definition process_task :: "'s outside \<Rightarrow> registry \<Rightarrow> henchmen_task \<Rightarrow> ('s, unit) store_op" where
  "process_task env reg task =
     st_bind (handle_task env reg task) (\<lambda>_.
     quietly (st_bind (get_task (mm_store env) (task_id task)) (\<lambda>_. mm_report env task)))"

text \<open>A failed run is escalated, with failures of that suppressed, and answered with a 500.\<close>

definition fail_intake :: "'s outside \<Rightarrow> string \<Rightarrow> string \<Rightarrow> store_error \<Rightarrow> ('s, intake_reply) store_op" where
  "fail_intake env tid reason e =
     st_bind (quietly (escalate_now env tid reason None)) (\<lambda>_. st_return Failed500)"

definition task_intake :: "'s outside \<Rightarrow> registry \<Rightarrow> push_message \<Rightarrow> ('s, intake_reply) store_op" where
  "task_intake env reg msg =
     (let mid = pm_id msg; key = pm_dedup_key msg in
      st_bind (check_message_dedup env mid key ''task-intake'') (\<lambda>dup.
      if dup then st_return Duplicate
      else (case pm_data msg of
          NoData \<Rightarrow> st_return EmptyMessage
        | Undecodable \<Rightarrow> st_return BadMessage
        | Payload (JObj d) \<Rightarrow>
            (case doc_get d ''resume_task_id'' of
               JStr (c # cs) \<Rightarrow>
                 (let tid = c # cs in
                  st_catch
                    (st_bind (resume_task env reg tid) (\<lambda>_.
                     st_bind (mark_done env mid key ''task-intake'') (\<lambda>_. st_return (TaskCompleted tid))))
                    (fail_intake env tid ''Resume failed''))
             | _ \<Rightarrow>
                 (case mm_load env (JObj d) of
                    None \<Rightarrow> st_return InvalidTask
                  | Some task \<Rightarrow>
                      st_catch
                        (st_bind (process_task env reg task) (\<lambda>_.
                         st_bind (mark_done env mid key ''task-intake'') (\<lambda>_. st_return (TaskCompleted (task_id task)))))
                        (fail_intake env (task_id task) ''Unhandled error'')))
        | Payload _ \<Rightarrow> st_raise (Raised ''the payload is no object''))))"

section \<open>Operative reports\<close>

record submitted_report =
  sr_task_id :: string
  sr_node_id :: string
  sr_operative_id :: string
  sr_status :: operative_status
  sr_started_at :: int
  sr_completed_at :: "int option"
  sr_dump :: json

text \<open>
  The lair manager as this endpoint uses it: whether a report is accepted for a launched lair, and the
  hand-over of a report to the waiting run.
\<close>

record 's lair_ops =
  lair_accepts :: "string \<Rightarrow> string \<Rightarrow> string option \<Rightarrow> 's \<Rightarrow> bool"
  lair_notify :: "submitted_report \<Rightarrow> 's \<Rightarrow> 's"
  load_report :: "json \<Rightarrow> submitted_report option"

datatype http_reply = Ok200 | DuplicateReply | ErrorReply | Refused nat

definition clock_skew_tolerance :: int where
  "clock_skew_tolerance = seconds 60"

definition future_report :: "int \<Rightarrow> submitted_report \<Rightarrow> bool" where
  "future_report now r \<longleftrightarrow>
     now + clock_skew_tolerance < sr_started_at r \<or>
     (case sr_completed_at r of None \<Rightarrow> False | Some t \<Rightarrow> now + clock_skew_tolerance < t)"

definition nonempty_opt :: "string \<Rightarrow> string option" where
  "nonempty_opt x = (if x = [] then None else Some x)"

text \<open>The checks of the task-token path, in order; \<open>None\<close> accepts.\<close>

definition refuse_report :: "'s lair_ops \<Rightarrow> string \<Rightarrow> int \<Rightarrow> submitted_report \<Rightarrow> 's \<Rightarrow> nat option" where
  "refuse_report lo verified now r s =
     (if sr_task_id r \<noteq> verified then Some 401
      else if future_report now r then Some 422
      else if \<not> lair_accepts lo (sr_task_id r) (sr_node_id r) (nonempty_opt (sr_operative_id r)) s then Some 409
      else None)"

text \<open>The body after the claim: decode, check, persist (best effort), notify, mark done.\<close>

definition accept_report ::
  "'s outside \<Rightarrow> 's lair_ops \<Rightarrow> string option \<Rightarrow> string \<Rightarrow> string option \<Rightarrow> message_data \<Rightarrow> ('s, http_reply) store_op" where
  "accept_report env lo verified mid key data =
     (case data of
        Payload v \<Rightarrow>
          (case load_report lo v of
             None \<Rightarrow> st_raise (Raised ''invalid report'')
           | Some r \<Rightarrow>
               st_bind (st_now env) (\<lambda>now.
               st_bind (\<lambda>s. (Inr (case verified of None \<Rightarrow> None | Some vid \<Rightarrow> refuse_report lo vid now r s), s)) (\<lambda>refusal.
               case refusal of
                 Some code \<Rightarrow> st_return (Refused code)
               | None \<Rightarrow>
                   st_bind (quietly (case sr_dump r of
                              JObj d \<Rightarrow> op_set (mm_store env) ''operative_reports'' (sr_task_id r @ '':'' @ sr_node_id r) d
                            | _ \<Rightarrow> st_return ())) (\<lambda>_.
                   st_bind (\<lambda>s. (Inr (), lair_notify lo r s)) (\<lambda>_.
                   st_bind (mark_done env mid key ''operative-complete'') (\<lambda>_. st_return Ok200))))))
      | _ \<Rightarrow> st_raise (Raised ''undecodable data''))"

text \<open>
  On the task-token path the only dedup key is the message id prefixed with the verified task id, and
  every refusal and error releases it; on the other paths an error is acknowledged.
\<close>

definition operative_complete ::
  "'s outside \<Rightarrow> 's lair_ops \<Rightarrow> string option \<Rightarrow> push_message \<Rightarrow> ('s, http_reply) store_op" where
  "operative_complete env lo verified msg =
     (let scoped = str_truthy verified;
          mid = (if scoped then [] else pm_id msg);
          key = (if scoped \<and> pm_id msg \<noteq> [] then Some (the verified @ '':'' @ pm_id msg) else None);
          on_error = (if verified = None then st_return ErrorReply else st_return (Refused 500))
      in st_catch
        (st_bind (check_message_dedup env mid key ''operative-complete'') (\<lambda>dup.
         if dup then st_return DuplicateReply
         else st_catch
           (st_bind (accept_report env lo verified mid key (pm_data msg)) (\<lambda>rep.
            case rep of
              Refused code \<Rightarrow>
                (if verified = None then st_return (Refused code)
                 else st_bind (release_claims env mid key) (\<lambda>_. st_return (Refused code)))
            | _ \<Rightarrow> st_return rep))
           (\<lambda>e. if verified = None then on_error
                else st_bind (release_claims env mid key) (\<lambda>_. on_error))))
        (\<lambda>e. on_error))"

section \<open>CI events\<close>

text \<open>\<open>forge_result_handler\<close> acknowledges whatever happens.\<close>

definition forge_result_handler :: "'s outside \<Rightarrow> push_message \<Rightarrow> ('s, http_reply) store_op" where
  "forge_result_handler env msg =
     (case pm_data msg of
        Payload (JObj d) \<Rightarrow>
          (case doc_get d ''task_id'' of
             JStr (c # cs) \<Rightarrow>
               st_bind (record_ci_result (mm_store env) (c # cs) (doc_get d ''status'' = JStr ''passed'')) (\<lambda>_. st_return Ok200)
           | _ \<Rightarrow> st_return Ok200)
      | _ \<Rightarrow> st_return ErrorReply)"

definition json_str :: "json \<Rightarrow> string" where
  "json_str v = (case v of JStr x \<Rightarrow> x | _ \<Rightarrow> [])"

definition json_int :: "json \<Rightarrow> int" where
  "json_int v = (case v of JInt i \<Rightarrow> i | _ \<Rightarrow> 0)"

text \<open>\<open>ci_failure_handler\<close>; the notification of an escalation is best effort and left out.\<close>

datatype ci_reply = CiErrorReply | CiCompleted ci_outcome | Ci500

definition ci_failure :: "'s outside \<Rightarrow> push_message \<Rightarrow> ('s, ci_reply) store_op" where
  "ci_failure env msg =
     (case pm_data msg of
        Payload (JObj d) \<Rightarrow>
          (if json_str (doc_get d ''task_id_prefix'') = [] then st_return CiErrorReply
           else st_catch
             (st_bind (handle_ci_failure env (json_str (doc_get d ''task_id_prefix'')) (json_str (doc_get d ''repo''))
                (json_str (doc_get d ''branch'')) (json_int (doc_get d ''check_suite_id''))) (\<lambda>r. st_return (CiCompleted r)))
             (\<lambda>e. st_return Ci500))
      | Payload _ \<Rightarrow> st_raise (Raised ''the payload is no object'')
      | _ \<Rightarrow> st_return CiErrorReply)"

section \<open>The watchdog\<close>

text \<open>\<open>_acquire_watchdog_lease\<close>: a read and a write; any failure of the store skips the tick.\<close>

definition lease_expiry :: "doc \<Rightarrow> store_error + int" where
  "lease_expiry d =
     (case dict_get_or d ''expires_at'' (JTime 0) of JTime t \<Rightarrow> Inr t | JStr _ \<Rightarrow> Inr 0 | _ \<Rightarrow> Inl TypeErr)"

definition acquire_watchdog_lease :: "'s outside \<Rightarrow> string \<Rightarrow> string \<Rightarrow> int \<Rightarrow> ('s, bool) store_op" where
  "acquire_watchdog_lease env envname holder ttl =
     st_bind (st_catch (st_bind (op_get (mm_store env) ''watchdog_leases'' envname) (\<lambda>d. st_return (Some d))) (\<lambda>_. st_return None)) (\<lambda>got.
     case got of
       None \<Rightarrow> st_return False
     | Some existing \<Rightarrow>
         st_bind (st_now env) (\<lambda>now.
         st_bind (case existing of None \<Rightarrow> st_return False
                  | Some d \<Rightarrow> st_lift (res_bind (lease_expiry d) (\<lambda>t. Inr (now < t)))) (\<lambda>held.
         if held then st_return False
         else st_catch
           (st_bind (op_set (mm_store env) ''watchdog_leases'' envname
              [(''holder'', JStr holder), (''acquired_at'', JTime now), (''expires_at'', JTime (now + ttl))]) (\<lambda>_. st_return True))
           (\<lambda>_. st_return False))))"

datatype verdict = WEscalated | WRecovered | WPublishFailed

definition max_recoveries :: rat where
  "max_recoveries = 3"

text \<open>
  One stalled task: escalated after three attempts, otherwise marked, counted and re-published under a
  key that two racing watchdogs compute alike.
\<close>

definition recover_task :: "'s outside \<Rightarrow> doc \<Rightarrow> ('s, verdict) store_op" where
  "recover_task env d =
     (let tid = json_str (doc_get d ''task_id'') in
      case num_of (dict_get_or d ''recovery_attempts'' (JInt 0)) of
        None \<Rightarrow> st_raise TypeErr
      | Some attempts \<Rightarrow>
          if attempts \<ge> max_recoveries
          then st_bind (escalate_now env tid ''Stalled after 3 recovery attempts'' None) (\<lambda>_. st_return WEscalated)
          else st_bind (mark_stalled (mm_store env) tid) (\<lambda>_.
               st_bind (increment_recovery_attempts (mm_store env) tid) (\<lambda>_.
               st_catch
                 (st_bind (mm_publish env ''task-intake'' [(''resume_task_id'', JStr tid)]
                    [(''task_id'', JStr tid), (''dedup_key'', JStr (''resume-'' @ tid @ ''-'' @ show_int \<lfloor>attempts\<rfloor>))])
                    (\<lambda>_. st_return WRecovered))
                 (\<lambda>_. st_return WPublishFailed))))"

fun recover_all :: "'s outside \<Rightarrow> doc list \<Rightarrow> ('s, verdict list) store_op" where
  "recover_all env [] = st_return []"
| "recover_all env (d # ds) =
     st_bind (recover_task env d) (\<lambda>v. st_bind (recover_all env ds) (\<lambda>vs. st_return (v # vs)))"

datatype watchdog_reply = LeaseHeld | QueryFailed503 | Ticked nat nat nat

definition stalled_minutes :: int where
  "stalled_minutes = 10"

definition watchdog :: "'s outside \<Rightarrow> string \<Rightarrow> string \<Rightarrow> ('s, watchdog_reply) store_op" where
  "watchdog env envname holder =
     st_bind (acquire_watchdog_lease env envname holder (seconds 60)) (\<lambda>have_lease.
     if \<not> have_lease then st_return LeaseHeld
     else st_bind (st_now env) (\<lambda>now.
          st_bind (st_catch (st_bind (get_stalled_tasks (mm_store env) now stalled_minutes) (\<lambda>ds. st_return (Some ds)))
                     (\<lambda>_. st_return None)) (\<lambda>found.
          case found of
            None \<Rightarrow> st_return QueryFailed503
          | Some ds \<Rightarrow>
              st_bind (recover_all env ds) (\<lambda>vs.
              st_return (Ticked (length ds) (length (filter ((=) WRecovered) vs)) (length (filter ((=) WEscalated) vs)))))))"

section \<open>Dead letters and cleanup\<close>

text \<open>\<open>_dlq_task_id\<close>: the attribute, then the ids in the payload; empty when there is none.\<close>

definition first_truthy :: "doc \<Rightarrow> string list \<Rightarrow> string" where
  "first_truthy d fs = (case find (\<lambda>f. py_true (doc_get d f)) fs of None \<Rightarrow> [] | Some f \<Rightarrow> json_str (doc_get d f))"

definition dlq_task_id :: "doc \<Rightarrow> message_data \<Rightarrow> string" where
  "dlq_task_id attributes data =
     (if py_true (doc_get attributes ''task_id'') then json_str (doc_get attributes ''task_id'')
      else (case data of
          Payload (JObj d) \<Rightarrow> first_truthy d [''task_id'', ''resume_task_id'', ''id'']
        | _ \<Rightarrow> []))"

definition escalate_dead_letter :: "'s outside \<Rightarrow> doc \<times> message_data \<Rightarrow> ('s, nat) store_op" where
  "escalate_dead_letter env msg =
     (let tid = dlq_task_id (fst msg) (snd msg) in
      if tid = [] then st_return 0
      else st_catch
        (st_bind (escalate_now env tid ''Message dead-lettered after exhausting Pub/Sub retries'' None) (\<lambda>_. st_return 1))
        (\<lambda>_. st_return 0))"

fun escalate_dead_letters :: "'s outside \<Rightarrow> (doc \<times> message_data) list \<Rightarrow> ('s, nat) store_op" where
  "escalate_dead_letters env [] = st_return 0"
| "escalate_dead_letters env (m # ms) =
     st_bind (escalate_dead_letter env m) (\<lambda>n. st_bind (escalate_dead_letters env ms) (\<lambda>k. st_return (n + k)))"

datatype dlq_reply = DlqFailed503 | DlqChecked nat nat

definition check_dlq :: "'s outside \<Rightarrow> ('s, (doc \<times> message_data) list) store_op \<Rightarrow> ('s, dlq_reply) store_op" where
  "check_dlq env pull =
     st_bind (st_catch (st_bind pull (\<lambda>ms. st_return (Some ms))) (\<lambda>_. st_return None)) (\<lambda>got.
     case got of
       None \<Rightarrow> st_return DlqFailed503
     | Some ms \<Rightarrow> st_bind (escalate_dead_letters env ms) (\<lambda>n. st_return (DlqChecked (length ms) n)))"

definition cleanup :: "'s outside \<Rightarrow> ('s, nat \<times> nat) store_op" where
  "cleanup env =
     st_bind (st_now env) (\<lambda>now. st_bind (cleanup_expired (mm_store env) now 100) (\<lambda>a.
     st_bind (st_now env) (\<lambda>now. st_bind (cleanup_processed_messages (mm_store env) now 7 200) (\<lambda>b. st_return (a, b)))))"

end
