(* ===== verification/Watchdog.thy ===== *)
theory Watchdog
  imports Intake
begin

text \<open>
  What the service promises about a task: its document after a run, what a tick of the watchdog does to
  the documents of all tasks, and which deliveries are skipped. The laws are proved over any lawful
  store and instantiated on SQLite inside a world the rest of the program changes.
\<close>

section \<open>What the watchdog does to a task\<close>

text \<open>The fields of a task document the watchdog decides on.\<close>

record task_view =
  tv_state :: string
  tv_attempts :: int
  tv_heartbeat :: int

definition view_of :: "doc \<Rightarrow> task_view option" where
  "view_of d =
     (case (doc_get d ''execution_state'', doc_get d ''recovery_attempts'', doc_get d ''last_heartbeat'') of
        (JStr st, JInt n, JTime t) \<Rightarrow> Some \<lparr>tv_state = st, tv_attempts = n, tv_heartbeat = t\<rparr>
      | _ \<Rightarrow> None)"

definition tracked :: "(string \<Rightarrow> doc option) \<Rightarrow> bool" where
  "tracked x \<longleftrightarrow> (\<forall>i d. x i = Some d \<longrightarrow> doc_get d ''task_id'' = JStr i \<and> view_of d \<noteq> None)"

definition views :: "(string \<Rightarrow> doc option) \<Rightarrow> string \<Rightarrow> task_view option" where
  "views x i = Option.bind (x i) view_of"

definition is_stalled :: "int \<Rightarrow> task_view \<Rightarrow> bool" where
  "is_stalled now v \<longleftrightarrow> tv_state v = ''running'' \<and> tv_heartbeat v < now - minutes stalled_minutes"

definition recover_view :: "task_view \<Rightarrow> task_view" where
  "recover_view v =
     (if tv_attempts v \<ge> 3 then v\<lparr>tv_state := ''escalated''\<rparr>
      else v\<lparr>tv_state := ''stalled'', tv_attempts := tv_attempts v + 1\<rparr>)"

definition tick_view :: "int \<Rightarrow> task_view \<Rightarrow> task_view" where
  "tick_view now v = (if is_stalled now v then recover_view v else v)"

text \<open>Operations that leave the store alone, and an outside of which the broker is one.\<close>

definition unchanged :: "('s \<Rightarrow> bool) \<Rightarrow> ('s \<Rightarrow> 'd) \<Rightarrow> ('s, 'a) store_op \<Rightarrow> bool" where
  "unchanged ok docs m \<longleftrightarrow> (\<forall>s r s'. ok s \<longrightarrow> m s = (r, s') \<longrightarrow> ok s' \<and> docs s' = docs s)"

lemma unchangedD: "unchanged ok docs m \<Longrightarrow> ok s \<Longrightarrow> m s = (r, s') \<Longrightarrow> ok s' \<and> docs s' = docs s"
  by (simp add: unchanged_def)

lemma view_of_with_id [simp]: "view_of (with_id i d) = view_of d"
  by (simp add: view_of_def)

lemma view_of_without_id [simp]: "view_of (without_id d) = view_of d"
  by (simp add: view_of_def)

lemma view_of_SomeE:
  assumes "view_of d = Some v"
  obtains "doc_get d ''execution_state'' = JStr (tv_state v)" "doc_get d ''recovery_attempts'' = JInt (tv_attempts v)"
    "doc_get d ''last_heartbeat'' = JTime (tv_heartbeat v)"
  using assms by (auto simp: view_of_def split: json.splits)

lemma view_of_merge:
  assumes "view_of d = Some v" "distinct (dict_keys u)" "dict_get u ''execution_state'' = Some (JStr st)"
    "dict_get u ''recovery_attempts'' = None" "dict_get u ''last_heartbeat'' = None"
  shows "view_of (dict_merge d u) = Some (v\<lparr>tv_state := st\<rparr>)"
proof -
  obtain "doc_get d ''execution_state'' = JStr (tv_state v)" "doc_get d ''recovery_attempts'' = JInt (tv_attempts v)"
    "doc_get d ''last_heartbeat'' = JTime (tv_heartbeat v)" using assms(1) by (rule view_of_SomeE)
  with assms show ?thesis by (simp add: view_of_def doc_get_merge)
qed

lemma view_of_increment:
  assumes "view_of d = Some v"
  shows "\<exists>b. add_deltas d [(''recovery_attempts'', JInt 1)] = Inr b \<and> view_of b = Some (v\<lparr>tv_attempts := tv_attempts v + 1\<rparr>) \<and>
    doc_get b ''task_id'' = doc_get d ''task_id''"
proof -
  obtain v: "doc_get d ''execution_state'' = JStr (tv_state v)" "doc_get d ''recovery_attempts'' = JInt (tv_attempts v)"
    "doc_get d ''last_heartbeat'' = JTime (tv_heartbeat v)" using assms by (rule view_of_SomeE)
  from v(2) have "dict_get_or d ''recovery_attempts'' (JInt 0) = JInt (tv_attempts v)"
    by (auto simp: doc_get_def dict_get_or_def split: option.splits)
  then show ?thesis using v by (simp add: num_or_zero_def view_of_def)
qed

context tracker_store
begin

lemma escalate_view:
  assumes env: "mm_store env = ops" and s: "ok s" and x: "docs s i = Some d" "view_of d = Some v"
  shows "\<exists>s' d'. escalate_now env i reason node s = (Inr (), s') \<and> ok s' \<and> docs s' = (docs s)(i \<mapsto> d') \<and>
    view_of d' = Some (v\<lparr>tv_state := ''escalated''\<rparr>) \<and> doc_get d' ''task_id'' = doc_get d ''task_id''"
proof -
  let ?u = "escalate_doc (mm_clock env s) reason node"
  have u: "distinct (dict_keys ?u)" "dict_get ?u ''execution_state'' = Some (JStr ''escalated'')"
    "dict_get ?u ''recovery_attempts'' = None" "dict_get ?u ''last_heartbeat'' = None" "dict_get ?u ''task_id'' = None"
    by (simp_all add: escalate_doc_def opt_item_def split: option.split)
  obtain s' where "mark_escalated ops (mm_clock env s) i reason node s = (Inr (), s')" "ok s'" "docs s' = patch i ?u (docs s)"
    using refinesD [OF update_refines(4) s, of "mm_clock env s" i reason node] by auto
  then show ?thesis using env x view_of_merge [OF x(2) u(1,2,3,4)] u
    by (intro exI [of _ s'] exI [of _ "without_id (dict_merge d ?u)"])
      (simp add: escalate_now_def st_bind_Inr patch_def doc_get_merge)
qed

lemma stalled_view:
  assumes s: "ok s" and x: "docs s i = Some d" "view_of d = Some v"
  shows "\<exists>s' d'. mark_stalled ops i s = (Inr (), s') \<and> ok s' \<and> docs s' = (docs s)(i \<mapsto> d') \<and>
    view_of d' = Some (v\<lparr>tv_state := ''stalled''\<rparr>) \<and> doc_get d' ''task_id'' = doc_get d ''task_id''"
proof -
  let ?u = "[(''execution_state'', JStr ''stalled'')]"
  obtain s' where "mark_stalled ops i s = (Inr (), s')" "ok s'" "docs s' = patch i ?u (docs s)"
    using refinesD [OF update_refines(3) s, of i] by auto
  then show ?thesis using x view_of_merge [OF x(2), of ?u "''stalled''"]
    by (intro exI [of _ s'] exI [of _ "without_id (dict_merge d ?u)"]) (simp add: patch_def)
qed

lemma increment_view:
  assumes s: "ok s" and x: "docs s i = Some d" "view_of d = Some v"
  shows "\<exists>s' d'. increment_recovery_attempts ops i s = (Inr (), s') \<and> ok s' \<and> docs s' = (docs s)(i \<mapsto> d') \<and>
    view_of d' = Some (v\<lparr>tv_attempts := tv_attempts v + 1\<rparr>) \<and> doc_get d' ''task_id'' = doc_get d ''task_id''"
proof -
  obtain b where b: "add_deltas d [(''recovery_attempts'', JInt 1)] = Inr b" "view_of b = Some (v\<lparr>tv_attempts := tv_attempts v + 1\<rparr>)"
    "doc_get b ''task_id'' = doc_get d ''task_id''" using view_of_increment [OF x(2)] by blast
  have "\<exists>s'. ok s' \<and> op_increment ops task_executions i [(''recovery_attempts'', JInt 1)] s = (Inr (), s') \<and>
      docs s' = (docs s)(i \<mapsto> without_id b)"
    using increment_law [OF s, of "[(''recovery_attempts'', JInt 1)]" i] x(1) b(1) by simp
  then obtain s' where s': "ok s'" "op_increment ops task_executions i [(''recovery_attempts'', JInt 1)] s = (Inr (), s')"
      "docs s' = (docs s)(i \<mapsto> without_id b)" by blast
  then have "increment_recovery_attempts ops i s = (Inr (), s')"
    by (simp add: increment_recovery_attempts_def quietly_def st_catch_Inr)
  with s' b show ?thesis by (intro exI [of _ s'] exI [of _ "without_id b"]) simp
qed

lemma recover_task_view:
  assumes env: "mm_store env = ops" "\<And>t d a. unchanged ok docs (mm_publish env t d a)"
    and s: "ok s" and x: "docs s i = Some d" "view_of d = Some v" "doc_get d ''task_id'' = JStr i"
  shows "\<exists>r s' d'. recover_task env (with_id i d) s = (Inr r, s') \<and> ok s' \<and> docs s' = (docs s)(i \<mapsto> d') \<and>
    view_of d' = Some (recover_view v) \<and> doc_get d' ''task_id'' = JStr i"
proof -
  obtain v: "doc_get d ''recovery_attempts'' = JInt (tv_attempts v)" using x(2) by (rule view_of_SomeE)
  have att: "num_of (dict_get_or (with_id i d) ''recovery_attempts'' (JInt 0)) = Some (of_int (tv_attempts v))"
    using v by (auto simp: doc_get_def dict_get_or_def split: option.splits)
  have tid: "json_str (doc_get (with_id i d) ''task_id'') = i" using x(3) by (simp add: json_str_def)
  show ?thesis
  proof (cases "3 \<le> tv_attempts v")
    case True
    then have ge: "max_recoveries \<le> of_int (tv_attempts v)" by (simp add: max_recoveries_def)
    from escalate_view [OF env(1) s x(1,2)] obtain s' d' where
      "escalate_now env i ''Stalled after 3 recovery attempts'' None s = (Inr (), s')" "ok s'" "docs s' = (docs s)(i \<mapsto> d')"
      "view_of d' = Some (v\<lparr>tv_state := ''escalated''\<rparr>)" "doc_get d' ''task_id'' = doc_get d ''task_id''" by blast
    with True ge att tid x(3) show ?thesis
      by (intro exI [of _ WEscalated] exI [of _ s'] exI [of _ d']) (simp add: recover_task_def st_bind_Inr recover_view_def)
  next
    case False
    then have lt: "\<not> max_recoveries \<le> of_int (tv_attempts v)" by (simp add: max_recoveries_def)
    from stalled_view [OF s x(1,2)] obtain s1 d1 where s1: "mark_stalled ops i s = (Inr (), s1)" "ok s1"
      "docs s1 = (docs s)(i \<mapsto> d1)" "view_of d1 = Some (v\<lparr>tv_state := ''stalled''\<rparr>)" "doc_get d1 ''task_id'' = doc_get d ''task_id''" by blast
    from s1(3) have "docs s1 i = Some d1" by simp
    from increment_view [OF s1(2) this s1(4)] obtain s2 d2 where s2: "increment_recovery_attempts ops i s1 = (Inr (), s2)" "ok s2"
      "docs s2 = (docs s1)(i \<mapsto> d2)" "view_of d2 = Some (v\<lparr>tv_state := ''stalled'', tv_attempts := tv_attempts v + 1\<rparr>)"
      "doc_get d2 ''task_id'' = doc_get d1 ''task_id''" by auto
    let ?pub = "mm_publish env ''task-intake'' [(''resume_task_id'', JStr i)]
       [(''task_id'', JStr i), (''dedup_key'', JStr (''resume-'' @ i @ ''-'' @ show_int \<lfloor>of_int (tv_attempts v) :: rat\<rfloor>))]"
    obtain r s3 where pub: "?pub s2 = (r, s3)" by (cases "?pub s2")
    from unchangedD [OF env(2) s2(2) pub] have s3: "ok s3" "docs s3 = docs s2" by simp_all
    let ?fin = "st_catch (st_bind ?pub (\<lambda>_. st_return WRecovered)) (\<lambda>_. st_return WPublishFailed)"
    have "\<exists>w. ?fin s2 = (Inr w, s3)"
    proof (cases r)
      case (Inl e)
      with pub show ?thesis by (simp add: st_catch_def st_bind_def)
    next
      case (Inr u)
      with pub show ?thesis by (simp add: st_catch_def st_bind_def)
    qed
    then obtain w where w: "?fin s2 = (Inr w, s3)" by blast
    have "recover_task env (with_id i d) s = ?fin s2"
      using att tid lt s1(1) s2(1) env(1) by (simp add: recover_task_def st_bind_Inr)
    with w have "recover_task env (with_id i d) s = (Inr w, s3)" by simp
    moreover have "recover_view v = v\<lparr>tv_state := ''stalled'', tv_attempts := tv_attempts v + 1\<rparr>"
      using False by (simp add: recover_view_def)
    moreover have "docs s3 = (docs s)(i \<mapsto> d2)" using s3(2) s2(3) s1(3) by simp
    ultimately show ?thesis using s3(1) s2(4,5) s1(5) x(3) by auto
  qed
qed

lemma recover_all_views:
  assumes env: "mm_store env = ops" "\<And>t d a. unchanged ok docs (mm_publish env t d a)"
  shows "ok s \<Longrightarrow> tracked (docs s) \<Longrightarrow> distinct ids \<Longrightarrow> \<forall>i\<in>set ids. docs s i \<noteq> None \<Longrightarrow>
    \<exists>vs s'. recover_all env (map (\<lambda>i. with_id i (the (docs s i))) ids) s = (Inr vs, s') \<and> ok s' \<and> tracked (docs s') \<and>
      views (docs s') = (\<lambda>j. if j \<in> set ids then map_option recover_view (views (docs s) j) else views (docs s) j)"
proof (induction ids arbitrary: s)
  case Nil
  then show ?case by (simp add: fun_eq_iff)
next
  case (Cons i ids)
  from Cons.prems(4) obtain d where d: "docs s i = Some d" by auto
  with Cons.prems(2) obtain v where v: "view_of d = Some v" "doc_get d ''task_id'' = JStr i"
    by (auto simp: tracked_def)
  from recover_task_view [OF env Cons.prems(1) d v] obtain r s1 d1 where s1:
    "recover_task env (with_id i d) s = (Inr r, s1)" "ok s1" "docs s1 = (docs s)(i \<mapsto> d1)"
    "view_of d1 = Some (recover_view v)" "doc_get d1 ''task_id'' = JStr i" by blast
  have t1: "tracked (docs s1)" using Cons.prems(2) s1 by (auto simp: tracked_def)
  have dist: "distinct ids" "i \<notin> set ids" using Cons.prems(3) by auto
  have ex: "\<forall>j\<in>set ids. docs s1 j \<noteq> None" using Cons.prems(4) s1(3) by auto
  have same: "map (\<lambda>j. with_id j (the (docs s1 j))) ids = map (\<lambda>j. with_id j (the (docs s j))) ids"
    using s1(3) dist(2) by auto
  from Cons.IH [OF s1(2) t1 dist(1) ex] obtain vs s2 where s2:
    "recover_all env (map (\<lambda>j. with_id j (the (docs s j))) ids) s1 = (Inr vs, s2)" "ok s2" "tracked (docs s2)"
    "views (docs s2) = (\<lambda>j. if j \<in> set ids then map_option recover_view (views (docs s1) j) else views (docs s1) j)"
    unfolding same by blast
  have "views (docs s2) = (\<lambda>j. if j \<in> set (i # ids) then map_option recover_view (views (docs s) j) else views (docs s) j)"
    unfolding s2(4) using s1(3,4) d v(1) dist(2) by (auto simp: views_def fun_eq_iff)
  moreover have "recover_all env (map (\<lambda>i. with_id i (the (docs s i))) (i # ids)) s = (Inr (r # vs), s2)"
    using s1(1) s2(1) d by (simp add: st_bind_Inr)
  ultimately show ?case using s2(2,3) by blast
qed

definition stalled_doc :: "int \<Rightarrow> doc \<Rightarrow> bool" where
  "stalled_doc now d = (case view_of d of None \<Rightarrow> False | Some v \<Rightarrow> is_stalled now v)"

lemma stalled_query:
  assumes s: "ok s" and t: "tracked (docs s)"
  shows "\<exists>ids s'. get_stalled_tasks ops now stalled_minutes s = (Inr (map (\<lambda>i. with_id i (the (docs s i))) ids), s') \<and>
    ok s' \<and> docs s' = docs s \<and> distinct ids \<and> set ids = {i. \<exists>v. views (docs s) i = Some v \<and> is_stalled now v}"
proof -
  have m: "matches_filters (with_id i d) (stalled_filters now stalled_minutes) = Inr (stalled_doc now (with_id i d))"
    if "docs s i = Some d" for i d
  proof -
    from that t obtain v where v: "view_of d = Some v" by (auto simp: tracked_def)
    then obtain "doc_get d ''execution_state'' = JStr (tv_state v)" "doc_get d ''last_heartbeat'' = JTime (tv_heartbeat v)"
      by (rule view_of_SomeE)
    with v show ?thesis
      by (simp add: stalled_filters_def supported_operators_def clause_holds_def present_and_def stalled_doc_def is_stalled_def
          split: bool.split)
  qed
  obtain rows s' where q: "distinct (map fst rows)" "map_of rows = docs s" "ok s'" "docs s' = docs s"
    "op_query ops task_executions (stalled_filters now stalled_minutes) None False None s =
      (res_bind (order_docs None False (found (stalled_doc now) rows)) (\<lambda>os. Inr (limit_docs None os)), s')"
    using query_found [OF s, of "stalled_filters now stalled_minutes" "stalled_doc now" None False None] m by blast
  let ?ids = "map fst (filter (\<lambda>(i, d). stalled_doc now d) rows)"
  have row: "d = the (docs s i)" "docs s i = Some d" if "(i, d) \<in> set rows" for i d
    using that q(1) by (simp_all flip: q(2))
  have "found (stalled_doc now) rows = map (\<lambda>(i, d). with_id i d) (filter (\<lambda>(i, d). stalled_doc now d) rows)"
    unfolding found_def by (induction rows) (auto simp: stalled_doc_def)
  also have "\<dots> = map (\<lambda>i. with_id i (the (docs s i))) ?ids"
    using row by (auto simp: comp_def)
  finally have fnd: "found (stalled_doc now) rows = map (\<lambda>i. with_id i (the (docs s i))) ?ids" .
  have "distinct ?ids" using q(1) by (simp add: distinct_map_filter)
  moreover have "set ?ids = {i. \<exists>v. views (docs s) i = Some v \<and> is_stalled now v}"
  proof (intro set_eqI iffI)
    fix i assume "i \<in> set ?ids"
    then obtain d where "(i, d) \<in> set rows" "stalled_doc now d" by auto
    with row show "i \<in> {i. \<exists>v. views (docs s) i = Some v \<and> is_stalled now v}"
      by (auto simp: views_def stalled_doc_def split: option.splits)
  next
    fix i assume "i \<in> {i. \<exists>v. views (docs s) i = Some v \<and> is_stalled now v}"
    then obtain v d where d: "docs s i = Some d" "view_of d = Some v" "is_stalled now v"
      by (auto simp: views_def bind_eq_Some_conv)
    then have "(i, d) \<in> set rows" using q(2) map_of_SomeD by metis
    with d show "i \<in> set ?ids" by (force simp: stalled_doc_def)
  qed
  ultimately show ?thesis
    using q(3,4,5) fnd by (intro exI [of _ ?ids] exI [of _ s']) (simp add: get_stalled_tasks_def order_docs_def limit_docs_def)
qed

end

text \<open>The tracker in a store whose other collections are kept apart.\<close>

locale framed_tracker = tracker_store ops docs ok + framed_store ops task_executions docs ok apart
  for ops :: "'s store_ops" and docs and ok and apart +
  assumes leases_apart: "apart ''watchdog_leases''"
begin

lemma lease_unchanged:
  assumes "mm_store env = ops"
  shows "unchanged ok docs (acquire_watchdog_lease env e h ttl)"
  unfolding unchanged_def
proof (intro allI impI)
  fix s r s' assume s: "ok s" and run: "acquire_watchdog_lease env e h ttl s = (r, s')"
  obtain r1 s1 where get: "op_get ops ''watchdog_leases'' e s = (r1, s1)" by (cases "op_get ops ''watchdog_leases'' e s")
  from frame_get [OF s leases_apart get] have s1: "ok s1" "docs s1 = docs s" by simp_all
  obtain r2 s2 where set: "op_set ops ''watchdog_leases'' e
      [(''holder'', JStr h), (''acquired_at'', JTime (mm_clock env s1)), (''expires_at'', JTime (mm_clock env s1 + ttl))] s1 = (r2, s2)"
    by (cases "op_set ops ''watchdog_leases'' e
      [(''holder'', JStr h), (''acquired_at'', JTime (mm_clock env s1)), (''expires_at'', JTime (mm_clock env s1 + ttl))] s1")
  from frame_set [OF s1(1) leases_apart set] have s2: "ok s2" "docs s2 = docs s1" by simp_all
  have "s' = s1 \<or> s' = s2"
    using run get set assms
    by (auto simp: acquire_watchdog_lease_def st_bind_def st_catch_def split: sum.splits option.splits if_splits prod.splits)
  with s1 s2 show "ok s' \<and> docs s' = docs s" by auto
qed

text \<open>A tick that got the lease, at time \<open>now\<close>.\<close>

lemma watchdog_tick:
  assumes env: "mm_store env = ops" "\<And>t d a. unchanged ok docs (mm_publish env t d a)" "\<And>s. mm_clock env s = now"
    and s: "ok s" "tracked (docs s)" and run: "watchdog env e h s = (Inr (Ticked n rec esc), s')"
  shows "ok s' \<and> tracked (docs s') \<and> views (docs s') = (\<lambda>i. map_option (tick_view now) (views (docs s) i))"
proof -
  obtain r1 s1 where lease: "acquire_watchdog_lease env e h (seconds 60) s = (r1, s1)"
    by (cases "acquire_watchdog_lease env e h (seconds 60) s")
  from unchangedD [OF lease_unchanged [OF env(1)] s(1) lease] have s1: "ok s1" "docs s1 = docs s" by simp_all
  from run lease have got: "r1 = Inr True" by (cases r1) (auto simp: watchdog_def st_bind_def split: if_splits)
  have t1: "tracked (docs s1)" using s(2) s1(2) by simp
  from stalled_query [OF s1(1) t1, of now] obtain ids s2 where q:
    "get_stalled_tasks ops now stalled_minutes s1 = (Inr (map (\<lambda>i. with_id i (the (docs s1 i))) ids), s2)" "ok s2" "docs s2 = docs s1"
    "distinct ids" "set ids = {i. \<exists>v. views (docs s1) i = Some v \<and> is_stalled now v}" by blast
  have ex: "\<forall>i\<in>set ids. docs s2 i \<noteq> None" using q(3,5) by (auto simp: views_def bind_eq_Some_conv)
  have t2: "tracked (docs s2)" using t1 q(3) by simp
  from recover_all_views [OF env(1,2) q(2) t2 q(4) ex] obtain vs s3 where s3:
    "recover_all env (map (\<lambda>i. with_id i (the (docs s1 i))) ids) s2 = (Inr vs, s3)" "ok s3" "tracked (docs s3)"
    "views (docs s3) = (\<lambda>j. if j \<in> set ids then map_option recover_view (views (docs s1) j) else views (docs s1) j)"
    unfolding q(3) by blast
  have "s' = s3" using run lease got q(1) s3(1) env(1,3) by (simp add: watchdog_def st_bind_Inr st_catch_def)
  moreover have "views (docs s3) = (\<lambda>i. map_option (tick_view now) (views (docs s) i))"
  proof
    fix j show "views (docs s3) j = map_option (tick_view now) (views (docs s) j)"
    proof (cases "views (docs s) j")
      case None
      then show ?thesis unfolding s3(4) q(5) using s1(2) by simp
    next
      case (Some v)
      then show ?thesis unfolding s3(4) q(5) using s1(2) by (simp add: tick_view_def)
    qed
  qed
  ultimately show ?thesis using s3(2,3) by simp
qed

end

interpretation watchdog_sqlite: framed_tracker "lift_ops sqlite_ops" "\<lambda>sw. sq_docs task_executions (fst sw)"
    "\<lambda>sw. sq_ok task_executions (fst sw)" "\<lambda>c'. py_lower c' \<noteq> py_lower task_executions"
proof unfold_locales
  show "py_lower ''watchdog_leases'' \<noteq> py_lower task_executions" by code_simp
qed

section \<open>Deliveries\<close>

context message_store
begin

lemma seen_skipped:
  assumes env: "mm_store env = ops" "\<And>s. mm_clock env s = now" and s: "good s" "pm_id msg \<noteq> []"
    and b: "blocks now inflight_ttl (marks s (pm_id msg))" "\<not> str_truthy (pm_dedup_key msg)"
  shows "\<exists>s'. task_intake env reg msg s = (Inr Duplicate, s') \<and> good s' \<and> marks s' = marks s"
proof -
  obtain s' where "claim_message ops now inflight_ttl ''task-intake'' (pm_id msg) s = (Inr True, s')" "good s'" "marks s' = marks s"
    using refinesD [OF claim_refines s(1), of now inflight_ttl "''task-intake''" "pm_id msg"] b(1) by auto
  then show ?thesis
    using env s(2) b(2) by (simp add: task_intake_def check_message_dedup_def claim_now_def Let_def st_bind_Inr)
qed

end

interpretation dedup_world: message_store "lift_ops sqlite_ops" "\<lambda>sw. sq_docs processed_messages (fst sw)"
    "\<lambda>sw. sq_ok processed_messages (fst sw)"
  by unfold_locales

section \<open>Events of a task\<close>

text \<open>What happens to the view of one task: a tick, or a write of the tracker.\<close>

datatype task_event = TickAt int | CheckpointAt int | HeartbeatAt int | FinalizeAs string | EscalateTask

fun view_step :: "task_event \<Rightarrow> task_view \<Rightarrow> task_view" where
  "view_step (TickAt now) v = tick_view now v"
| "view_step (CheckpointAt now) v = v\<lparr>tv_state := ''running'', tv_heartbeat := now\<rparr>"
| "view_step (HeartbeatAt now) v = v\<lparr>tv_heartbeat := now\<rparr>"
| "view_step (FinalizeAs st) v = v\<lparr>tv_state := (if st = ''escalated'' then ''escalated'' else ''completed'')\<rparr>"
| "view_step EscalateTask v = v\<lparr>tv_state := ''escalated''\<rparr>"

text \<open>Whether the event re-publishes the task.\<close>

fun republishes :: "task_event \<Rightarrow> task_view \<Rightarrow> bool" where
  "republishes (TickAt now) v = (is_stalled now v \<and> tv_attempts v < 3)"
| "republishes _ v = False"

fun resume_count :: "task_event list \<Rightarrow> task_view \<Rightarrow> nat" where
  "resume_count [] v = 0"
| "resume_count (e # es) v = (if republishes e v then 1 else 0) + resume_count es (view_step e v)"

lemma resume_bound: "int (resume_count es v) \<le> max 0 (3 - tv_attempts v)"
proof (induction es arbitrary: v)
  case Nil
  then show ?case by simp
next
  case (Cons e es)
  show ?case
  proof (cases "republishes e v")
    case True
    then obtain now where e: "e = TickAt now" "is_stalled now v" "tv_attempts v < 3" by (cases e) auto
    then have "tv_attempts (view_step e v) = tv_attempts v + 1" by (simp add: tick_view_def recover_view_def)
    with Cons.IH [of "view_step e v"] True e(3) show ?thesis by simp
  next
    case False
    have "tv_attempts (view_step e v) = tv_attempts v"
      using False by (cases e) (auto simp: tick_view_def recover_view_def)
    with Cons.IH [of "view_step e v"] False show ?thesis by simp
  qed
qed

context tracker_store
begin

text \<open>The events are what the operations of the tracker do to the view of their task.\<close>

lemma write_view:
  assumes "refines ok docs m (\<lambda>x _ y. y = patch i u x)" "distinct (dict_keys u)" "ok s" "docs s i = Some d" "view_of d = Some v"
    and "dict_get u ''recovery_attempts'' = None" "view_of (dict_merge d u) = Some w"
  shows "\<exists>s'. m s = (Inr (), s') \<and> ok s' \<and> views (docs s') = (views (docs s))(i \<mapsto> w)"
proof -
  obtain s' where s': "m s = (Inr (), s')" "ok s'" "docs s' = patch i u (docs s)"
    using refinesD [OF assms(1,3)] by auto
  then have "views (docs s') = (views (docs s))(i \<mapsto> w)"
    using assms(4,7) by (auto simp: views_def patch_def fun_eq_iff)
  with s' show ?thesis by blast
qed

lemma event_views:
  assumes "ok s" "docs s i = Some d" "view_of d = Some v"
  shows "\<exists>s'. update_execution_state ops now i nid nrs rcs s = (Inr (), s') \<and> ok s' \<and>
      views (docs s') = (views (docs s))(i \<mapsto> view_step (CheckpointAt now) v)"
    and "\<exists>s'. update_heartbeat ops now i s = (Inr (), s') \<and> ok s' \<and>
      views (docs s') = (views (docs s))(i \<mapsto> view_step (HeartbeatAt now) v)"
    and "\<exists>s'. finalize_task ops now i st url n s = (Inr (), s') \<and> ok s' \<and>
      views (docs s') = (views (docs s))(i \<mapsto> view_step (FinalizeAs st) v)"
    and "\<exists>s'. mark_escalated ops now i reason node s = (Inr (), s') \<and> ok s' \<and>
      views (docs s') = (views (docs s))(i \<mapsto> view_step EscalateTask v)"
proof -
  obtain v': "doc_get d ''execution_state'' = JStr (tv_state v)" "doc_get d ''recovery_attempts'' = JInt (tv_attempts v)"
    "doc_get d ''last_heartbeat'' = JTime (tv_heartbeat v)" using assms(3) by (rule view_of_SomeE)
  show "\<exists>s'. update_execution_state ops now i nid nrs rcs s = (Inr (), s') \<and> ok s' \<and>
      views (docs s') = (views (docs s))(i \<mapsto> view_step (CheckpointAt now) v)"
    by (rule write_view [OF update_refines(5) _ assms]) (simp_all add: checkpoint_doc_def view_of_def v')
  show "\<exists>s'. update_heartbeat ops now i s = (Inr (), s') \<and> ok s' \<and>
      views (docs s') = (views (docs s))(i \<mapsto> view_step (HeartbeatAt now) v)"
    by (rule write_view [OF update_refines(2) _ assms]) (simp_all add: view_of_def v')
  show "\<exists>s'. finalize_task ops now i st url n s = (Inr (), s') \<and> ok s' \<and>
      views (docs s') = (views (docs s))(i \<mapsto> view_step (FinalizeAs st) v)"
    by (rule write_view [OF update_refines(1) _ assms]) (simp_all add: finalize_doc_def view_of_def v')
  have u: "distinct (dict_keys (escalate_doc now reason node))"
    "dict_get (escalate_doc now reason node) ''execution_state'' = Some (JStr ''escalated'')"
    "dict_get (escalate_doc now reason node) ''recovery_attempts'' = None"
    "dict_get (escalate_doc now reason node) ''last_heartbeat'' = None"
    by (simp_all add: escalate_doc_def opt_item_def split: option.split)
  show "\<exists>s'. mark_escalated ops now i reason node s = (Inr (), s') \<and> ok s' \<and>
      views (docs s') = (views (docs s))(i \<mapsto> view_step EscalateTask v)"
    by (rule write_view [OF update_refines(4) u(1) assms u(3)]) (simp add: view_of_merge [OF assms(3) u])
qed

text \<open>\<open>handle_task\<close> leaves a running or stalled task alone and brings any other to a final state.\<close>

lemma handle_task_spec:
  assumes env: "mm_store env = ops" "harmless ok env" and s: "ok s"
  shows "\<exists>out s'. handle_task env reg task s = (Inr out, s') \<and> ok s' \<and>
    (if state_of (docs s) (task_id task) \<in> {JStr ''running'', JStr ''stalled''}
     then out = AlreadyRunning \<and> docs s' = docs s
     else state_of (docs s') (task_id task) = JStr (if escalated_outcome out then ''escalated'' else ''completed''))"
proof -
  obtain s1 where get: "get_task ops (task_id task) s = (Inr (map_option (with_id (task_id task)) (docs s (task_id task))), s1)"
    "ok s1" "docs s1 = docs s"
    using refinesD [OF get_refines s] by auto
  have nonempty: "with_id i e \<noteq> []" for i e by (cases e) (auto simp: with_id_def)
  have ip: "in_progress (map_option (with_id (task_id task)) (docs s (task_id task))) \<longleftrightarrow>
      state_of (docs s) (task_id task) \<in> {JStr ''running'', JStr ''stalled''}"
    by (auto simp: in_progress_def state_of_def doc_of_def nonempty split: option.split)
  obtain out s' where run: "handle_task env reg task s = (Inr out, s')" using handle_task_returns [of env reg task s] by blast
  show ?thesis
  proof (cases "state_of (docs s) (task_id task) \<in> {JStr ''running'', JStr ''stalled''}")
    case True
    then have "handle_task env reg task s = (Inr AlreadyRunning, s1)"
      using get(1) env(1) ip by (simp add: handle_task_def st_bind_Inr)
    with True get(2,3) show ?thesis by simp
  next
    case False
    have "out \<noteq> AlreadyRunning"
    proof
      assume "out = AlreadyRunning"
      with run False get(1) env(1) ip show False
        by (auto simp: handle_task_def run_task_def Let_def st_bind_def st_catch_def
            split: sum.splits prod.splits option.splits if_splits)
    qed
    from handle_task_final [OF env s run this] run False show ?thesis by auto
  qed
qed

end

section \<open>Properties\<close>

text \<open>
  \<open>handle_task\<close> replies on every store, also on one whose every operation raises, and whatever the
  nodes, the dossier and the broker do: no exception of it reaches the delivery's 500.
\<close>

theorem handle_task_replies: "\<exists>out s'. handle_task env reg task s = (Inr out, s')"
  by (rule handle_task_returns)

text \<open>
  C18: With the tracker on SQLite and an outside that leaves the store usable, \<open>handle_task\<close> does not
  touch a running or stalled task, and leaves the document of any other task in a final state that
  says whether the run escalated.
\<close>

theorem handled_task_is_final:
  assumes "mm_store env = lift_ops sqlite_ops" "harmless (\<lambda>sw. sq_ok task_executions (fst sw)) env" "sq_ok task_executions (fst s)"
  shows "\<exists>out s'. handle_task env reg task s = (Inr out, s') \<and> sq_ok task_executions (fst s') \<and>
    (if state_of (sq_docs task_executions (fst s)) (task_id task) \<in> {JStr ''running'', JStr ''stalled''}
     then out = AlreadyRunning \<and> sq_docs task_executions (fst s') = sq_docs task_executions (fst s)
     else state_of (sq_docs task_executions (fst s')) (task_id task) =
       JStr (if escalated_outcome out then ''escalated'' else ''completed''))"
  using watchdog_sqlite.handle_task_spec [OF assms] .

definition quiet_outside :: "int \<Rightarrow> (sqlite_store \<times> unit) outside" where
  "quiet_outside now =
     \<lparr>mm_store = lift_ops sqlite_ops, mm_clock = (\<lambda>_. now), mm_dump = (\<lambda>t. JObj [(''id'', JStr (task_id t))]),
      mm_load = (\<lambda>_. None), mm_dossier = (\<lambda>_ _. st_return ()), mm_node = (\<lambda>_ _ _ s. (empty_result, s)),
      mm_publish = (\<lambda>_ _ _. st_return ()), mm_github_token = (\<lambda>_. st_return (Inr ())), mm_ci_errors = (\<lambda>_ _. st_return []),
      mm_report = (\<lambda>_. st_return ()), mm_fix_lair = (\<lambda>_ _ _ _. st_return COMPLETED)\<rparr>"

definition fresh_store :: sqlite_store where
  "fresh_store = \<lparr>sq_tables = [], sq_closed = False\<rparr>"

definition some_task :: henchmen_task where
  "some_task =
     \<lparr>task_id = ''t1'', task_source_of = CLI, source_id = ''cli'', title = ''Fix it'', description = ''Broken'',
      task_ctx = \<lparr>ctx_repo = ''o/r'', ctx_branch = None, thread_messages = None, issue_fields = None, pr_diff = None\<rparr>,
      priority = NORMAL, task_type_of = None, created_by = ''me''\<rparr>"

lemma quiet_sel [simp]: "mm_store (quiet_outside now) = lift_ops sqlite_ops" "mm_clock (quiet_outside now) s = now"
  by (simp_all add: quiet_outside_def)

lemma fresh_ok: "sq_ok task_executions fresh_store" "sq_ok processed_messages fresh_store"
  by code_simp+

lemma handled_task_is_final_witness:
  "\<exists>out s'. handle_task (quiet_outside 0) [] some_task (fresh_store, ()) = (Inr out, s') \<and> sq_ok task_executions (fst s') \<and>
    (if state_of (sq_docs task_executions (fst (fresh_store, ()))) (task_id some_task) \<in> {JStr ''running'', JStr ''stalled''}
     then out = AlreadyRunning \<and> sq_docs task_executions (fst s') = sq_docs task_executions (fst (fresh_store, ()))
     else state_of (sq_docs task_executions (fst s')) (task_id some_task) =
       JStr (if escalated_outcome out then ''escalated'' else ''completed''))"
  by (rule handled_task_is_final) (simp_all add: fresh_ok harmless_def quiet_outside_def)

text \<open>
  C19: A checkpoint on SQLite is restored exactly: the document read back holds the results of all nodes
  and the retry counts the executor had.
\<close>

theorem checkpoint_restored:
  assumes "sq_ok task_executions s"
  shows "\<exists>s1 d s2. update_execution_state sqlite_ops now tid nid nrs rcs s = (Inr (), s1) \<and>
    get_task sqlite_ops tid s1 = (Inr (Some d), s2) \<and> saved_results d = nrs \<and> saved_counts d = rcs"
  by (rule tracker_sqlite.checkpoint_roundtrip [OF assms])

lemma checkpoint_restored_witness:
  "\<exists>s1 d s2. update_execution_state sqlite_ops 5 ''t1'' ''n'' [(''n'', empty_result\<lparr>nr_condition := Some Pass\<rparr>)] [(''n'', 1)] fresh_store = (Inr (), s1) \<and>
    get_task sqlite_ops ''t1'' s1 = (Inr (Some d), s2) \<and>
    saved_results d = [(''n'', empty_result\<lparr>nr_condition := Some Pass\<rparr>)] \<and> saved_counts d = [(''n'', 1)]"
  by (rule checkpoint_restored) (rule fresh_ok)

text \<open>
  C20: A tick of the watchdog that got the lease escalates exactly the running tasks without a heartbeat
  for ten minutes that were recovered three times, marks and counts the other such tasks, and changes
  the state, attempts and heartbeat of no other task, finished ones in particular.
\<close>

theorem watchdog_tick_refines:
  assumes "mm_store env = lift_ops sqlite_ops" "\<And>s. mm_clock env s = now"
    and "\<And>t d a. unchanged (\<lambda>sw. sq_ok task_executions (fst sw)) (\<lambda>sw. sq_docs task_executions (fst sw)) (mm_publish env t d a)"
    and "sq_ok task_executions (fst s)" "tracked (sq_docs task_executions (fst s))"
    and "watchdog env e h s = (Inr (Ticked n rec esc), s')"
  shows "tracked (sq_docs task_executions (fst s')) \<and>
    views (sq_docs task_executions (fst s')) = (\<lambda>i. map_option (tick_view now) (views (sq_docs task_executions (fst s)) i))"
  using watchdog_sqlite.watchdog_tick [OF assms(1,3,2,4,5,6)] by blast

definition watched_store :: sqlite_store where
  "watched_store =
     \<lparr>sq_tables = [(task_executions,
        [(''t1'', [(''task_id'', JStr ''t1''), (''execution_state'', JStr ''running''), (''recovery_attempts'', JInt 0), (''last_heartbeat'', JTime 0)]),
         (''t2'', [(''task_id'', JStr ''t2''), (''execution_state'', JStr ''stalled''), (''recovery_attempts'', JInt 1), (''last_heartbeat'', JTime 0)])])],
      sq_closed = False\<rparr>"

definition after_tick :: "sqlite_store \<times> unit" where
  "after_tick = snd (watchdog (quiet_outside (minutes 11)) ''dev'' ''m1'' (watched_store, ()))"

lemma watched_ok: "sq_ok task_executions watched_store"
  by code_simp

lemma watched_docs:
  "sq_docs task_executions watched_store =
     [''t1'' \<mapsto> [(''task_id'', JStr ''t1''), (''execution_state'', JStr ''running''), (''recovery_attempts'', JInt 0), (''last_heartbeat'', JTime 0)],
      ''t2'' \<mapsto> [(''task_id'', JStr ''t2''), (''execution_state'', JStr ''stalled''), (''recovery_attempts'', JInt 1), (''last_heartbeat'', JTime 0)]]"
proof -
  have "py_lower task_executions = task_executions" by code_simp
  then show ?thesis by (simp add: sq_docs_def sq_table_def watched_store_def dict_get_or_def fun_eq_iff)
qed

lemma watched_tracked: "tracked (sq_docs task_executions watched_store)"
  unfolding watched_docs by (auto simp: tracked_def view_of_def)

lemma tick_runs: "watchdog (quiet_outside (minutes 11)) ''dev'' ''m1'' (watched_store, ()) = (Inr (Ticked 1 1 0), after_tick)"
proof -
  have "case fst (watchdog (quiet_outside (minutes 11)) ''dev'' ''m1'' (watched_store, ())) of Inr (Ticked n r k) \<Rightarrow> n = 1 \<and> r = 1 \<and> k = 0 | _ \<Rightarrow> False"
    by code_simp
  then show ?thesis by (auto simp: after_tick_def prod_eq_iff split: sum.splits watchdog_reply.splits)
qed


lemma watchdog_tick_refines_witness:
  "tracked (sq_docs task_executions (fst after_tick)) \<and>
    views (sq_docs task_executions (fst after_tick)) =
      (\<lambda>i. map_option (tick_view (minutes 11)) (views (sq_docs task_executions (fst (watched_store, ()))) i))"
proof (rule watchdog_tick_refines)
  show "unchanged (\<lambda>sw. sq_ok task_executions (fst sw)) (\<lambda>sw. sq_docs task_executions (fst sw)) (mm_publish (quiet_outside (minutes 11)) t d a)" for t d a
    by (simp add: unchanged_def quiet_outside_def)
qed (use tick_runs watched_ok watched_tracked in simp_all)

text \<open>
  Whatever ticks, heartbeats, checkpoints, escalations and finishes happen to a task after its
  start, the watchdog re-publishes it at most three times.
\<close>

theorem three_resumes_at_most: "resume_count es \<lparr>tv_state = st, tv_attempts = 0, tv_heartbeat = t\<rparr> \<le> 3"
  using resume_bound [of es "\<lparr>tv_state = st, tv_attempts = 0, tv_heartbeat = t\<rparr>"] by simp


definition stalled_task :: henchmen_task where
  "stalled_task = some_task\<lparr>task_id := ''t2''\<rparr>"


text \<open>
  A message whose marker says done, or in flight for less than the time to live, is acknowledged as
  a duplicate without any change of the markers.
\<close>

theorem seen_message_skipped:
  assumes "mm_store env = lift_ops sqlite_ops" "\<And>s. mm_clock env s = now"
    and "sq_ok processed_messages (fst s)" "marker_docs (sq_docs processed_messages (fst s))"
    and "pm_id msg \<noteq> []" "pm_dedup_key msg = None"
    and "blocks now inflight_ttl (markers (sq_docs processed_messages (fst s)) (pm_id msg))"
  shows "\<exists>s'. task_intake env reg msg s = (Inr Duplicate, s') \<and>
    markers (sq_docs processed_messages (fst s')) = markers (sq_docs processed_messages (fst s))"
  using dedup_world.seen_skipped [OF assms(1,2), of s msg reg] assms(3-7)
  by (auto simp: dedup_world.good_def dedup_world.marks_def str_truthy_def)

definition seen_store :: sqlite_store where
  "seen_store =
     \<lparr>sq_tables = [(processed_messages,
        [(''m1'', [(''status'', JStr ''in_flight''), (''acquired_at'', JTime 0), (''processed_at'', JTime 0), (''key'', JStr ''m1'')])])], sq_closed = False\<rparr>"

definition redelivery :: push_message where
  "redelivery = \<lparr>pm_id = ''m1'', pm_dedup_key = None, pm_data = Payload (JObj [(''resume_task_id'', JStr ''t1'')])\<rparr>"

lemma seen_docs:
  "sq_docs processed_messages seen_store =
     [''m1'' \<mapsto> [(''status'', JStr ''in_flight''), (''acquired_at'', JTime 0), (''processed_at'', JTime 0), (''key'', JStr ''m1'')]]"
proof -
  have "py_lower processed_messages = processed_messages" by code_simp
  then show ?thesis by (simp add: sq_docs_def sq_table_def seen_store_def dict_get_or_def fun_eq_iff)
qed

lemma seen_message_skipped_witness:
  "\<exists>s'. task_intake (quiet_outside (minutes 2)) [] redelivery (seen_store, ()) = (Inr Duplicate, s') \<and>
    markers (sq_docs processed_messages (fst s')) = markers (sq_docs processed_messages (fst (seen_store, ())))"
proof (rule seen_message_skipped)
  show "sq_ok processed_messages (fst (seen_store, ()))" by code_simp
  show "marker_docs (sq_docs processed_messages (fst (seen_store, ())))"
    by (simp add: seen_docs marker_docs_def marker_of_def)
  have "markers (sq_docs processed_messages seen_store) ''m1'' = InFlight 0"
    by (simp add: seen_docs markers_def marker_of_def)
  then show "blocks (minutes 2) inflight_ttl (markers (sq_docs processed_messages (fst (seen_store, ()))) (pm_id redelivery))"
    by (simp add: redelivery_def inflight_ttl_def minutes_def seconds_def)
qed (simp_all add: redelivery_def)

context message_store
begin

lemma interleaved_claims:
  assumes "good s" "marks s key = Unseen"
  shows "\<exists>s1 s2 s3 s4. check_marker ops now ttl key s = (Inr False, s1) \<and> check_marker ops now ttl key s1 = (Inr False, s2) \<and>
    set_marker ops now h key s2 = (Inr (), s3) \<and> set_marker ops now h' key s3 = (Inr (), s4)"
proof -
  obtain s1 where s1: "check_marker ops now ttl key s = (Inr False, s1)" "good s1" "marks s1 key = Unseen"
    using refinesD [OF check_refines assms(1), of now ttl key] assms(2) by auto
  obtain s2 where s2: "check_marker ops now ttl key s1 = (Inr False, s2)" "good s2"
    using refinesD [OF check_refines s1(2), of now ttl key] s1(3) by auto
  obtain s3 where s3: "set_marker ops now h key s2 = (Inr (), s3)" "good s3"
    using refinesD [OF mark_refines s2(2), of now h key] by auto
  obtain s4 where "set_marker ops now h' key s3 = (Inr (), s4)"
    using refinesD [OF mark_refines s3(2), of now h' key] by auto
  with s1 s2 s3 show ?thesis by blast
qed

end



section \<open>Keywords\<close>

lemma word_search_split:
  assumes "kw \<noteq> []"
  shows "word_search prev kw s \<longleftrightarrow>
    (\<exists>pre post. s = pre @ kw @ post \<and> boundary (if pre = [] then prev else Some (last pre)) (Some (hd kw)) \<and>
       boundary (Some (last kw)) (first_char post))"
proof (induction s arbitrary: prev)
  case Nil
  with assms show ?case by simp
next
  case (Cons c s)
  show ?case (is "?l \<longleftrightarrow> (\<exists>pre post. ?r pre post)")
  proof
    assume ?l
    then consider "prefix kw (c # s)" "boundary prev (Some (hd kw))" "boundary (Some (last kw)) (first_char (drop (length kw) (c # s)))"
      | "word_search (Some c) kw s" by auto
    then show "\<exists>pre post. ?r pre post"
    proof cases
      case 1
      then have "?r [] (drop (length kw) (c # s))" by (auto simp: prefix_def)
      then show ?thesis by blast
    next
      case 2
      with Cons.IH obtain pre post where "s = pre @ kw @ post" "boundary (if pre = [] then Some c else Some (last pre)) (Some (hd kw))"
        "boundary (Some (last kw)) (first_char post)" by blast
      then have "?r (c # pre) post" by (auto split: if_splits)
      then show ?thesis by blast
    qed
  next
    assume "\<exists>pre post. ?r pre post"
    then obtain pre post where r: "?r pre post" by blast
    show ?l
    proof (cases pre)
      case Nil
      with r have e: "c # s = kw @ post" and b: "boundary prev (Some (hd kw))" "boundary (Some (last kw)) (first_char post)"
        by simp_all
      have "prefix kw (c # s)" "drop (length kw) (c # s) = post" unfolding e by simp_all
      with b show ?thesis by (simp only: word_search.simps) simp
    next
      case (Cons a pre')
      with r have "s = pre' @ kw @ post" "boundary (if pre' = [] then Some c else Some (last pre')) (Some (hd kw))"
        "boundary (Some (last kw)) (first_char post)" by (auto split: if_splits)
      then have "word_search (Some c) kw s" unfolding Cons.IH by blast
      then show ?thesis by simp
    qed
  qed
qed

definition whole_word_in :: "string \<Rightarrow> string \<Rightarrow> bool" where
  "whole_word_in kw text \<longleftrightarrow>
     (\<exists>pre post. text = pre @ kw @ post \<and> (pre = [] \<or> \<not> is_word_char (last pre)) \<and> (post = [] \<or> \<not> is_word_char (hd post)))"

text \<open>
  C23: The words and phrases of the scheme selection match exactly where they stand between characters
  that are no word characters, or at an end of the text.
\<close>

theorem keywords_are_whole_words:
  "kw \<in> set (goal_keywords @ bugfix_keywords @ feature_keywords) \<Longrightarrow> word_search None kw text \<longleftrightarrow> whole_word_in kw text"
proof -
  assume kw: "kw \<in> set (goal_keywords @ bugfix_keywords @ feature_keywords)"
  have "list_all (\<lambda>k. k \<noteq> [] \<and> is_word_char (hd k) \<and> is_word_char (last k)) (goal_keywords @ bugfix_keywords @ feature_keywords)"
    by code_simp
  with kw have k: "kw \<noteq> []" "is_word_char (hd kw)" "is_word_char (last kw)" by (auto simp only: list_all_iff)
  have "boundary (if pre = [] then None else Some (last pre)) (Some (hd kw)) \<longleftrightarrow> pre = [] \<or> \<not> is_word_char (last pre)" for pre
    using k by (simp add: boundary_def word_opt_def)
  moreover have "boundary (Some (last kw)) (first_char post) \<longleftrightarrow> post = [] \<or> \<not> is_word_char (hd post)" for post
    using k by (cases post) (simp_all add: boundary_def word_opt_def first_char_def)
  ultimately show ?thesis unfolding word_search_split [OF k(1)] whole_word_in_def by simp
qed

lemma keywords_are_whole_words_witness: "word_search None ''fix'' ''prefix the fix'' \<longleftrightarrow> whole_word_in ''fix'' ''prefix the fix''"
  by (rule keywords_are_whole_words) code_simp

definition broken_task_store :: sqlite_store where
  "broken_task_store =
     \<lparr>sq_tables = [(task_executions, [(''t1'', [(''task_id'', JStr ''t1''), (''task_payload'', JStr ''x''),
        (''execution_state'', JStr ''stalled'')])])], sq_closed = False\<rparr>"


end
