(* ===== verification/PyText.thy ===== *)
theory PyText
  imports DocStore Pricing LintScope
begin

text \<open>
  What the operative uses of Python's text functions: \<open>str\<close>, \<open>repr\<close> and \<open>json.dumps\<close> of a JSON value,
  \<open>str.split\<close>, \<open>float\<close> of a string, and the path functions of \<open>os.path\<close> that do not look at the file
  system. Some renderings are an argument: \<open>float.__repr__\<close> and the format \<open>.2f\<close>, because amounts are exact
  rationals here, and the two forms of a stored time. \<open>json.dumps\<close> cannot write a time: \<open>json_text\<close> is what it
  writes of a value without one.
\<close>

record renderers =
  show_float :: "rat \<Rightarrow> string"
  show_time :: "int \<Rightarrow> string"
  repr_time :: "int \<Rightarrow> string"
  show_cents :: "rat \<Rightarrow> string"

section \<open>Escapes\<close>

definition hex_digit :: "nat \<Rightarrow> char" where
  "hex_digit n = (if n < 10 then char_of (48 + n) else char_of (87 + n))"

definition hex2 :: "char \<Rightarrow> string" where
  "hex2 c = (let n = of_char c :: nat in [hex_digit (n div 16), hex_digit (n mod 16)])"

text \<open>\<open>repr\<close> of a string: single quotes unless the text has one and no double quote.\<close>

definition is_printable :: "char \<Rightarrow> bool" where
  "is_printable c = (let n = of_char c :: nat in (32 \<le> n \<and> n \<le> 126) \<or> (161 \<le> n \<and> n \<noteq> 173))"

definition repr_char :: "char \<Rightarrow> char \<Rightarrow> string" where
  "repr_char q c =
     (if c = q \<or> c = CHR 0x5C then [CHR 0x5C, c]
      else if c = CHR 0x0A then [CHR 0x5C, CHR 0x6E]
      else if c = CHR 0x0D then [CHR 0x5C, CHR 0x72]
      else if c = CHR 0x09 then [CHR 0x5C, CHR 0x74]
      else if is_printable c then [c]
      else [CHR 0x5C, CHR 0x78] @ hex2 c)"

definition repr_str :: "string \<Rightarrow> string" where
  "repr_str s =
     (let q = (if CHR 0x27 \<in> set s \<and> CHR 0x22 \<notin> set s then CHR 0x22 else CHR 0x27) in
      [q] @ concat (map (repr_char q) s) @ [q])"

text \<open>\<open>json.dumps\<close> of a string, with \<open>ensure_ascii\<close>.\<close>

definition json_char :: "char \<Rightarrow> string" where
  "json_char c =
     (if c = CHR 0x22 \<or> c = CHR 0x5C then [CHR 0x5C, c]
      else if c = CHR 0x0A then [CHR 0x5C, CHR 0x6E]
      else if c = CHR 0x0D then [CHR 0x5C, CHR 0x72]
      else if c = CHR 0x09 then [CHR 0x5C, CHR 0x74]
      else if c = CHR 0x0C then [CHR 0x5C, CHR 0x66]
      else if c = CHR 0x08 then [CHR 0x5C, CHR 0x62]
      else if 32 \<le> (of_char c :: nat) \<and> (of_char c :: nat) \<le> 126 then [c]
      else [CHR 0x5C, CHR 0x75, CHR 0x30, CHR 0x30] @ hex2 c)"

definition json_quote :: "string \<Rightarrow> string" where
  "json_quote s = [CHR 0x22] @ concat (map json_char s) @ [CHR 0x22]"

section \<open>Values as text\<close>

fun py_repr :: "renderers \<Rightarrow> json \<Rightarrow> string" where
  "py_repr f JNull = ''None''"
| "py_repr f (JBool b) = (if b then ''True'' else ''False'')"
| "py_repr f (JInt i) = show_int i"
| "py_repr f (JFloat q) = show_float f q"
| "py_repr f (JStr s) = repr_str s"
| "py_repr f (JTime t) = repr_time f t"
| "py_repr f (JList vs) = ''['' @ join_with '', '' (map (py_repr f) vs) @ '']''"
| "py_repr f (JObj kvs) = ''{'' @ join_with '', '' (map (\<lambda>(k, v). repr_str k @ '': '' @ py_repr f v) kvs) @ ''}''"

definition py_str :: "renderers \<Rightarrow> json \<Rightarrow> string" where
  "py_str f v = (case v of JStr s \<Rightarrow> s | JTime t \<Rightarrow> show_time f t | _ \<Rightarrow> py_repr f v)"

fun json_text :: "renderers \<Rightarrow> json \<Rightarrow> string" where
  "json_text f JNull = ''null''"
| "json_text f (JBool b) = (if b then ''true'' else ''false'')"
| "json_text f (JInt i) = show_int i"
| "json_text f (JFloat q) = show_float f q"
| "json_text f (JStr s) = json_quote s"
| "json_text f (JTime t) = []"
| "json_text f (JList vs) = ''['' @ join_with '', '' (map (json_text f) vs) @ '']''"
| "json_text f (JObj kvs) = ''{'' @ join_with '', '' (map (\<lambda>(k, v). json_quote k @ '': '' @ json_text f v) kvs) @ ''}''"

fun has_time :: "json \<Rightarrow> bool" where
  "has_time (JTime t) = True"
| "has_time (JList vs) = list_ex has_time vs"
| "has_time (JObj kvs) = list_ex (\<lambda>(k, v). has_time v) kvs"
| "has_time _ = False"

definition json_dumps :: "renderers \<Rightarrow> json \<Rightarrow> store_error + string" where
  "json_dumps f v = (if has_time v then Inl TypeErr else Inr (json_text f v))"

section \<open>Numbers in text\<close>

datatype py_float = Finite rat | Infinite bool | NotANumber

text \<open>Digits with single underscores between them.\<close>

fun digits_ok :: "string \<Rightarrow> bool" where
  "digits_ok [] = False"
| "digits_ok [c] = is_digit c"
| "digits_ok (c # d # cs) = (is_digit c \<and> (if d = CHR 0x5F then digits_ok cs else digits_ok (d # cs)))"

definition digits_value :: "string \<Rightarrow> nat" where
  "digits_value s = fold (\<lambda>c n. 10 * n + (of_char c - 48)) (filter is_digit s) 0"

text \<open>The text before and after the first character with a property.\<close>

definition cut_at :: "(char \<Rightarrow> bool) \<Rightarrow> string \<Rightarrow> string \<times> string option" where
  "cut_at P s = (takeWhile (\<lambda>c. \<not> P c) s, case dropWhile (\<lambda>c. \<not> P c) s of [] \<Rightarrow> None | _ # r \<Rightarrow> Some r)"

definition sign_split :: "string \<Rightarrow> bool \<times> string" where
  "sign_split s = (case s of [] \<Rightarrow> (False, [])
     | c # r \<Rightarrow> if c = CHR 0x2D then (True, r) else if c = CHR 0x2B then (False, r) else (False, s))"

definition parse_mantissa :: "string \<Rightarrow> rat option" where
  "parse_mantissa s =
     (case cut_at (\<lambda>c. c = CHR 0x2E) s of
        (a, None) \<Rightarrow> if digits_ok a then Some (of_nat (digits_value a)) else None
      | (a, Some b) \<Rightarrow>
          if (a = [] \<or> digits_ok a) \<and> (b = [] \<or> digits_ok b) \<and> \<not> (a = [] \<and> b = [])
          then Some (of_nat (digits_value a) + of_nat (digits_value b) / 10 ^ length (filter is_digit b))
          else None)"

definition parse_exponent :: "string option \<Rightarrow> rat option" where
  "parse_exponent e =
     (case e of None \<Rightarrow> Some 1
      | Some t \<Rightarrow> let (neg, d) = sign_split t in
          if \<not> digits_ok d then None
          else Some (if neg then 1 / 10 ^ digits_value d else 10 ^ digits_value d))"

definition parse_float :: "string \<Rightarrow> py_float option" where
  "parse_float s =
     (let (neg, body) = sign_split (py_strip s) in
      if py_lower body \<in> {''inf'', ''infinity''} then Some (Infinite neg)
      else if py_lower body = ''nan'' then Some NotANumber
      else (let (m, e) = cut_at (\<lambda>c. c = CHR 0x65 \<or> c = CHR 0x45) body in
        case (parse_mantissa m, parse_exponent e) of
          (Some a, Some b) \<Rightarrow> Some (Finite (if neg then - (a * b) else a * b))
        | _ \<Rightarrow> None))"

text \<open>\<open>max(0.0, min(1.0, x))\<close>; a NaN loses both comparisons, so it becomes one.\<close>

definition clamp_unit :: "py_float \<Rightarrow> rat" where
  "clamp_unit x = (case x of Finite q \<Rightarrow> max 0 (min 1 q) | Infinite neg \<Rightarrow> (if neg then 0 else 1) | NotANumber \<Rightarrow> 1)"

lemma clamp_unit_range: "0 \<le> clamp_unit x" "clamp_unit x \<le> 1"
  by (simp_all add: clamp_unit_def split: py_float.split)

text \<open>An ASCII letter or digit.\<close>

definition is_alnum :: "char \<Rightarrow> bool" where
  "is_alnum c = (let n = of_char c :: nat in (48 \<le> n \<and> n \<le> 57) \<or> (65 \<le> n \<and> n \<le> 90) \<or> (97 \<le> n \<and> n \<le> 122))"

section \<open>Splitting\<close>

text \<open>\<open>s.split()\<close>: the maximal runs of characters that are no white space.\<close>

function py_words :: "string \<Rightarrow> string list" where
  "py_words s =
     (case py_lstrip s of [] \<Rightarrow> []
      | t \<Rightarrow> takeWhile (\<lambda>c. \<not> is_space c) t # py_words (dropWhile (\<lambda>c. \<not> is_space c) t))"
  by auto
termination
proof (relation "measure length")
  fix s t a ts assume "py_lstrip s = a # ts"
  moreover from this have "\<not> is_space a" by (metis hd_dropWhile list.distinct(1) list.sel(1) py_lstrip_def)
  moreover have "length (py_lstrip s) \<le> length s" by (simp add: py_lstrip_def length_dropWhile_le)
  ultimately show "(dropWhile (\<lambda>c. \<not> is_space c) (a # ts), s) \<in> measure length"
    using length_dropWhile_le [of "\<lambda>c. \<not> is_space c" ts] by simp
qed simp

declare py_words.simps [simp del]

text \<open>\<open>s.split(sep, 1)\<close>: the text before and after the first occurrence of a non-empty separator.\<close>

fun split_first :: "string \<Rightarrow> string \<Rightarrow> (string \<times> string) option" where
  "split_first sep [] = (if sep = [] then Some ([], []) else None)"
| "split_first sep (c # s) =
     (if prefix sep (c # s) then Some ([], drop (length sep) (c # s))
      else map_option (\<lambda>(a, b). (c # a, b)) (split_first sep s))"

lemma split_first_Some: "split_first sep s = Some (a, b) \<Longrightarrow> s = a @ sep @ b"
proof (induction s arbitrary: a)
  case Nil
  then show ?case by (simp split: if_splits)
next
  case (Cons c s)
  then show ?case by (auto simp: prefix_def split: if_splits)
qed

lemma split_first_None: "split_first sep s = None \<longleftrightarrow> \<not> contains_str sep s"
  by (induction s) auto

lemma join_split_on: "join_with [c] (split_on c s) = s"
proof (induction s)
  case (Cons x s)
  obtain y ys where ys: "split_on c s = y # ys" by (cases "split_on c s") simp_all
  with Cons show ?case by (cases ys) simp_all
qed simp

lemma split_first_char: "c \<notin> set a \<Longrightarrow> split_first [c] (a @ c # b) = Some (a, b)"
  by (induction a) auto

section \<open>Paths\<close>

definition is_abs :: "string \<Rightarrow> bool" where
  "is_abs p = (case p of [] \<Rightarrow> False | c # _ \<Rightarrow> c = CHR 0x2F)"

text \<open>\<open>os.path.join(a, b)\<close>.\<close>

definition path_join :: "string \<Rightarrow> string \<Rightarrow> string" where
  "path_join a b = (if is_abs b then b else if a = [] \<or> last a = CHR 0x2F then a @ b else a @ [CHR 0x2F] @ b)"

text \<open>The components \<open>os.path.commonpath\<close> compares.\<close>

definition components :: "string \<Rightarrow> string list" where
  "components p = filter (\<lambda>x. x \<noteq> [] \<and> x \<noteq> ''.'') (split_on CHR 0x2F p)"

fun common_prefix :: "'a list \<Rightarrow> 'a list \<Rightarrow> 'a list" where
  "common_prefix (x # xs) (y # ys) = (if x = y then x # common_prefix xs ys else [])"
| "common_prefix _ _ = []"

lemma common_prefix_eq: "common_prefix xs ys = ys \<longleftrightarrow> prefix ys xs"
  by (induction xs ys rule: common_prefix.induct) auto

text \<open>\<open>os.path.commonpath([a, b])\<close> of two absolute paths; \<open>None\<close> is its \<open>ValueError\<close> for a mix.\<close>

definition common_path :: "string \<Rightarrow> string \<Rightarrow> string option" where
  "common_path a b =
     (if is_abs a \<noteq> is_abs b then None
      else Some ((if is_abs a then ''/'' else []) @ join_with ''/'' (common_prefix (components a) (components b))))"

end
