(* ===== verification/Nudges.thy ===== *)
theory Nudges
  imports PyText Tracker
begin

text \<open>
  The two observers of the agent loop: the detector of stuck behaviour
  (\<open>operative/nudge_detector.py\<close>) and the classifier of tool failures with its recovery hints
  (\<open>operative/failure_classifier.py\<close>). A dash outside the code points of the model is a hyphen here.
\<close>

section \<open>The nudge detector\<close>

definition EDIT_TOOLS :: "string list" where
  "EDIT_TOOLS = [''file_write'', ''file_edit'', ''file_create'', ''file_insert_at_line'', ''file_delete'']"

definition READ_TOOLS :: "string list" where
  "READ_TOOLS =
     [''file_read'', ''file_search'', ''grep_search'', ''symbol_lookup'', ''ast_analysis'', ''semantic_search'',
      ''find_related'', ''git_diff'', ''git_log'', ''git_status'']"

datatype stuck_state =
    REPEATED_EDIT | SEARCH_LOOP | HIGH_BUDGET_NO_COMMIT | REPEATED_TOOL_ERROR | TEXT_ONLY_LOOP | READ_ONLY_LOOP

record nudge_detector =
  nd_max_steps :: int
  nd_history :: "string list"
  nd_edits :: nat
  nd_searches :: nat
  nd_commits :: nat
  nd_text_only :: nat
  nd_read_only :: nat
  nd_has_edited :: bool
  nd_errors :: nat
  nd_error_tool :: string

definition new_detector :: "int \<Rightarrow> nudge_detector" where
  "new_detector n =
     \<lparr>nd_max_steps = n, nd_history = [], nd_edits = 0, nd_searches = 0, nd_commits = 0, nd_text_only = 0,
      nd_read_only = 0, nd_has_edited = False, nd_errors = 0, nd_error_tool = []\<rparr>"

definition count_tool :: "string \<Rightarrow> nudge_detector \<Rightarrow> nudge_detector" where
  "count_tool t d =
     (if t \<in> set EDIT_TOOLS then d\<lparr>nd_edits := nd_edits d + 1, nd_has_edited := True, nd_read_only := 0\<rparr>
      else if t = ''git_commit'' then d\<lparr>nd_commits := nd_commits d + 1\<rparr>
      else if t \<in> set READ_TOOLS then d\<lparr>nd_searches := nd_searches d + 1, nd_read_only := nd_read_only d + 1\<rparr>
      else d\<lparr>nd_read_only := 0\<rparr>)"

definition count_error :: "string \<Rightarrow> bool \<Rightarrow> nudge_detector \<Rightarrow> nudge_detector" where
  "count_error t success d =
     (if success then d\<lparr>nd_errors := 0, nd_error_tool := []\<rparr>
      else if t = nd_error_tool d then d\<lparr>nd_errors := nd_errors d + 1\<rparr>
      else d\<lparr>nd_errors := 1, nd_error_tool := t\<rparr>)"

definition record_tool_call :: "string \<Rightarrow> bool \<Rightarrow> nudge_detector \<Rightarrow> nudge_detector" where
  "record_tool_call t success d =
     (count_error t success (count_tool t (d\<lparr>nd_history := nd_history d @ [t]\<rparr>)))\<lparr>nd_text_only := 0\<rparr>"

definition record_text_only_response :: "nudge_detector \<Rightarrow> nudge_detector" where
  "record_text_only_response d = d\<lparr>nd_text_only := nd_text_only d + 1\<rparr>"

definition nudge_threshold :: "nudge_detector \<Rightarrow> int" where
  "nudge_threshold d = max 3 (nd_max_steps d div 8)"

definition budget_fraction :: "nudge_detector \<Rightarrow> int \<Rightarrow> rat" where
  "budget_fraction d step = (if nd_max_steps d > 0 then of_int step / of_int (nd_max_steps d) else 0)"

definition check_stuck :: "nudge_detector \<Rightarrow> int \<Rightarrow> stuck_state option" where
  "check_stuck d step =
     (if nd_errors d \<ge> 3 then Some REPEATED_TOOL_ERROR
      else if nd_has_edited d \<and> nd_text_only d \<ge> 3 then Some TEXT_ONLY_LOOP
      else if \<not> nd_has_edited d \<and> nd_text_only d \<ge> 2 \<and> step \<ge> 5 then Some TEXT_ONLY_LOOP
      else if length (nd_history d) \<ge> 6 \<and> list_all (\<lambda>t. t \<in> set READ_TOOLS) (py_last 6 (nd_history d)) then Some SEARCH_LOOP
      else if \<not> nd_has_edited d \<and> int (nd_read_only d) \<ge> nudge_threshold d \<and> step \<ge> nudge_threshold d then Some READ_ONLY_LOOP
      else if budget_fraction d step \<ge> 7 / 10 \<and> nd_has_edited d \<and> nd_commits d = 0 then Some HIGH_BUDGET_NO_COMMIT
      else if length (filter (\<lambda>t. t \<in> set EDIT_TOOLS) (py_last 8 (nd_history d))) \<ge> 5 then Some REPEATED_EDIT
      else None)"

definition nat_text :: "nat \<Rightarrow> string" where
  "nat_text n = show_int (int n)"

fun get_nudge_message :: "nudge_detector \<Rightarrow> stuck_state \<Rightarrow> int \<Rightarrow> string" where
  "get_nudge_message d REPEATED_EDIT step =
     ''You have edited files '' @ nat_text (nd_edits d) @ '' times recently without committing. '' @
     ''You have '' @ show_int (nd_max_steps d - step) @ '' steps left. '' @
     ''STOP editing. Review your changes, then call git_commit NOW.''"
| "get_nudge_message d SEARCH_LOOP step =
     ''You have been searching/reading files for the last 6+ tool calls without making changes. '' @
     ''You have '' @ show_int (nd_max_steps d - step) @ '' steps left. '' @
     ''Based on what you've learned, make the code change NOW with file_edit, then git_commit.''"
| "get_nudge_message d HIGH_BUDGET_NO_COMMIT step =
     ''WARNING: You have used '' @ show_int step @ '' of '' @ show_int (nd_max_steps d) @ '' steps '' @
     ''and edited files but have NOT committed. '' @
     ''You have '' @ show_int (nd_max_steps d - step) @ '' steps left. '' @
     ''Call git_commit(message, files) IMMEDIATELY.''"
| "get_nudge_message d REPEATED_TOOL_ERROR step =
     ''The same tool has failed '' @ nat_text (nd_errors d) @ '' times in a row. '' @
     ''STOP retrying the same approach. Try a completely different strategy: '' @
     ''different file, different search query, or different edit approach.''"
| "get_nudge_message d TEXT_ONLY_LOOP step =
     ''You have returned text without calling any tool '' @ nat_text (nd_text_only d) @ '' times. '' @
     (if nd_has_edited d then ''Call git_commit(message, files) NOW. Do NOT return text.''
      else ''You have '' @ show_int (nd_max_steps d - step) @ '' steps left. '' @
           ''Use file_edit or file_write to make the change, then git_commit. '' @
           ''Do NOT return text - call a tool.'')"
| "get_nudge_message d READ_ONLY_LOOP step =
     ''You have spent '' @ show_int step @ '' steps reading files. '' @
     ''You have '' @ show_int (nd_max_steps d - step) @ '' steps remaining. '' @
     ''STOP READING. Based on what you've learned, make the code change NOW '' @
     ''using file_edit or file_write, then call git_commit.''"

section \<open>The failure classifier\<close>

definition transient_markers :: "string list" where
  "transient_markers =
     [''too many'', ''temporarily unavailable'', ''connection reset'', ''timeout'', ''timed out'', ''rate limit'', ''rate_limit'',
      ''resource exhausted'', ''resource_exhausted'', ''try again'', ''eagain'']"

definition environmental_markers :: "string list" where
  "environmental_markers =
     [''permission'', ''access denied'', ''enospc'', ''disk full'', ''read-only file system'', ''command not found'', ''no space left'']"

definition test_failure_markers :: "string list" where
  "test_failure_markers =
     [''test failed'', ''tests failed'', ''assertion error'', ''assertionerror'', ''failed test'', ''failures='', ''errors='',
      ''pytest'', ''jest'', ''mocha'']"

definition lint_error_markers :: "string list" where
  "lint_error_markers =
     [''lint'', ''eslint'', ''ruff'', ''flake8'', ''mypy'', ''pyright'', ''type error'', ''typeerror'', ''type-check'', ''type_check'',
      ''undefined variable'', ''unused import'', ''missing return'', ''incompatible type'']"

definition context_missing_markers :: "string list" where
  "context_missing_markers =
     [''not found'', ''no such'', ''no matches'', ''no results'', ''file not found'', ''could not find'', ''does not exist'',
      ''old text not found'', ''no match found'']"

definition recovery_strategies :: "(string, string) dict" where
  "recovery_strategies =
     [(''tool_error'',
       ''The tool call failed due to a transient error. '' @
       ''Wait a moment and retry the same call. If it fails again, '' @ ''try an alternative approach.''),
      (''test_failure'',
       ''Tests are failing. Read the test output carefully to identify '' @
       ''which specific assertion failed and why. Fix the code to make '' @ ''the failing test pass without breaking other tests.''),
      (''lint_error'',
       ''Lint or type check errors were found. Read the error messages, '' @
       ''identify the specific violations, and fix them. Common fixes: '' @
       ''add missing imports, fix type annotations, remove unused variables.''),
      (''context_missing'',
       ''The file or symbol you searched for was not found. Try: '' @
       ''1) Search with a broader query or different keywords. '' @ ''2) Use grep_search to find related files. '' @
       ''3) Check if the path is correct relative to the workspace root.''),
      (''approach_wrong'',
       ''Multiple attempts with the same approach have failed. '' @ ''Step back and reconsider your strategy. Try: '' @
       ''1) Re-read the task description for clues you may have missed. '' @
       ''2) Look at different files or a different part of the codebase. '' @
       ''3) Consider a simpler or more direct approach.''),
      (''transient'', ''Retry the operation - it may succeed on a subsequent attempt.''),
      (''semantic'', ''The tool ran but the result is not actionable. Adapt your strategy.''),
      (''environmental'', ''The environment is broken. Consider escalating or working around the issue.'')]"

definition get_recovery_strategy :: "string \<Rightarrow> string" where
  "get_recovery_strategy c = dict_get_or recovery_strategies c []"

definition check_tools :: "string list" where
  "check_tools = [''run_tests'', ''test_runner'', ''run_lint'', ''type_check'']"

definition any_marker :: "string list \<Rightarrow> string \<Rightarrow> bool" where
  "any_marker ms text = list_ex (\<lambda>m. contains_str m text) ms"

text \<open>\<open>int(v or 0)\<close>; a value \<open>int\<close> cannot read is an error.\<close>

definition int_or_zero :: "json \<Rightarrow> store_error + int" where
  "int_or_zero v =
     (if \<not> py_true v then Inr 0
      else (case v of
          JInt i \<Rightarrow> Inr i
        | JBool b \<Rightarrow> Inr (if b then 1 else 0)
        | JFloat q \<Rightarrow> Inr (if q < 0 then \<lceil>q\<rceil> else \<lfloor>q\<rfloor>)
        | JStr s \<Rightarrow> (let (neg, d) = sign_split (py_strip s) in
            if digits_ok d then Inr (if neg then - int (digits_value d) else int (digits_value d)) else Inl (Raised ''invalid literal for int()''))
        | _ \<Rightarrow> Inl TypeErr))"

definition classify_message :: "string \<Rightarrow> string \<Rightarrow> string" where
  "classify_message name message =
     (if name \<in> {''run_tests'', ''test_runner''} \<or> any_marker test_failure_markers message then ''test_failure''
      else if name \<in> {''run_lint'', ''type_check''} \<or> any_marker lint_error_markers message then ''lint_error''
      else if any_marker transient_markers message then ''tool_error''
      else if any_marker context_missing_markers message then ''context_missing''
      else if any_marker environmental_markers message then ''approach_wrong''
      else ''context_missing'')"

definition classify_tool_failure :: "renderers \<Rightarrow> json \<Rightarrow> string \<Rightarrow> store_error + string" where
  "classify_tool_failure f result tool =
     (case result of
        JObj d \<Rightarrow>
          (let name = py_lower (if tool \<noteq> [] then tool else py_str f (dict_get_or d ''tool_name'' (JStr [])));
               err = doc_get d ''error'' in
           if \<not> py_true err \<and> name \<in> set check_tools
           then (if py_true (doc_get d ''skipped'') then Inr ''none''
                 else res_bind (if doc_get d ''success'' = JBool False then Inr True
                                else res_bind (int_or_zero (dict_get_or d ''return_code'' (JInt 0))) (\<lambda>rc. Inr (rc \<noteq> 0)))
                   (\<lambda>failed. Inr (if \<not> failed then ''none''
                      else if name \<in> {''run_tests'', ''test_runner''} then ''test_failure'' else ''lint_error'')))
           else if \<not> py_true err then Inr ''none''
           else Inr (classify_message name (py_lower (py_str f err))))
      | _ \<Rightarrow> Inr ''none'')"

section \<open>What the observers guarantee\<close>

definition failure_classes :: "string list" where
  "failure_classes = [''tool_error'', ''test_failure'', ''lint_error'', ''context_missing'', ''approach_wrong'']"

lemma classify_message_class: "classify_message name message \<in> set failure_classes"
  by (simp add: classify_message_def failure_classes_def)

lemma classified: "classify_tool_failure f result tool = Inr c \<Longrightarrow> c = ''none'' \<or> c \<in> set failure_classes"
  using classify_message_class by (auto simp: classify_tool_failure_def Let_def res_bind_Inr_iff failure_classes_def split: json.splits if_splits)

text \<open>Every class of a failure has a recovery hint.\<close>

lemma recovery_of_class: "c \<in> set failure_classes \<Longrightarrow> get_recovery_strategy c \<noteq> []"
  unfolding failure_classes_def get_recovery_strategy_def recovery_strategies_def dict_get_or_def by auto

text \<open>What a recorded event changes of the fields the checks read.\<close>

lemma record_tool_call_history [simp]: "nd_history (record_tool_call t s d) = nd_history d @ [t]"
  by (simp add: record_tool_call_def count_error_def count_tool_def)

lemma record_tool_call_text_only [simp]: "nd_text_only (record_tool_call t s d) = 0"
  by (simp add: record_tool_call_def)

lemma record_tool_call_edited [simp]: "nd_has_edited (record_tool_call t s d) \<longleftrightarrow> nd_has_edited d \<or> t \<in> set EDIT_TOOLS"
  by (simp add: record_tool_call_def count_error_def count_tool_def)

lemma record_text_only_sel [simp]:
  "nd_text_only (record_text_only_response d) = Suc (nd_text_only d)" "nd_has_edited (record_text_only_response d) = nd_has_edited d"
  by (simp_all add: record_text_only_response_def)

end
