(* ===== verification/Guardrails.thy ===== *)
theory Guardrails
  imports Nudges
begin

text \<open>
  The safety middleware of the agent loop (\<open>operative/guardrails.py\<close>) and the cost of a whole task it
  consults (\<open>observability/cost_accumulator.py\<close>): tool and path checks, token and cost accounting, the
  context window, the step budget and the ceilings.
\<close>

section \<open>Messages\<close>

datatype part = TextPart string | ToolUse string string doc | ToolResult string string string

datatype content = Plain string | Parts "part list"

datatype speaker = User | Assistant

record message =
  msg_role :: speaker
  msg_content :: content

section \<open>The cost of a task\<close>

record cost_accumulator =
  ca_task :: string
  ca_ceiling :: rat
  ca_desktop :: bool
  ca_total :: rat
  ca_loaded :: bool

text \<open>\<open>float(v or 0.0)\<close> of a stored amount.\<close>

definition float_or_zero :: "json \<Rightarrow> store_error + rat" where
  "float_or_zero v =
     (if \<not> py_true v then Inr 0
      else (case num_of v of Some q \<Rightarrow> Inr q | None \<Rightarrow>
        (case v of JStr s \<Rightarrow> (case parse_float s of Some (Finite q) \<Rightarrow> Inr q | _ \<Rightarrow> Inl (Raised ''could not convert string to float''))
         | _ \<Rightarrow> Inl TypeErr)))"

text \<open>The sum the completed nodes spent; on a desktop install an error of the store is let through.\<close>

definition seed_total :: "'s store_ops \<Rightarrow> cost_accumulator \<Rightarrow> ('s, rat) store_op" where
  "seed_total ops ca =
     st_bind (op_get ops task_executions (ca_task ca)) (\<lambda>d.
     case d of None \<Rightarrow> st_return (ca_total ca)
     | Some e \<Rightarrow> st_lift (float_or_zero (dict_get_or e ''estimated_cost_usd'' (JFloat 0))))"

definition ensure_loaded :: "'s store_ops \<Rightarrow> cost_accumulator \<Rightarrow> ('s, cost_accumulator) store_op" where
  "ensure_loaded ops ca =
     (if ca_loaded ca then st_return ca
      else st_bind (st_catch (seed_total ops ca) (\<lambda>e. if ca_desktop ca then st_raise e else st_return 0)) (\<lambda>q.
           st_return (ca\<lparr>ca_total := q, ca_loaded := True\<rparr>)))"

definition cost_add :: "'s store_ops \<Rightarrow> rat \<Rightarrow> cost_accumulator \<Rightarrow> ('s, cost_accumulator) store_op" where
  "cost_add ops delta ca =
     (if delta \<le> 0 then st_return ca
      else st_bind (ensure_loaded ops ca) (\<lambda>c. st_return (c\<lparr>ca_total := ca_total c + delta\<rparr>)))"

definition check_ceiling :: "'s store_ops \<Rightarrow> cost_accumulator \<Rightarrow> ('s, bool \<times> cost_accumulator) store_op" where
  "check_ceiling ops ca = st_bind (ensure_loaded ops ca) (\<lambda>c. st_return (ca_total c < ca_ceiling c, c))"

definition current_total :: "'s store_ops \<Rightarrow> cost_accumulator \<Rightarrow> ('s, rat \<times> cost_accumulator) store_op" where
  "current_total ops ca = st_bind (ensure_loaded ops ca) (\<lambda>c. st_return (ca_total c, c))"

text \<open>A loaded accumulator adds in memory; the store is not asked again.\<close>

definition add_in_memory :: "rat \<Rightarrow> cost_accumulator \<Rightarrow> cost_accumulator" where
  "add_in_memory delta ca = (if delta \<le> 0 then ca else ca\<lparr>ca_total := ca_total ca + delta\<rparr>)"

lemma cost_add_loaded: "ca_loaded ca \<Longrightarrow> cost_add ops delta ca s = (Inr (add_in_memory delta ca), s)"
  by (simp add: cost_add_def ensure_loaded_def add_in_memory_def st_bind_def st_return_def)

section \<open>The state of the guardrails\<close>

text \<open>The settings an operative is bound by.\<close>

record operative_limits =
  task_cost_ceiling :: rat
  wallclock_ceiling :: int
  max_message_tokens :: nat

record guardrails =
  gr_allowed :: "string list"
  gr_model :: string
  gr_budget :: "step_budget option"
  gr_extensions :: int
  gr_max_steps :: int
  gr_tool_calls :: nat
  gr_input :: int
  gr_output :: int
  gr_cached :: int
  gr_steps :: int
  gr_by_name :: "(string, nat) dict"
  gr_nudges :: nat
  gr_last_input :: int
  gr_first_input :: int
  gr_blocked_row :: nat
  gr_cost :: rat
  gr_task_cost :: "cost_accumulator option"
  gr_pending :: "rat list"
  gr_preamble :: nat
  gr_limits :: operative_limits

definition new_guardrails ::
  "string list \<Rightarrow> int \<Rightarrow> cost_accumulator option \<Rightarrow> step_budget option \<Rightarrow> operative_limits \<Rightarrow> string \<Rightarrow> guardrails" where
  "new_guardrails allowed limit acc budget bounds model =
     \<lparr>gr_allowed = allowed, gr_model = model, gr_budget = budget, gr_extensions = 0,
      gr_max_steps = (case budget of Some b \<Rightarrow> base_steps b | None \<Rightarrow> limit),
      gr_tool_calls = 0, gr_input = 0, gr_output = 0, gr_cached = 0, gr_steps = 0, gr_by_name = [], gr_nudges = 0,
      gr_last_input = 0, gr_first_input = 0, gr_blocked_row = 0, gr_cost = 0, gr_task_cost = acc, gr_pending = [], gr_preamble = 1,
      gr_limits = bounds\<rparr>"

definition record_nudge :: "guardrails \<Rightarrow> guardrails" where
  "record_nudge g = g\<lparr>gr_nudges := gr_nudges g + 1\<rparr>"

definition set_preamble_len :: "nat \<Rightarrow> guardrails \<Rightarrow> guardrails" where
  "set_preamble_len n g = g\<lparr>gr_preamble := max 1 n\<rparr>"

section \<open>Before a tool call\<close>

text \<open>The canonical path of the file system, with its links resolved, is an argument.\<close>

definition is_path_safe :: "(string \<Rightarrow> string) \<Rightarrow> string \<Rightarrow> string \<Rightarrow> bool" where
  "is_path_safe realpath path workspace =
     (let root = realpath workspace; resolved = realpath (path_join root path) in
      resolved = root \<or> common_path resolved root = Some root)"

definition is_path_argument :: "string \<Rightarrow> bool" where
  "is_path_argument k \<longleftrightarrow>
     contains_str ''path'' (py_lower k) \<or> contains_str ''file'' (py_lower k) \<or> contains_str ''dir'' (py_lower k)"

definition path_arguments :: "doc \<Rightarrow> string list" where
  "path_arguments args = List.map_filter (\<lambda>(k, v). case v of JStr s \<Rightarrow> (if is_path_argument k then Some s else None) | _ \<Rightarrow> None) args"

definition quoted :: "string \<Rightarrow> string" where
  "quoted s = [CHR 0x27] @ s @ [CHR 0x27]"

definition not_permitted :: "guardrails \<Rightarrow> string \<Rightarrow> string" where
  "not_permitted g tool =
     (if gr_blocked_row g \<ge> 3
      then ''Tool '' @ quoted tool @ '' is not permitted. '' @
           ''You have tried '' @ show_nat (gr_blocked_row g) @ '' disallowed tools in a row. '' @
           ''STOP trying to use tools you don't have. '' @
           ''Your available tools are: '' @ join_with '', '' (sort (remdups (gr_allowed g))) @ ''. '' @
           ''Return your response as text instead.''
      else ''Tool '' @ quoted tool @ '' is not permitted for this operative.'')"

definition before_tool_call :: "(string \<Rightarrow> string) \<Rightarrow> string \<Rightarrow> string \<Rightarrow> doc \<Rightarrow> guardrails \<Rightarrow> string option \<times> guardrails" where
  "before_tool_call realpath workspace tool args g =
     (if tool \<notin> set (gr_allowed g)
      then (let g1 = g\<lparr>gr_blocked_row := gr_blocked_row g + 1\<rparr> in (Some (not_permitted g1 tool), g1))
      else (case find (\<lambda>p. \<not> is_path_safe realpath p workspace) (path_arguments args) of
          Some p \<Rightarrow> (Some (''Path traversal detected in argument: '' @ quoted p), g)
        | None \<Rightarrow> (None, g\<lparr>gr_blocked_row := 0, gr_tool_calls := gr_tool_calls g + 1,
                        gr_by_name := dict_set (gr_by_name g) tool (dict_get_or (gr_by_name g) tool 0 + 1)\<rparr>)))"

section \<open>After a model response\<close>

text \<open>A response in the internal form of the agent; \<open>mt_cost\<close> is absent when the provider failed.\<close>

record model_turn =
  mt_error :: "string option"
  mt_content :: "part list"
  mt_model :: string
  mt_input :: int
  mt_output :: int
  mt_cached :: int
  mt_cost :: "rat option"

definition billed_model :: "model_turn \<Rightarrow> guardrails \<Rightarrow> string" where
  "billed_model r g = (if mt_model r = [] then gr_model g else mt_model r)"

definition step_cost :: "settings \<Rightarrow> model_turn \<Rightarrow> guardrails \<Rightarrow> rat" where
  "step_cost st r g =
     (case mt_cost r of Some c \<Rightarrow> c
      | None \<Rightarrow> estimate_cost_for_settings st (billed_model r g) (mt_input r) (mt_output r) (mt_cached r) 0)"

definition after_model_response :: "settings \<Rightarrow> model_turn \<Rightarrow> guardrails \<Rightarrow> guardrails" where
  "after_model_response st r g =
     (let cost = step_cost st r g in
      g\<lparr>gr_input := gr_input g + mt_input r, gr_output := gr_output g + mt_output r, gr_cached := gr_cached g + mt_cached r,
        gr_last_input := mt_input r,
        gr_first_input := (if gr_first_input g = 0 \<and> mt_input r > 0 then mt_input r else gr_first_input g),
        gr_steps := gr_steps g + 1,
        gr_model := billed_model r g,
        gr_cost := gr_cost g + cost,
        gr_pending := (if cost > 0 \<and> gr_task_cost g \<noteq> None then gr_pending g @ [cost] else gr_pending g)\<rparr>)"

text \<open>The event loop runs the writes to the accumulator that were started, at the next suspension.\<close>

definition settle :: "guardrails \<Rightarrow> guardrails" where
  "settle g = g\<lparr>gr_task_cost := map_option (fold add_in_memory (gr_pending g)) (gr_task_cost g), gr_pending := []\<rparr>"

lemma settle_sel [simp]:
  "gr_steps (settle g) = gr_steps g" "gr_max_steps (settle g) = gr_max_steps g" "gr_extensions (settle g) = gr_extensions g"
  "gr_budget (settle g) = gr_budget g" "gr_allowed (settle g) = gr_allowed g" "gr_limits (settle g) = gr_limits g"
  "gr_cost (settle g) = gr_cost g" "gr_model (settle g) = gr_model g"
  by (simp_all add: settle_def)

section \<open>Before a model call: the context window\<close>

definition context_window_keep_last :: nat where
  "context_window_keep_last = 16"

text \<open>
  The kept tail grows to the left, message by message, while it starts with the assistant and the
  preamble is not reached; \<open>before\<close> holds the messages in between, nearest first.
\<close>

fun grow_tail :: "message list \<Rightarrow> message list \<Rightarrow> message list" where
  "grow_tail before [] = []"
| "grow_tail [] (m # tail) = m # tail"
| "grow_tail (b # before) (m # tail) = (if msg_role m = Assistant then grow_tail before (b # m # tail) else m # tail)"

definition window_tail :: "nat \<Rightarrow> message list \<Rightarrow> message list" where
  "window_tail p ms =
     (let cut = length ms - context_window_keep_last in grow_tail (rev (drop p (take cut ms))) (drop cut ms))"

definition window :: "nat \<Rightarrow> message list \<Rightarrow> message list \<times> nat" where
  "window p ms =
     (if length ms > context_window_keep_last + p
      then (let tail = window_tail p ms in (take p ms @ tail, length ms - length tail - p))
      else (ms, 0))"

definition truncate_message :: "nat \<Rightarrow> message \<Rightarrow> message" where
  "truncate_message n m =
     (case msg_content m of
        Plain s \<Rightarrow> if length s > n then m\<lparr>msg_content := Plain (take n s @ [CHR 0x0A] @ ''[... truncated ...]'')\<rparr> else m
      | Parts _ \<Rightarrow> m)"

definition trim_note :: "nat \<Rightarrow> string" where
  "trim_note n =
     [CHR 0x0A, CHR 0x0A] @ ''[Note: '' @ show_nat n @ '' earlier messages were trimmed to save context. '' @
     ''Continue from where you left off based on the recent messages below.]''"

definition attach_note :: "nat \<Rightarrow> string \<Rightarrow> message list \<Rightarrow> message list" where
  "attach_note p note ms =
     (case msg_content (ms ! (p - 1)) of
        Plain s \<Rightarrow> ms[p - 1 := (ms ! (p - 1))\<lparr>msg_content := Plain (s @ note)\<rparr>]
      | Parts _ \<Rightarrow> take p ms @ [\<lparr>msg_role = User, msg_content = Plain (py_strip note)\<rparr>] @ drop p ms)"

definition before_model_call :: "guardrails \<Rightarrow> message list \<Rightarrow> message list" where
  "before_model_call g messages =
     (let p = min (gr_preamble g) (length messages);
          (kept, dropped) = window p messages;
          processed = map (truncate_message (4 * max_message_tokens (gr_limits g))) kept
      in if dropped > 0 then attach_note p (trim_note dropped) processed else processed)"

section \<open>Budgets and ceilings\<close>

definition check_step_limit :: "guardrails \<Rightarrow> bool" where
  "check_step_limit g \<longleftrightarrow> gr_steps g \<ge> gr_max_steps g"

definition grant_extension :: "guardrails \<Rightarrow> guardrails option" where
  "grant_extension g =
     (case gr_budget g of None \<Rightarrow> None
      | Some b \<Rightarrow>
          if gr_extensions g \<ge> max_extensions b then None
          else Some (g\<lparr>gr_extensions := gr_extensions g + 1,
                      gr_max_steps := min (gr_max_steps g + extension_steps b) (sb_max_steps b)\<rparr>))"

definition check_cost_ceiling :: "int \<Rightarrow> guardrails \<Rightarrow> bool" where
  "check_cost_ceiling elapsed g \<longleftrightarrow>
     gr_cost g \<ge> task_cost_ceiling (gr_limits g) \<or>
     (case gr_task_cost g of None \<Rightarrow> False | Some ca \<Rightarrow> ca_total ca \<ge> ca_ceiling ca) \<or>
     (gr_cost g = 0 \<and> elapsed \<ge> wallclock_ceiling (gr_limits g))"

record telemetry =
  tm_model :: string
  tm_cost :: rat
  tm_input :: int
  tm_output :: int
  tm_model_calls :: int
  tm_tool_calls :: nat
  tm_by_name :: "(string, nat) dict"
  tm_steps :: int
  tm_nudges :: nat
  tm_context_start :: int
  tm_context_end :: int

definition get_telemetry :: "guardrails \<Rightarrow> telemetry" where
  "get_telemetry g =
     \<lparr>tm_model = gr_model g, tm_cost = gr_cost g, tm_input = gr_input g, tm_output = gr_output g, tm_model_calls = gr_steps g,
      tm_tool_calls = gr_tool_calls g, tm_by_name = gr_by_name g, tm_steps = gr_steps g, tm_nudges = gr_nudges g,
      tm_context_start = gr_first_input g, tm_context_end = gr_last_input g\<rparr>"

section \<open>The window\<close>

lemma grow_tail_append: "\<exists>ext rest. before = ext @ rest \<and> grow_tail before tail = rev ext @ tail"
proof (induction before tail rule: grow_tail.induct)
  case (3 b before m tail)
  show ?case
  proof (cases "msg_role m = Assistant")
    case True
    with 3 obtain ext rest where "before = ext @ rest" "grow_tail before (b # m # tail) = rev ext @ b # m # tail" by blast
    with True show ?thesis by (intro exI [of _ "b # ext"] exI [of _ rest]) simp
  next
    case False
    then show ?thesis by (intro exI [of _ "[]"] exI [of _ "b # before"]) simp
  qed
qed auto

text \<open>The tail is a suffix of the messages that leaves the preamble alone and holds the last sixteen.\<close>

lemma window_tail_suffix:
  assumes "context_window_keep_last + p < length ms"
  shows "\<exists>k. p \<le> k \<and> k \<le> length ms - context_window_keep_last \<and> window_tail p ms = drop k ms"
proof -
  let ?cut = "length ms - context_window_keep_last"
  obtain ext rest where e: "rev (drop p (take ?cut ms)) = ext @ rest" "window_tail p ms = rev ext @ drop ?cut ms"
    using grow_tail_append [of "rev (drop p (take ?cut ms))" "drop ?cut ms"] by (auto simp: window_tail_def Let_def)
  have "drop p (take ?cut ms) = rev rest @ rev ext" using e(1) by (metis rev_append rev_rev_ident)
  moreover have "take p ms = take p (take ?cut ms)" using assms by (simp add: min_def)
  then have "take ?cut ms = take p ms @ drop p (take ?cut ms)" by (metis append_take_drop_id)
  ultimately have "ms = (take p ms @ rev rest) @ rev ext @ drop ?cut ms"
    by (metis append.assoc append_take_drop_id)
  then have "drop (length (take p ms @ rev rest)) ms = rev ext @ drop ?cut ms"
    by (metis append_eq_conv_conj)
  moreover have "p \<le> length (take p ms @ rev rest)" using assms by simp
  moreover have "length (take p ms @ rev rest) \<le> ?cut"
  proof -
    have "length (rev (drop p (take ?cut ms))) = length ext + length rest" using e(1) by simp
    then show ?thesis using assms by simp
  qed
  ultimately show ?thesis using e(2) by metis
qed

lemma grow_tail_head:
  assumes "tail \<noteq> []" "grow_tail before tail = m # ms" "msg_role m = Assistant"
  shows "grow_tail before tail = rev before @ tail"
  using assms by (induction before tail rule: grow_tail.induct) (auto split: if_splits)

text \<open>What the model is sent: the preamble, a note on the gap, and a suffix; nothing when nothing is dropped.\<close>

lemma window_shape:
  "\<exists>k. fst (window p ms) = take p ms @ drop k ms \<and> snd (window p ms) = k - p \<and> min p (length ms) \<le> k \<and>
     (length ms \<le> context_window_keep_last + p \<longrightarrow> k = min p (length ms)) \<and>
     (context_window_keep_last + p < length ms \<longrightarrow> k \<le> length ms - context_window_keep_last)"
proof (cases "context_window_keep_last + p < length ms")
  case True
  then obtain k where k: "p \<le> k" "k \<le> length ms - context_window_keep_last" "window_tail p ms = drop k ms"
    using window_tail_suffix by blast
  with True show ?thesis by (intro exI [of _ k]) (simp add: window_def Let_def)
next
  case False
  then have "window p ms = (ms, 0)" by (simp add: window_def)
  with False show ?thesis by (intro exI [of _ "min p (length ms)"]) (simp add: min_def)
qed

lemma before_model_call_small:
  assumes "length ms \<le> context_window_keep_last + min (gr_preamble g) (length ms)"
  shows "before_model_call g ms = map (truncate_message (4 * max_message_tokens (gr_limits g))) ms"
  using assms by (simp add: before_model_call_def window_def Let_def)

section \<open>The step budget\<close>

lemma after_model_response_sel [simp]:
  "gr_steps (after_model_response st r g) = gr_steps g + 1"
  "gr_max_steps (after_model_response st r g) = gr_max_steps g"
  "gr_extensions (after_model_response st r g) = gr_extensions g"
  "gr_budget (after_model_response st r g) = gr_budget g"
  "gr_allowed (after_model_response st r g) = gr_allowed g"
  "gr_limits (after_model_response st r g) = gr_limits g"
  "gr_cost (after_model_response st r g) = gr_cost g + step_cost st r g"
  by (simp_all add: after_model_response_def Let_def)

lemma record_nudge_sel [simp]:
  "gr_steps (record_nudge g) = gr_steps g" "gr_max_steps (record_nudge g) = gr_max_steps g"
  "gr_extensions (record_nudge g) = gr_extensions g" "gr_budget (record_nudge g) = gr_budget g"
  "gr_allowed (record_nudge g) = gr_allowed g" "gr_limits (record_nudge g) = gr_limits g" "gr_cost (record_nudge g) = gr_cost g"
  "gr_task_cost (record_nudge g) = gr_task_cost g" "gr_model (record_nudge g) = gr_model g"
  by (simp_all add: record_nudge_def)

lemma before_tool_call_sel [simp]:
  "gr_steps (snd (before_tool_call rp w t a g)) = gr_steps g" "gr_max_steps (snd (before_tool_call rp w t a g)) = gr_max_steps g"
  "gr_extensions (snd (before_tool_call rp w t a g)) = gr_extensions g" "gr_budget (snd (before_tool_call rp w t a g)) = gr_budget g"
  "gr_allowed (snd (before_tool_call rp w t a g)) = gr_allowed g" "gr_limits (snd (before_tool_call rp w t a g)) = gr_limits g"
  "gr_cost (snd (before_tool_call rp w t a g)) = gr_cost g" "gr_task_cost (snd (before_tool_call rp w t a g)) = gr_task_cost g"
  by (simp_all add: before_tool_call_def Let_def split: option.split)

text \<open>A granted extension: at most \<open>max_extensions\<close>, never beyond the maximum of the budget.\<close>

lemma grant_extension_SomeE:
  assumes "grant_extension g = Some g'"
  obtains b where "gr_budget g = Some b" "gr_extensions g < max_extensions b"
    "g' = g\<lparr>gr_extensions := gr_extensions g + 1, gr_max_steps := min (gr_max_steps g + extension_steps b) (sb_max_steps b)\<rparr>"
  using assms by (auto simp: grant_extension_def split: option.splits if_splits)

text \<open>What the budget promises while a node runs.\<close>

definition budget_ok :: "guardrails \<Rightarrow> bool" where
  "budget_ok g \<longleftrightarrow>
     (case gr_budget g of None \<Rightarrow> True
      | Some b \<Rightarrow> gr_max_steps g \<le> sb_max_steps b \<and> 0 \<le> gr_extensions g \<and> gr_extensions g \<le> max_extensions b \<and> 0 \<le> extension_steps b)"

lemma budget_ok_new:
  "valid_step_budget b \<Longrightarrow> budget_ok (new_guardrails allowed n acc (Some b) bounds model)"
  by (simp add: budget_ok_def new_guardrails_def valid_step_budget_def)

lemma budget_ok_extension: "budget_ok g \<Longrightarrow> grant_extension g = Some g' \<Longrightarrow> budget_ok g'"
  by (erule grant_extension_SomeE) (auto simp: budget_ok_def)

section \<open>Paths\<close>

text \<open>
  A path is let through exactly when the components of the workspace start those of the resolved path, so
  a sibling whose name merely extends the name of the workspace is outside.
\<close>

definition canonical :: "string \<Rightarrow> bool" where
  "canonical p \<longleftrightarrow> p = ''/'' @ join_with ''/'' (components p)"

lemma join_longer: "x \<noteq> [] \<Longrightarrow> length (join_with sep xs) < length (join_with sep (xs @ x # ys))"
proof (induction sep xs rule: join_with.induct)
  case (1 sep)
  then show ?case by (cases ys) simp_all
next
  case (2 sep y)
  then show ?case by (cases ys) simp_all
qed simp

lemma common_prefix_prefix: "prefix (common_prefix xs ys) ys"
  by (induction xs ys rule: common_prefix.induct) auto

lemma common_path_canonical:
  assumes "canonical r" "is_abs p"
  shows "common_path p r = Some r \<longleftrightarrow> prefix (components r) (components p)"
proof -
  let ?c = "common_prefix (components p) (components r)"
  obtain j where j: "j = join_with ''/'' (components r)" "r = ''/'' @ j" using assms(1) unfolding canonical_def by blast
  have "is_abs r" by (simp add: j(2) is_abs_def)
  with assms(2) have "common_path p r = Some (''/'' @ join_with ''/'' ?c)" by (simp add: common_path_def)
  then have "common_path p r = Some r \<longleftrightarrow> join_with ''/'' ?c = j" by (simp add: j(2))
  then have "common_path p r = Some r \<longleftrightarrow> join_with ''/'' ?c = join_with ''/'' (components r)" unfolding j(1) .
  also have "\<dots> \<longleftrightarrow> ?c = components r"
  proof
    assume eq: "join_with ''/'' ?c = join_with ''/'' (components r)"
    obtain rest where rest: "components r = ?c @ rest" using common_prefix_prefix [of "components p" "components r"] by (auto simp: prefix_def)
    show "?c = components r"
    proof (cases rest)
      case (Cons x xs)
      then have "x \<in> set (components r)" using rest by (metis in_set_conv_decomp)
      then have "x \<noteq> []" by (simp add: components_def)
      from join_longer [OF this, of "''/''" ?c xs] have "length (join_with ''/'' ?c) < length (join_with ''/'' (components r))"
        unfolding rest [symmetric, unfolded Cons] .
      with eq show ?thesis by simp
    qed (use rest in simp)
  qed simp
  finally show ?thesis by (simp add: common_prefix_eq)
qed

lemma path_safe_iff:
  assumes "\<And>q. is_abs (rp q)" "canonical (rp w)"
  shows "is_path_safe rp p w \<longleftrightarrow> prefix (components (rp w)) (components (rp (path_join (rp w) p)))"
proof -
  define r q where "r = rp w" and "q = rp (path_join (rp w) p)"
  then have "canonical r" "is_abs q" using assms by simp_all
  then have "common_path q r = Some r \<longleftrightarrow> prefix (components r) (components q)" by (rule common_path_canonical)
  moreover have "is_path_safe rp p w \<longleftrightarrow> q = r \<or> common_path q r = Some r" by (simp only: is_path_safe_def Let_def r_def q_def)
  ultimately have "is_path_safe rp p w \<longleftrightarrow> prefix (components r) (components q)" by (cases "q = r") simp_all
  then show ?thesis by (simp only: r_def q_def)
qed

end
