(* ===== verification/GitHelpers.thy ===== *)
theory GitHelpers
  imports Handlers PyText
begin

text \<open>
  The git helpers of an operative (\<open>operative/git_helpers.py\<close>) and what the agent reports of its work
  (\<open>operative/agent_builder.py\<close>). A git process is an operation of the outside: its arguments give the
  decoded output, the decoded errors and the exit code, or an exception.
\<close>

type_synonym 'w git = "string list \<Rightarrow> ('w, string \<times> string \<times> int) store_op"

text \<open>\<open>run_git\<close> strips both outputs.\<close>

definition run_git :: "'w git \<Rightarrow> 'w git" where
  "run_git git args = st_bind (git args) (\<lambda>(out, err, rc). st_return (py_strip out, py_strip err, rc))"

definition default_base_branch :: string where
  "default_base_branch = ''main''"

definition candidate_branches :: "string list" where
  "candidate_branches = [''main'', ''master'', ''develop'', ''trunk'']"

fun first_branch :: "'w git \<Rightarrow> string list \<Rightarrow> ('w, string) store_op" where
  "first_branch git [] = st_return default_base_branch"
| "first_branch git (c # cs) =
     st_bind (run_git git [''rev-parse'', ''--verify'', ''--quiet'', ''refs/remotes/origin/'' @ c]) (\<lambda>(_, _, rc).
       if rc = 0 then st_return c else first_branch git cs)"

definition detect_base_branch :: "'w git \<Rightarrow> ('w, string) store_op" where
  "detect_base_branch git =
     st_bind (run_git git [''symbolic-ref'', ''--quiet'', ''refs/remotes/origin/HEAD'']) (\<lambda>(out, _, rc).
       if rc = 0 \<and> prefix ''refs/remotes/origin/'' out then st_return (drop 20 out)
       else first_branch git candidate_branches)"

definition detect_base_ref :: "'w git \<Rightarrow> ('w, string) store_op" where
  "detect_base_ref git = st_bind (detect_base_branch git) (\<lambda>b. st_return (''origin/'' @ b))"

text \<open>\<open>detect_remote_default_branch\<close>; the reference is the second word of the first matching line.\<close>

fun symref_of :: "string list \<Rightarrow> store_error + string" where
  "symref_of [] = Inr default_base_branch"
| "symref_of (l # ls) =
     (if prefix ''ref:'' l \<and> contains_str ''HEAD'' l
      then (case py_words l of
          _ # r # _ \<Rightarrow> if prefix ''refs/heads/'' r then Inr (drop 11 r) else symref_of ls
        | _ \<Rightarrow> Inl (Raised ''list index out of range''))
      else symref_of ls)"

definition detect_remote_default_branch :: "'w git \<Rightarrow> string \<Rightarrow> ('w, string) store_op" where
  "detect_remote_default_branch git url =
     st_bind (git [''ls-remote'', ''--symref'', url, ''HEAD'']) (\<lambda>(out, _, rc).
       if rc \<noteq> 0 then st_return default_base_branch else st_lift (symref_of (py_splitlines out)))"

section \<open>Changed files\<close>

definition strip_quotes :: "string \<Rightarrow> string" where
  "strip_quotes s = (let q = (\<lambda>c. c = CHR 0x22) in rev (dropWhile q (rev (dropWhile q s))))"

text \<open>One line of \<open>git status --porcelain\<close>; a rename names its target.\<close>

definition porcelain_name :: "string \<Rightarrow> string option" where
  "porcelain_name line =
     (if length line \<le> 3 then None
      else (let entry = py_strip (drop 3 line);
                target = (case split_first '' -> '' entry of Some (_, b) \<Rightarrow> b | None \<Rightarrow> entry)
            in Some (strip_quotes (py_strip target))))"

definition parse_porcelain_names :: "string \<Rightarrow> string list" where
  "parse_porcelain_names out = List.map_filter porcelain_name (py_splitlines out)"

text \<open>The diff of the work of a node; any exception gives none.\<close>

definition get_git_diff :: "'w git \<Rightarrow> ('w, string option) store_op" where
  "get_git_diff git =
     st_catch
       (st_bind (detect_base_ref git) (\<lambda>base.
        st_bind (run_git git [''diff'', base @ ''...HEAD'']) (\<lambda>(committed, _, rc).
        st_bind (run_git git [''diff'', ''HEAD'']) (\<lambda>(uncommitted, _, _).
        let parts = filter (\<lambda>p. p \<noteq> []) [if rc \<noteq> 0 then [] else committed, uncommitted];
            diff = py_strip (join_with [CHR 0x0A] parts)
        in st_return (if diff = [] then None else Some diff)))))
       (\<lambda>_. st_return None)"

text \<open>The names, each once and in the order of their first sight.\<close>

definition unique_names :: "string list \<Rightarrow> string list" where
  "unique_names fs = rev (remdups (rev (filter (\<lambda>n. n \<noteq> []) (map py_strip fs))))"

definition get_files_changed :: "'w git \<Rightarrow> ('w, string list) store_op" where
  "get_files_changed git =
     st_catch
       (st_bind (detect_base_ref git) (\<lambda>base.
        st_bind (run_git git [''diff'', ''--name-only'', base @ ''...HEAD'']) (\<lambda>(committed, _, rc).
        st_bind (run_git git [''status'', ''--porcelain'']) (\<lambda>(porcelain, _, rc').
        let files = (if rc = 0 \<and> committed \<noteq> [] then py_splitlines committed else []) @
              (if rc' \<noteq> 0 then [] else parse_porcelain_names porcelain)
        in st_return (unique_names files)))))
       (\<lambda>_. st_return [])"

section \<open>The first name of a status\<close>

definition plain_file :: "string \<Rightarrow> bool" where
  "plain_file name \<longleftrightarrow> 2 \<le> length name \<and> (\<forall>c\<in>set name. is_digit c \<or> is_lower c \<or> c = CHR 0x2E \<or> c = CHR 0x2F)"

lemma plain_char:
  assumes "is_digit c \<or> is_lower c \<or> c = CHR 0x2E \<or> c = CHR 0x2F"
  shows "\<not> is_space c" "\<not> is_linebreak c" "c \<noteq> CHR 0x22" "c \<noteq> CHR 0x20"
  using assms by (auto simp: is_digit_def is_lower_def is_space_def is_linebreak_def Let_def)

lemma dropWhile_id: "(\<And>c. c \<in> set s \<Longrightarrow> \<not> P c) \<Longrightarrow> dropWhile P s = s"
  by (induction s) auto

lemma py_strip_id: "(\<And>c. c \<in> set s \<Longrightarrow> \<not> is_space c) \<Longrightarrow> py_strip s = s"
  using dropWhile_id [of s is_space] dropWhile_id [of "rev s" is_space]
  by (simp add: py_strip_def py_lstrip_def py_rstrip_def)

lemma py_rstrip_last: "s \<noteq> [] \<Longrightarrow> \<not> is_space (last s) \<Longrightarrow> py_rstrip s = s"
  by (cases s rule: rev_cases) (simp_all add: py_rstrip_def)

lemma py_splitlines_single: "s \<noteq> [] \<Longrightarrow> (\<And>c. c \<in> set s \<Longrightarrow> \<not> is_linebreak c) \<Longrightarrow> py_splitlines s = [s]"
proof (induction s)
  case (Cons c s)
  have c: "\<not> is_linebreak c" using Cons.prems(2) by simp
  then have "c \<noteq> CHR 0x0D" by (auto simp: is_linebreak_def)
  moreover have "s = [] \<or> py_splitlines s = [s]" using Cons by auto
  ultimately show ?case using c by auto
qed simp

lemma split_first_no_space: "CHR 0x20 \<notin> set s \<Longrightarrow> split_first (CHR 0x20 # sep) s = None"
  by (induction s) auto

lemma strip_quotes_id:
  assumes "CHR 0x22 \<notin> set s"
  shows "strip_quotes s = s"
proof -
  have "dropWhile (\<lambda>c. c = CHR 0x22) s = s" by (rule dropWhile_id) (use assms in auto)
  moreover have "dropWhile (\<lambda>c. c = CHR 0x22) (rev s) = rev s" by (rule dropWhile_id) (use assms in auto)
  ultimately show ?thesis by (simp add: strip_quotes_def Let_def)
qed

lemma stripped_status:
  assumes "plain_file name"
  shows "parse_porcelain_names (py_strip ([CHR 0x20] @ ''M '' @ name)) = [tl name]"
proof -
  have c: "c \<in> set name \<Longrightarrow> is_digit c \<or> is_lower c \<or> c = CHR 0x2E \<or> c = CHR 0x2F" for c
    using assms by (simp add: plain_file_def)
  have "name \<noteq> []" using assms by (auto simp: plain_file_def)
  then have n: "name \<noteq> []" "last name \<in> set name" by simp_all
  have "\<not> is_space (CHR 0x4D)" "is_space (CHR 0x20)" by (simp_all add: is_space_def)
  then have "py_lstrip ([CHR 0x20] @ ''M '' @ name) = ''M '' @ name" by (simp add: py_lstrip_def)
  moreover have "py_rstrip (''M '' @ name) = ''M '' @ name"
    using n plain_char(1) [OF c [OF n(2)]] by (intro py_rstrip_last) simp_all
  ultimately have s: "py_strip ([CHR 0x20] @ ''M '' @ name) = ''M '' @ name" by (simp add: py_strip_def)
  have nb: "\<not> is_linebreak x" if "x \<in> set (''M '' @ name)" for x
  proof -
    from that consider "x = CHR 0x4D" | "x = CHR 0x20" | "x \<in> set name" by auto
    then show ?thesis
    proof cases
      case 3
      then show ?thesis by (rule plain_char(2) [OF c])
    qed (simp_all add: is_linebreak_def)
  qed
  have "py_splitlines (''M '' @ name) = [''M '' @ name]"
    by (rule py_splitlines_single [OF _ nb]) simp_all
  moreover have "py_strip (tl name) = tl name"
    by (rule py_strip_id) (use c plain_char(1) list.set_sel(2) [OF n(1)] in blast)
  moreover have sp: "CHR 0x20 \<notin> set (tl name)" "CHR 0x22 \<notin> set (tl name)"
    using c plain_char(3,4) list.set_sel(2) [OF n(1)] by blast+
  then have "strip_quotes (tl name) = tl name" by (simp add: strip_quotes_id)
  moreover have "drop 3 (''M '' @ name) = tl name" by (simp add: drop_Suc numeral_3_eq_3)
  moreover have "3 < length (''M '' @ name)" using assms by (simp add: plain_file_def)
  ultimately show ?thesis
    unfolding s using split_first_no_space [OF sp(1), of "''-> ''"]
    by (simp add: parse_porcelain_names_def porcelain_name_def Let_def List.map_filter_def)
qed

end
