(* ===== verification/Regex.thy ===== *)
theory Regex
  imports Prelude
begin

text \<open>
  The part of Python's \<open>re\<close> the source uses: a backtracking matcher that lists the ways a pattern matches
  at the head of a text, in the order the engine tries them, and \<open>search\<close> and \<open>sub\<close> on top of it. Texts
  are matched together with the character before them, which the anchors look at.
\<close>

datatype regex =
    Cls "char \<Rightarrow> bool"
  | Eps
  | Cat regex regex
  | Alt regex regex
  | Star regex
  | LineStart
  | TextEnd
  | WordEdge

type_synonym cursor = "char option \<times> string"

definition regex_word :: "char \<Rightarrow> bool" where
  "regex_word c =
     (let n = of_char c :: nat in
      (48 \<le> n \<and> n \<le> 57) \<or> (65 \<le> n \<and> n \<le> 90) \<or> n = 95 \<or> (97 \<le> n \<and> n \<le> 122) \<or>
      n \<in> {170, 178, 179, 181, 185, 186, 188, 189, 190} \<or> (192 \<le> n \<and> n \<noteq> 215 \<and> n \<noteq> 247))"

definition at_word :: "char option \<Rightarrow> bool" where
  "at_word c = (case c of None \<Rightarrow> False | Some d \<Rightarrow> regex_word d)"

definition next_char :: "string \<Rightarrow> char option" where
  "next_char s = (case s of [] \<Rightarrow> None | c # _ \<Rightarrow> Some c)"

text \<open>A star takes only matches that consume something, the longest way first.\<close>

function re_match :: "regex \<Rightarrow> cursor \<Rightarrow> cursor list" where
  "re_match (Cls P) x = (case snd x of [] \<Rightarrow> [] | c # t \<Rightarrow> if P c then [(Some c, t)] else [])"
| "re_match Eps x = [x]"
| "re_match (Cat r q) x = concat (map (re_match q) (re_match r x))"
| "re_match (Alt r q) x = re_match r x @ re_match q x"
| "re_match (Star r) x =
     concat (map (re_match (Star r)) (filter (\<lambda>y. length (snd y) < length (snd x)) (re_match r x))) @ [x]"
| "re_match LineStart x = (if fst x = None \<or> fst x = Some (CHR 0x0A) then [x] else [])"
| "re_match TextEnd x = (if snd x = [] \<or> snd x = [CHR 0x0A] then [x] else [])"
| "re_match WordEdge x = (if at_word (fst x) \<noteq> at_word (next_char (snd x)) then [x] else [])"
  by pat_completeness auto
termination
  by (relation "measures [\<lambda>(r, x). size r, \<lambda>(r, x). length (snd x)]") auto

declare re_match.simps(5) [simp del]

lemma re_match_star_iff:
  "y \<in> set (re_match (Star r) x) \<longleftrightarrow>
     y = x \<or> (\<exists>z\<in>set (re_match r x). length (snd z) < length (snd x) \<and> y \<in> set (re_match (Star r) z))"
  by (subst re_match.simps) auto

lemma re_match_starE:
  assumes "y \<in> set (re_match (Star r) x)"
  obtains "y = x" | z where "z \<in> set (re_match r x)" "length (snd z) < length (snd x)" "y \<in> set (re_match (Star r) z)"
  using assms [unfolded re_match_star_iff [of y r x]] by blast

lemma re_match_star_self: "x \<in> set (re_match (Star r) x)"
  unfolding re_match_star_iff [of x r x] by blast

lemma re_match_suffix: "y \<in> set (re_match r x) \<Longrightarrow> \<exists>u. snd x = u @ snd y"
proof (induction r x arbitrary: y rule: re_match.induct)
  case (3 r q x)
  then obtain z where "z \<in> set (re_match r x)" "y \<in> set (re_match q z)" by auto
  with 3(1,2) obtain u v where "snd x = u @ snd z" "snd z = v @ snd y" by metis
  then show ?case by simp
next
  case (5 r x)
  from 5(3) show ?case
  proof (cases rule: re_match_starE)
    case (2 z)
    from 5(1) [OF 2(1)] obtain u where "snd x = u @ snd z" by blast
    moreover from 5(2) [OF _ 2(3)] 2(1,2) obtain v where "snd z = v @ snd y" by auto
    ultimately show ?thesis by simp
  qed simp
qed (auto split: list.splits if_splits)

lemma re_match_length: "y \<in> set (re_match r x) \<Longrightarrow> length (snd y) \<le> length (snd x)"
  by (auto dest: re_match_suffix)

subsection \<open>Patterns\<close>

definition lit_char :: "char \<Rightarrow> regex" where
  "lit_char c = Cls (\<lambda>d. d = c)"

fun literal :: "string \<Rightarrow> regex" where
  "literal [] = Eps"
| "literal (c # s) = Cat (Cls (\<lambda>d. d = c)) (literal s)"

text \<open>A literal under \<open>re.IGNORECASE\<close>, given in lower case.\<close>

fun literal_i :: "string \<Rightarrow> regex" where
  "literal_i [] = Eps"
| "literal_i (c # s) = Cat (Cls (\<lambda>d. lower_char d = c)) (literal_i s)"

fun seq :: "regex list \<Rightarrow> regex" where
  "seq [] = Eps"
| "seq (r # rs) = Cat r (seq rs)"

fun choice :: "regex list \<Rightarrow> regex" where
  "choice [] = Cls (\<lambda>_. False)"
| "choice [r] = r"
| "choice (r # q # rs) = Alt r (choice (q # rs))"

abbreviation opt_re :: "regex \<Rightarrow> regex" where
  "opt_re r \<equiv> Alt r Eps"

abbreviation spaces0 :: regex where
  "spaces0 \<equiv> Star (Cls is_space)"

abbreviation spaces1 :: regex where
  "spaces1 \<equiv> Cat (Cls is_space) (Star (Cls is_space))"

subsection \<open>Searching and replacing\<close>

definition re_prefix :: "regex \<Rightarrow> cursor \<Rightarrow> cursor option" where
  "re_prefix r x = (case re_match r x of [] \<Rightarrow> None | y # _ \<Rightarrow> Some y)"

text \<open>\<open>r.search(s)\<close>: whether some position matches.\<close>

fun re_search_from :: "regex \<Rightarrow> char option \<Rightarrow> string \<Rightarrow> bool" where
  "re_search_from r p [] = (re_match r (p, []) \<noteq> [])"
| "re_search_from r p (c # s) = (re_match r (p, c # s) \<noteq> [] \<or> re_search_from r (Some c) s)"

definition re_search :: "regex \<Rightarrow> string \<Rightarrow> bool" where
  "re_search r s = re_search_from r None s"

text \<open>\<open>r.sub(f, s)\<close> of a pattern that never matches the empty text.\<close>

function re_sub_from :: "regex \<Rightarrow> (string \<Rightarrow> string) \<Rightarrow> cursor \<Rightarrow> string" where
  "re_sub_from r f (p, s) =
     (case s of [] \<Rightarrow> []
      | c # t \<Rightarrow>
          (case re_prefix r (p, s) of
             Some (q, rest) \<Rightarrow>
               if length rest < length s then f (take (length s - length rest) s) @ re_sub_from r f (q, rest)
               else c # re_sub_from r f (Some c, t)
           | None \<Rightarrow> c # re_sub_from r f (Some c, t)))"
  by pat_completeness auto
termination
  by (relation "measure (\<lambda>(r, f, p, s). length s)") auto

declare re_sub_from.simps [simp del]

definition re_sub :: "regex \<Rightarrow> (string \<Rightarrow> string) \<Rightarrow> string \<Rightarrow> string" where
  "re_sub r f s = re_sub_from r f (None, s)"

lemma re_sub_Nil [simp]: "re_sub_from r f (p, []) = []"
  by (simp add: re_sub_from.simps)

definition consuming :: "regex \<Rightarrow> bool" where
  "consuming r \<longleftrightarrow> (\<forall>x y. y \<in> set (re_match r x) \<longrightarrow> length (snd y) < length (snd x))"

lemma re_sub_step:
  assumes "consuming r"
  shows "(\<exists>u t' q. c # t = u @ t' \<and> u \<noteq> [] \<and> (q, t') \<in> set (re_match r (p, c # t)) \<and>
            re_sub_from r f (p, c # t) = f u @ re_sub_from r f (q, t')) \<or>
         (re_match r (p, c # t) = [] \<and> re_sub_from r f (p, c # t) = c # re_sub_from r f (Some c, t))"
proof (cases "re_match r (p, c # t)")
  case Nil
  then show ?thesis by (simp add: re_sub_from.simps [of r f p "c # t"] re_prefix_def)
next
  case (Cons y ys)
  obtain q t' where y: "y = (q, t')" by (cases y)
  with Cons have m: "(q, t') \<in> set (re_match r (p, c # t))" by simp
  then obtain u where u: "c # t = u @ t'" using re_match_suffix by fastforce
  have l: "length t' < length (c # t)" using assms m unfolding consuming_def by fastforce
  with u have "u \<noteq> []" by auto
  have tk: "take (length (c # t) - length t') (c # t) = u" using u by simp
  have "re_sub_from r f (p, c # t) = f (take (length (c # t) - length t') (c # t)) @ re_sub_from r f (q, t')"
    using Cons y l by (subst re_sub_from.simps) (simp add: re_prefix_def)
  then have "re_sub_from r f (p, c # t) = f u @ re_sub_from r f (q, t')" unfolding tk .
  with u m \<open>u \<noteq> []\<close> show ?thesis by blast
qed

subsection \<open>The language of a pattern\<close>

text \<open>The words a pattern can consume; anchors consume nothing, and what they demand of the surroundings is left out.\<close>

inductive_set repeated :: "string set \<Rightarrow> string set" for L where
  repeated_Nil: "[] \<in> repeated L"
| repeated_step: "u \<in> L \<Longrightarrow> u \<noteq> [] \<Longrightarrow> v \<in> repeated L \<Longrightarrow> u @ v \<in> repeated L"

fun lang :: "regex \<Rightarrow> string set" where
  "lang (Cls P) = {[c] | c. P c}"
| "lang Eps = {[]}"
| "lang (Cat r q) = {u @ v | u v. u \<in> lang r \<and> v \<in> lang q}"
| "lang (Alt r q) = lang r \<union> lang q"
| "lang (Star r) = repeated (lang r)"
| "lang _ = {[]}"

fun anchor_free :: "regex \<Rightarrow> bool" where
  "anchor_free (Cat r q) = (anchor_free r \<and> anchor_free q)"
| "anchor_free (Alt r q) = (anchor_free r \<and> anchor_free q)"
| "anchor_free (Star r) = anchor_free r"
| "anchor_free LineStart = False"
| "anchor_free TextEnd = False"
| "anchor_free WordEdge = False"
| "anchor_free _ = True"

lemma re_match_lang: "y \<in> set (re_match r x) \<Longrightarrow> \<exists>u\<in>lang r. snd x = u @ snd y"
proof (induction r x arbitrary: y rule: re_match.induct)
  case (3 r q x)
  then obtain z where 1: "z \<in> set (re_match r x)" "y \<in> set (re_match q z)" by auto
  with 3 obtain u v where "u \<in> lang r" "snd x = u @ snd z" "v \<in> lang q" "snd z = v @ snd y" by metis
  then show ?case by (intro bexI [of _ "u @ v"]) auto
next
  case (4 r q x)
  from 4(3) consider "y \<in> set (re_match r x)" | "y \<in> set (re_match q x)" by auto
  then show ?case
  proof cases
    case 1
    with 4 show ?thesis by (metis UnI1 lang.simps(4))
  next
    case 2
    with 4 show ?thesis by (metis UnI2 lang.simps(4))
  qed
next
  case (5 r x)
  from 5(3) show ?case
  proof (cases rule: re_match_starE)
    case 1
    then show ?thesis by (auto intro: repeated_Nil)
  next
    case z: (2 z)
    from 5(1) [OF z(1)] obtain u where u: "u \<in> lang r" "snd x = u @ snd z" by blast
    from 5(2) [OF _ z(3)] z(1,2) obtain v where v: "v \<in> repeated (lang r)" "snd z = v @ snd y" by auto
    from u z(2) have "u \<noteq> []" by auto
    with u v show ?thesis by (intro bexI [of _ "u @ v"]) (auto intro: repeated_step)
  qed
qed (auto split: list.splits if_splits)

lemma lang_re_match: "anchor_free r \<Longrightarrow> u \<in> lang r \<Longrightarrow> \<exists>q. (q, t) \<in> set (re_match r (p, u @ t))"
proof (induction r arbitrary: u t p)
  case (Cat r q)
  then obtain v w where u: "u = v @ w" "v \<in> lang r" "w \<in> lang q" by auto
  obtain q' where "(q', w @ t) \<in> set (re_match r (p, v @ w @ t))" using Cat.IH(1) [OF _ u(2)] Cat.prems(1) by auto
  moreover obtain q'' where "(q'', t) \<in> set (re_match q (q', w @ t))" using Cat.IH(2) [OF _ u(3)] Cat.prems(1) by auto
  ultimately show ?case unfolding u(1) by (intro exI [of _ q'']) force
next
  case (Star r)
  have "w \<in> repeated (lang r) \<Longrightarrow> \<exists>q. (q, t) \<in> set (re_match (Star r) (p, w @ t))" for w p
  proof (induction w arbitrary: p rule: repeated.induct)
    case repeated_Nil
    show ?case using re_match_star_self [of "(p, t)" r] by auto
  next
    case (repeated_step v w)
    obtain q' where q': "(q', w @ t) \<in> set (re_match r (p, v @ w @ t))" using Star.IH [OF _ repeated_step.hyps(1)] Star.prems(1) by auto
    obtain q where q: "(q, t) \<in> set (re_match (Star r) (q', w @ t))" using repeated_step.IH by blast
    have "length (w @ t) < length (v @ w @ t)" using repeated_step.hyps(2) by simp
    with q q' have "(q, t) \<in> set (re_match (Star r) (p, v @ w @ t))"
      by (subst re_match_star_iff) (metis snd_conv)
    then show ?case unfolding append.assoc by blast
  qed
  with Star.prems show ?case by simp
next
  case (Alt r q)
  from Alt.prems(2) consider "u \<in> lang r" | "u \<in> lang q" by auto
  then show ?case
  proof cases
    case 1
    with Alt obtain x where "(x, t) \<in> set (re_match r (p, u @ t))" by fastforce
    then show ?thesis by auto
  next
    case 2
    with Alt obtain x where "(x, t) \<in> set (re_match q (p, u @ t))" by fastforce
    then show ?thesis by auto
  qed
qed auto

text \<open>A pattern matches at the head of a text exactly when a word of its language starts the text.\<close>

lemma re_match_iff:
  "anchor_free r \<Longrightarrow> re_match r (p, s) \<noteq> [] \<longleftrightarrow> (\<exists>u\<in>lang r. prefix u s)"
proof
  assume r: "anchor_free r" and "re_match r (p, s) \<noteq> []"
  then obtain q t where "(q, t) \<in> set (re_match r (p, s))" by (metis list.set_sel(1) surj_pair)
  with re_match_lang [of "(q, t)" r "(p, s)"] show "\<exists>u\<in>lang r. prefix u s" by (auto simp: prefix_def)
next
  assume r: "anchor_free r" and "\<exists>u\<in>lang r. prefix u s"
  then obtain u t where "u \<in> lang r" "s = u @ t" by (auto simp: prefix_def)
  with lang_re_match [OF r, of u t p] show "re_match r (p, s) \<noteq> []" by auto
qed

lemma re_search_iff: "anchor_free r \<Longrightarrow> re_search r s \<longleftrightarrow> (\<exists>u\<in>lang r. sublist u s)"
proof -
  assume r: "anchor_free r"
  have "re_search_from r p s \<longleftrightarrow> (\<exists>u\<in>lang r. sublist u s)" for p
  proof (induction s arbitrary: p)
    case Nil
    then show ?case using re_match_iff [OF r, of p "[]"] by simp
  next
    case (Cons c s)
    then show ?case using re_match_iff [OF r, of p "c # s"] by (auto simp: sublist_Cons_right)
  qed
  then show ?thesis by (simp add: re_search_def)
qed

lemma consumingI: "[] \<notin> lang r \<Longrightarrow> consuming r"
  unfolding consuming_def by (fastforce dest: re_match_lang)

text \<open>A text without a word of the language is not changed.\<close>

lemma re_sub_id:
  assumes "[] \<notin> lang r" "\<forall>u\<in>lang r. \<not> sublist u s"
  shows "re_sub r f s = s"
proof -
  have "\<forall>u\<in>lang r. \<not> sublist u t \<Longrightarrow> re_sub_from r f (p, t) = t" for p t
  proof (induction t arbitrary: p)
    case (Cons c t)
    from re_sub_step [OF consumingI [OF assms(1)], of c t p f] show ?case
    proof (elim disjE exE conjE)
      fix u t' q assume m: "(q, t') \<in> set (re_match r (p, c # t))"
      obtain w where "w \<in> lang r" "c # t = w @ t'" using re_match_lang [OF m] by auto
      with Cons.prems show ?thesis by (metis prefix_def prefix_imp_sublist)
    next
      assume "re_sub_from r f (p, c # t) = c # re_sub_from r f (Some c, t)"
      with Cons show ?thesis by (simp add: sublist_Cons_right)
    qed
  qed simp
  with assms(2) show ?thesis by (simp add: re_sub_def)
qed

text \<open>A character every word of the language has, in either case.\<close>

definition needs :: "char \<Rightarrow> regex \<Rightarrow> bool" where
  "needs c r \<longleftrightarrow> (\<forall>u\<in>lang r. c \<in> lower_char ` set u)"

lemma needs_literal_i: "c \<in> set s \<Longrightarrow> needs c (literal_i s)"
proof (induction s)
  case (Cons d s)
  then show ?case by (cases "c = d") (fastforce simp: needs_def)+
qed simp

lemma needs_seq: "list_ex (needs c) rs \<Longrightarrow> needs c (seq rs)"
proof (induction rs)
  case (Cons r rs)
  show ?case unfolding needs_def
  proof
    fix u assume "u \<in> lang (seq (r # rs))"
    then obtain v w where u: "u = v @ w" "v \<in> lang r" "w \<in> lang (seq rs)" by auto
    have "needs c r \<or> needs c (seq rs)" using Cons by auto
    then have "c \<in> lower_char ` set v \<or> c \<in> lower_char ` set w" using u unfolding needs_def by blast
    then show "c \<in> lower_char ` set u" unfolding u(1) set_append image_Un by blast
  qed
qed simp

lemma re_sub_lacks: "needs c r \<Longrightarrow> c \<notin> lower_char ` set s \<Longrightarrow> re_sub r f s = s"
  by (rule re_sub_id) (use set_mono_sublist in \<open>fastforce simp: needs_def\<close>)+

lemma needs_seqI: "r \<in> set rs \<Longrightarrow> needs c r \<Longrightarrow> needs c (seq rs)"
  by (rule needs_seq) (auto simp: list_ex_iff)

end
