(* ===== verification/AgentLoop.thy ===== *)
theory AgentLoop
  imports Guardrails GitHelpers UntrustedInput
begin

text \<open>
  The loop of an operative (\<open>operative/agent_builder.py\<close>, class \<open>OperativeAgent\<close>): ask the model, run the
  tools it calls, observe, until a commit, a ceiling, an outage or a shutdown ends it. The provider, the
  tool handlers, git, the file system and the clock are the fields of an \<open>agent_env\<close>, operations on a world;
  an exception is an \<open>Inl\<close>. Code that the timeout of \<open>run\<close> cuts short is not modelled.
\<close>

section \<open>What the provider is sent\<close>

datatype llm_role = SystemRole | UserRole | AssistantRole | ToolRole

record tool_call =
  tc_id :: string
  tc_name :: string
  tc_arguments :: doc

record llm_message =
  lm_role :: llm_role
  lm_content :: string
  lm_call_id :: "string option"
  lm_calls :: "tool_call list option"

record llm_response =
  lr_content :: string
  lr_calls :: "tool_call list"
  lr_model :: string
  lr_input :: int
  lr_output :: int
  lr_cached :: int
  lr_cost :: rat

text \<open>The parameters of a tool as the registry holds them, as a JSON schema, and as the provider gets them.\<close>

datatype annotation = NoAnnotation | StrType | IntType | FloatType | BoolType | ListType | OtherType

record schema_property =
  sp_type :: string
  sp_items :: "string option"

record tool_schema =
  ts_properties :: "(string, schema_property) dict"
  ts_required :: "string list"

record tool_declaration =
  td_name :: string
  td_description :: string
  td_schema :: tool_schema

record tool_parameter =
  tp_name :: string
  tp_type :: string
  tp_description :: string
  tp_required :: bool
  tp_items :: "string option"

record tool_definition =
  tf_name :: string
  tf_description :: string
  tf_parameters :: "tool_parameter list"

fun schema_property_of :: "annotation \<Rightarrow> schema_property" where
  "schema_property_of NoAnnotation = \<lparr>sp_type = ''string'', sp_items = None\<rparr>"
| "schema_property_of StrType = \<lparr>sp_type = ''string'', sp_items = None\<rparr>"
| "schema_property_of IntType = \<lparr>sp_type = ''integer'', sp_items = None\<rparr>"
| "schema_property_of FloatType = \<lparr>sp_type = ''number'', sp_items = None\<rparr>"
| "schema_property_of BoolType = \<lparr>sp_type = ''boolean'', sp_items = None\<rparr>"
| "schema_property_of ListType = \<lparr>sp_type = ''array'', sp_items = Some ''string''\<rparr>"
| "schema_property_of OtherType = \<lparr>sp_type = ''string'', sp_items = None\<rparr>"

text \<open>A parameter: its annotation and whether it has a default.\<close>

definition build_json_schema :: "(string, annotation \<times> bool) dict \<Rightarrow> tool_schema" where
  "build_json_schema ps =
     \<lparr>ts_properties = map (\<lambda>(n, a, _). (n, schema_property_of a)) ps,
      ts_required = map fst (filter (\<lambda>(_, _, has_default). \<not> has_default) ps)\<rparr>"

definition tool_dicts_to_definitions :: "tool_declaration list \<Rightarrow> tool_definition list" where
  "tool_dicts_to_definitions ts =
     map (\<lambda>t. \<lparr>tf_name = td_name t, tf_description = td_description t,
                tf_parameters = map (\<lambda>(n, p). \<lparr>tp_name = n, tp_type = sp_type p, tp_description = [],
                    tp_required = (n \<in> set (ts_required (td_schema t))), tp_items = None\<rparr>) (ts_properties (td_schema t))\<rparr>) ts"

record llm_request =
  rq_messages :: "llm_message list"
  rq_model :: string
  rq_tools :: "tool_definition list option"
  rq_max_tokens :: int
  rq_system :: string

section \<open>Messages in the form of the provider\<close>

definition part_texts :: "part list \<Rightarrow> string list" where
  "part_texts ps = List.map_filter (\<lambda>p. case p of TextPart s \<Rightarrow> Some s | _ \<Rightarrow> None) ps"

definition part_calls :: "part list \<Rightarrow> tool_call list" where
  "part_calls ps =
     List.map_filter (\<lambda>p. case p of ToolUse i n args \<Rightarrow> Some \<lparr>tc_id = i, tc_name = n, tc_arguments = args\<rparr> | _ \<Rightarrow> None) ps"

definition part_results :: "part list \<Rightarrow> (string \<times> string) list" where
  "part_results ps = List.map_filter (\<lambda>p. case p of ToolResult i n c \<Rightarrow> Some (i, c) | _ \<Rightarrow> None) ps"

definition to_provider :: "message \<Rightarrow> llm_message list" where
  "to_provider m =
     (case msg_content m of
        Plain s \<Rightarrow> [\<lparr>lm_role = (if msg_role m = Assistant then AssistantRole else UserRole), lm_content = s,
                     lm_call_id = None, lm_calls = None\<rparr>]
      | Parts ps \<Rightarrow>
          (if part_results ps \<noteq> []
           then map (\<lambda>(i, c). \<lparr>lm_role = ToolRole, lm_content = c, lm_call_id = Some i, lm_calls = None\<rparr>) (part_results ps)
           else if msg_role m = Assistant
           then [\<lparr>lm_role = AssistantRole, lm_content = join_with [CHR 0x0A] (part_texts ps), lm_call_id = None,
                  lm_calls = (if part_calls ps = [] then None else Some (part_calls ps))\<rparr>]
           else [\<lparr>lm_role = UserRole, lm_content = join_with [CHR 0x0A] (part_texts ps), lm_call_id = None, lm_calls = None\<rparr>]))"

definition internal_messages_to_provider :: "message list \<Rightarrow> llm_message list" where
  "internal_messages_to_provider ms = concat (map to_provider ms)"

section \<open>The agent and its environment\<close>

text \<open>
  \<open>ae_yields\<close> tells whether the event loop got to run the pending writes while the last awaited call was
  suspended; \<open>ae_error_text\<close> is \<open>str\<close> of an exception.
\<close>

record 'w agent_env =
  ae_generate :: "llm_request \<Rightarrow> ('w, llm_response) store_op"
  ae_handler :: "string \<Rightarrow> (doc \<Rightarrow> ('w, json) store_op) option"
  ae_takes_dir :: "string \<Rightarrow> bool"
  ae_git :: "'w git"
  ae_shutdown :: "'w \<Rightarrow> bool"
  ae_elapsed :: "'w \<Rightarrow> int"
  ae_yields :: "'w \<Rightarrow> bool"
  ae_realpath :: "'w \<Rightarrow> string \<Rightarrow> string"
  ae_root :: string
  ae_workspace :: string
  ae_tools :: "tool_declaration list"
  ae_model :: string
  ae_system :: string
  ae_max_output :: int
  ae_settings :: settings
  ae_show :: renderers
  ae_error_text :: "store_error \<Rightarrow> string"

record agent =
  ag_guard :: guardrails
  ag_nudge :: nudge_detector
  ag_messages :: "message list"
  ag_steps :: int
  ag_blocked :: "string option"
  ag_cached :: int
  ag_interrupted :: bool
  ag_summary :: string
  ag_confidence :: rat
  ag_committed :: bool
  ag_edited :: bool
  ag_lint_passed :: bool
  ag_text_only :: nat
  ag_text_total :: nat
  ag_model_errors :: nat
  ag_class :: "string option"
  ag_class_count :: nat

text \<open>One pass of the loop goes on or breaks.\<close>

datatype flow = Go agent | Stop agent

definition new_agent :: "guardrails \<Rightarrow> int \<Rightarrow> message list \<Rightarrow> agent" where
  "new_agent g limit ms =
     \<lparr>ag_guard = g, ag_nudge = new_detector limit, ag_messages = ms, ag_steps = 0, ag_blocked = None, ag_cached = 0,
      ag_interrupted = False, ag_summary = [], ag_confidence = 1 / 2, ag_committed = False, ag_edited = False,
      ag_lint_passed = False, ag_text_only = 0, ag_text_total = 0, ag_model_errors = 0, ag_class = None, ag_class_count = 0\<rparr>"

definition say :: "speaker \<Rightarrow> content \<Rightarrow> agent \<Rightarrow> agent" where
  "say r c a = a\<lparr>ag_messages := ag_messages a @ [\<lparr>msg_role = r, msg_content = c\<rparr>]\<rparr>"

section \<open>Before the model is asked\<close>

definition step_limit_reason :: "int \<Rightarrow> string" where
  "step_limit_reason n = ''Step limit reached ('' @ show_int n @ '' steps) without a successful git_commit''"

definition cost_reason :: "renderers \<Rightarrow> guardrails \<Rightarrow> string" where
  "cost_reason f g =
     ''Cost ceiling exceeded ($'' @ show_cents f (gr_cost g) @ '' >= '' @ ''$'' @ show_cents f (task_cost_ceiling (gr_limits g)) @ '')''"

text \<open>The step limit, with the extension that edits without a commit earn.\<close>

definition pass_step_limit :: "agent \<Rightarrow> guardrails option" where
  "pass_step_limit a =
     (if \<not> check_step_limit (ag_guard a) then Some (ag_guard a)
      else if ag_edited a \<and> \<not> ag_committed a then grant_extension (ag_guard a)
      else None)"

definition check_halt :: "'w agent_env \<Rightarrow> 'w \<Rightarrow> agent \<Rightarrow> flow" where
  "check_halt env w a =
     (if ae_shutdown env w then Stop (a\<lparr>ag_interrupted := True\<rparr>)
      else (case pass_step_limit a of
          None \<Rightarrow> Stop (a\<lparr>ag_blocked := Some (if str_truthy (ag_blocked a) then the (ag_blocked a) else step_limit_reason (ag_steps a))\<rparr>)
        | Some g \<Rightarrow>
            if check_cost_ceiling (ae_elapsed env w) g
            then Stop (a\<lparr>ag_guard := g, ag_blocked := Some (cost_reason (ae_show env) g)\<rparr>)
            else Go (a\<lparr>ag_guard := g\<rparr>)))"

definition nudge_with :: "string \<Rightarrow> agent \<Rightarrow> agent" where
  "nudge_with text a = (say User (Plain text) a)\<lparr>ag_guard := record_nudge (ag_guard a)\<rparr>"

text \<open>The nudge at the top of a pass, and whether there was one.\<close>

definition nudge_step :: "agent \<Rightarrow> agent \<times> bool" where
  "nudge_step a =
     (case check_stuck (ag_nudge a) (ag_steps a) of
        None \<Rightarrow> (a, False)
      | Some s \<Rightarrow> (nudge_with (get_nudge_message (ag_nudge a) s (ag_steps a)) a, True))"

section \<open>The model call\<close>

definition settle_after :: "'w agent_env \<Rightarrow> 'w \<Rightarrow> agent \<Rightarrow> agent" where
  "settle_after env w a = (if ae_yields env w then a\<lparr>ag_guard := settle (ag_guard a)\<rparr> else a)"

definition response_parts :: "llm_response \<Rightarrow> part list" where
  "response_parts r =
     (if lr_content r = [] then [] else [TextPart (lr_content r)]) @
     map (\<lambda>c. ToolUse (tc_id c) (tc_name c) (tc_arguments c)) (lr_calls r)"

definition failed_turn :: "string \<Rightarrow> model_turn" where
  "failed_turn text =
     \<lparr>mt_error = Some text, mt_content = [], mt_model = [], mt_input = 0, mt_output = 0, mt_cached = 0, mt_cost = None\<rparr>"

definition turn_of :: "string \<Rightarrow> llm_response \<Rightarrow> model_turn" where
  "turn_of model r =
     \<lparr>mt_error = None, mt_content = response_parts r, mt_model = (if lr_model r = [] then model else lr_model r),
      mt_input = lr_input r, mt_output = lr_output r, mt_cached = lr_cached r, mt_cost = Some (lr_cost r)\<rparr>"

definition request_of :: "'w agent_env \<Rightarrow> message list \<Rightarrow> llm_request" where
  "request_of env ms =
     \<lparr>rq_messages = internal_messages_to_provider ms, rq_model = ae_model env,
      rq_tools = (if ae_tools env = [] then None else Some (tool_dicts_to_definitions (ae_tools env))),
      rq_max_tokens = ae_max_output env, rq_system = ae_system env\<rparr>"

definition call_via_provider :: "'w agent_env \<Rightarrow> message list \<Rightarrow> ('w, model_turn) store_op" where
  "call_via_provider env ms =
     st_catch (st_bind (ae_generate env (request_of env ms)) (\<lambda>r. st_return (turn_of (ae_model env) r)))
       (\<lambda>e. st_return (failed_turn (ae_error_text env e)))"

definition after_model :: "settings \<Rightarrow> model_turn \<Rightarrow> agent \<Rightarrow> agent" where
  "after_model st r a =
     a\<lparr>ag_guard := after_model_response st r (ag_guard a), ag_steps := ag_steps a + 1,
       ag_cached := (if mt_error r = None then ag_cached a + mt_cached r else ag_cached a)\<rparr>"

definition ask_model :: "'w agent_env \<Rightarrow> agent \<Rightarrow> ('w, model_turn \<times> agent) store_op" where
  "ask_model env a =
     st_bind (call_via_provider env (before_model_call (ag_guard a) (ag_messages a))) (\<lambda>r w.
       (Inr (r, after_model (ae_settings env) r (settle_after env w a)), w))"

section \<open>Reading the answer\<close>

definition confidence_marker :: string where
  "confidence_marker = ''confidence:''"

text \<open>The word after the first marker, up to the next one, without closing punctuation.\<close>

definition confidence_word :: "string \<Rightarrow> string option" where
  "confidence_word s =
     (case split_first confidence_marker s of
        None \<Rightarrow> None
      | Some (_, rest) \<Rightarrow>
          (case py_words (case split_first confidence_marker rest of None \<Rightarrow> rest | Some (x, _) \<Rightarrow> x) of
             [] \<Rightarrow> None
           | w # _ \<Rightarrow> Some (rev (dropWhile (\<lambda>c. c \<in> {CHR 0x2E, CHR 0x2C, CHR 0x3B}) (rev w)))))"

definition read_confidence :: "string \<Rightarrow> rat \<Rightarrow> rat" where
  "read_confidence summary old =
     (case confidence_word (py_lower summary) of None \<Rightarrow> old
      | Some w \<Rightarrow> (case parse_float w of None \<Rightarrow> old | Some x \<Rightarrow> clamp_unit x))"

definition last_text :: "part list \<Rightarrow> string \<Rightarrow> string" where
  "last_text ps old = (case part_texts ps of [] \<Rightarrow> old | ts \<Rightarrow> last ts)"

definition read_answer :: "part list \<Rightarrow> agent \<Rightarrow> agent" where
  "read_answer ps a =
     (let s = last_text ps (ag_summary a) in
      a\<lparr>ag_model_errors := 0, ag_summary := s, ag_confidence := read_confidence s (ag_confidence a)\<rparr>)"

definition max_consecutive_model_errors :: nat where
  "max_consecutive_model_errors = 3"

definition model_failed :: "string \<Rightarrow> agent \<Rightarrow> flow" where
  "model_failed e a =
     (let n = ag_model_errors a + 1 in
      if n \<ge> max_consecutive_model_errors
      then Stop (a\<lparr>ag_model_errors := n, ag_blocked := Some (''LLM provider unavailable: '' @ e)\<rparr>)
      else Go (a\<lparr>ag_model_errors := n\<rparr>))"

text \<open>An answer without a tool call.\<close>

definition text_nudge :: "agent \<Rightarrow> string" where
  "text_nudge a =
     (case check_stuck (ag_nudge a) (ag_steps a) of
        Some s \<Rightarrow> get_nudge_message (ag_nudge a) s (ag_steps a)
      | None \<Rightarrow> ''You have '' @ show_int (gr_max_steps (ag_guard a) - ag_steps a) @ '' steps remaining. '' @
                ''Use file_edit or file_write to make the code change, then call git_commit. '' @
                ''Do not analyze - call a tool.'')"

definition text_only_step :: "bool \<Rightarrow> agent \<Rightarrow> flow" where
  "text_only_step nudged a =
     (let a1 = a\<lparr>ag_text_only := ag_text_only a + 1, ag_text_total := ag_text_total a + 1,
                 ag_nudge := record_text_only_response (ag_nudge a)\<rparr> in
      if ag_edited a1 \<and> ag_text_only a1 \<ge> 3 then Stop a1
      else if nudged then Go a1
      else Go (nudge_with (text_nudge a1) a1))"

section \<open>Tool calls\<close>

definition max_tool_result_chars :: nat where
  "max_tool_result_chars = 10000"

text \<open>A relative path becomes a path of the workspace; \<open>os.path.isabs\<close> of anything but a text is a \<open>TypeError\<close>.\<close>

definition absolute_argument :: "string \<Rightarrow> string \<Rightarrow> doc \<Rightarrow> store_error + doc" where
  "absolute_argument dir k args =
     (case dict_get args k of
        None \<Rightarrow> Inr args
      | Some (JStr p) \<Rightarrow> Inr (if is_abs p then args else dict_set args k (JStr (path_join dir p)))
      | Some _ \<Rightarrow> Inl TypeErr)"

definition located_arguments :: "'w agent_env \<Rightarrow> string \<Rightarrow> doc \<Rightarrow> store_error + doc" where
  "located_arguments env tool args =
     res_bind (absolute_argument (ae_workspace env) ''path'' args) (\<lambda>a1.
     res_bind (absolute_argument (ae_workspace env) ''directory'' a1) (\<lambda>a2.
     Inr (if \<not> py_true (doc_get a2 ''working_dir'') \<and> ae_takes_dir env tool
          then dict_set a2 ''working_dir'' (JStr (ae_workspace env)) else a2)))"

definition error_result :: "string \<Rightarrow> json" where
  "error_result text = JObj [(''error'', JStr text)]"

text \<open>The result and the arguments, which the call changes in place.\<close>

definition execute_tool :: "'w agent_env \<Rightarrow> string \<Rightarrow> doc \<Rightarrow> ('w, json \<times> doc) store_op" where
  "execute_tool env tool args =
     (case ae_handler env tool of
        None \<Rightarrow> st_return (error_result (''Unknown tool: '' @ tool), args)
      | Some handler \<Rightarrow>
          st_bind (st_lift (located_arguments env tool args)) (\<lambda>args'.
          st_catch
            (st_bind (handler args') (\<lambda>r. st_bind (st_lift (json_dumps (ae_show env) r)) (\<lambda>_. st_return (r, args'))))
            (\<lambda>e. st_return (error_result (ae_error_text env e), args'))))"

definition with_recovery :: "renderers \<Rightarrow> string \<Rightarrow> json \<Rightarrow> json" where
  "with_recovery f class raw =
     (let hint = get_recovery_strategy class in
      case raw of
        JObj d \<Rightarrow> if hint \<noteq> [] \<and> length (json_text f raw) < max_tool_result_chars - 500
                   then JObj (dict_set d ''_recovery_hint'' (JStr hint)) else raw
      | _ \<Rightarrow> raw)"

definition truncate_result :: "string \<Rightarrow> string" where
  "truncate_result s =
     (if length s > max_tool_result_chars then take max_tool_result_chars s @ [CHR 0x0A] @ ''... [truncated]'' else s)"

definition note_lint :: "string \<Rightarrow> json \<Rightarrow> agent \<Rightarrow> agent" where
  "note_lint tool raw a =
     (case raw of
        JObj d \<Rightarrow> if tool = ''run_lint'' then a\<lparr>ag_lint_passed := py_eq (dict_get_or d ''return_code'' (JInt 1)) (JInt 0)\<rparr> else a
      | _ \<Rightarrow> a)"

text \<open>Only a result with a true \<open>success\<close> is a commit; a result that is no dictionary has no \<open>get\<close>.\<close>

definition note_commit :: "string \<Rightarrow> json \<Rightarrow> agent \<Rightarrow> store_error + agent" where
  "note_commit tool raw a =
     (if tool \<noteq> ''git_commit'' then Inr a
      else (case raw of
          JObj d \<Rightarrow> Inr (if py_true (doc_get d ''success'')
            then a\<lparr>ag_committed := True, ag_summary := ''Changes committed successfully.'', ag_confidence := 9 / 10, ag_blocked := None\<rparr>
            else a)
        | _ \<Rightarrow> Inl (Raised ''no attribute get'')))"

text \<open>What the loop makes of a result: the result part, the agent, and the class of a failure.\<close>

definition take_result ::
  "'w agent_env \<Rightarrow> string \<Rightarrow> string \<Rightarrow> json \<Rightarrow> agent \<Rightarrow> store_error + part \<times> agent \<times> string option" where
  "take_result env i tool raw a =
     res_bind (classify_tool_failure (ae_show env) raw tool) (\<lambda>c.
     (let failed = (c \<noteq> ''none'');
          raw' = (if failed then with_recovery (ae_show env) c raw else raw);
          a1 = note_lint tool raw' (a\<lparr>ag_nudge := record_tool_call tool (\<not> failed) (ag_nudge a)\<rparr>)
      in res_bind (note_commit tool raw' a1) (\<lambda>a2.
           Inr (ToolResult i tool (truncate_result (json_text (ae_show env) raw')), a2, if failed then Some c else None))))"

definition run_call ::
  "'w agent_env \<Rightarrow> string \<Rightarrow> string \<Rightarrow> doc \<Rightarrow> agent \<Rightarrow> ('w, doc \<times> part \<times> agent \<times> string option) store_op" where
  "run_call env i tool args a w =
     (case before_tool_call (ae_realpath env w) (ae_root env) tool args (ag_guard a) of
        (Some err, g) \<Rightarrow>
          (Inr (args, ToolResult i tool (json_text (ae_show env) (error_result err)), a\<lparr>ag_guard := g\<rparr>, None), w)
      | (None, g) \<Rightarrow>
          st_bind (execute_tool env tool args) (\<lambda>(raw, args') w'.
            (res_bind (take_result env i tool raw (settle_after env w' (a\<lparr>ag_guard := g\<rparr>))) (\<lambda>r. Inr (args', r)), w')) w)"

text \<open>
  The calls of one answer, in order: the content with the arguments as the calls left them, the results,
  the agent, and the class of the last failure.
\<close>

fun run_parts ::
  "'w agent_env \<Rightarrow> part list \<Rightarrow> agent \<Rightarrow> string option \<Rightarrow> ('w, part list \<times> part list \<times> agent \<times> string option) store_op" where
  "run_parts env [] a cls = st_return ([], [], a, cls)"
| "run_parts env (ToolUse i n args # ps) a cls =
     st_bind (run_call env i n args a) (\<lambda>(args', result, a1, c).
     st_bind (run_parts env ps a1 (if c = None then cls else c)) (\<lambda>(ps', rs, a2, cls').
     st_return (ToolUse i n args' # ps', result # rs, a2, cls')))"
| "run_parts env (p # ps) a cls =
     st_bind (run_parts env ps a cls) (\<lambda>(ps', rs, a', cls'). st_return (p # ps', rs, a', cls'))"

text \<open>Three steps in a row that fail alike end the loop.\<close>

definition abort_reason :: "string \<Rightarrow> string" where
  "abort_reason c =
     (if c \<in> {''approach_wrong'', ''environmental''}
      then ''Three consecutive '' @ c @ '' failures. '' @ ''Escalating - the environment or approach is broken.''
      else if c \<in> {''tool_error'', ''transient''}
      then ''Three consecutive '' @ c @ '' failures. '' @ ''Backing off and escalating - downstream services '' @ ''may be unhealthy.''
      else ''Three consecutive '' @ c @ '' failures. '' @ get_recovery_strategy c)"

definition count_failure :: "string option \<Rightarrow> agent \<Rightarrow> flow" where
  "count_failure cls a =
     (case cls of
        None \<Rightarrow> Go (a\<lparr>ag_class := None, ag_class_count := 0\<rparr>)
      | Some c \<Rightarrow>
          (let a1 = (if ag_class a = Some c then a\<lparr>ag_class_count := ag_class_count a + 1\<rparr> else a\<lparr>ag_class := Some c, ag_class_count := 1\<rparr>)
           in if ag_class_count a1 \<ge> 3 then Stop (a1\<lparr>ag_blocked := Some (abort_reason c)\<rparr>) else Go a1))"

definition note_edits :: "part list \<Rightarrow> agent \<Rightarrow> agent" where
  "note_edits ps a =
     (if list_ex (\<lambda>c. tc_name c \<in> set EDIT_TOOLS) (part_calls ps) then a\<lparr>ag_edited := True, ag_lint_passed := False\<rparr> else a)"

definition after_calls :: "part list \<Rightarrow> string option \<Rightarrow> agent \<Rightarrow> flow" where
  "after_calls ps cls a =
     (if ag_committed a then Stop a
      else (case count_failure cls (a\<lparr>ag_text_only := 0\<rparr>) of Stop a' \<Rightarrow> Stop a' | Go a' \<Rightarrow> Go (note_edits ps a')))"

definition tool_step :: "'w agent_env \<Rightarrow> part list \<Rightarrow> agent \<Rightarrow> ('w, flow) store_op" where
  "tool_step env ps a =
     st_bind (run_parts env ps a None) (\<lambda>(ps', rs, a', cls).
       st_return (after_calls ps cls (say User (Parts rs) (say Assistant (Parts ps') a'))))"

section \<open>The loop\<close>

definition answer_step :: "'w agent_env \<Rightarrow> bool \<Rightarrow> model_turn \<Rightarrow> agent \<Rightarrow> ('w, flow) store_op" where
  "answer_step env nudged r a =
     (if str_truthy (mt_error r) then st_return (model_failed (the (mt_error r)) a)
      else if part_calls (mt_content r) = []
      then st_return (text_only_step nudged (say Assistant (Parts (mt_content r)) (read_answer (mt_content r) a)))
      else tool_step env (mt_content r) (read_answer (mt_content r) a))"

definition model_step :: "'w agent_env \<Rightarrow> agent \<Rightarrow> ('w, flow) store_op" where
  "model_step env a =
     (let (a1, nudged) = nudge_step a in
      st_bind (ask_model env a1) (\<lambda>(r, a2). answer_step env nudged r a2))"

definition agent_step :: "'w agent_env \<Rightarrow> agent \<Rightarrow> ('w, flow) store_op" where
  "agent_step env a w =
     (case check_halt env w a of Stop a' \<Rightarrow> (Inr (Stop a'), w) | Go a' \<Rightarrow> model_step env a' w)"


section \<open>What a pass changes\<close>

text \<open>The part of the guardrails that only model calls and extensions change.\<close>

definition frame :: "guardrails \<Rightarrow> int \<times> int \<times> int \<times> step_budget option \<times> operative_limits \<times> string list \<times> rat" where
  "frame g = (gr_steps g, gr_max_steps g, gr_extensions g, gr_budget g, gr_limits g, gr_allowed g, gr_cost g)"

lemma frame_simps [simp]:
  "frame (record_nudge g) = frame g" "frame (settle g) = frame g" "frame (snd (before_tool_call rp w t args g)) = frame g"
  by (simp_all add: frame_def)

fun flow_agent :: "flow \<Rightarrow> agent" where
  "flow_agent (Go a) = a"
| "flow_agent (Stop a) = a"

text \<open>What a tool call leaves alone, and what it leaves alone short of a commit.\<close>

definition kept :: "agent \<Rightarrow> agent \<Rightarrow> bool" where
  "kept a a' \<longleftrightarrow> frame (ag_guard a') = frame (ag_guard a) \<and> ag_steps a' = ag_steps a \<and> ag_interrupted a' = ag_interrupted a"

definition pending :: "agent \<Rightarrow> agent \<Rightarrow> bool" where
  "pending a a' \<longleftrightarrow> ag_edited a' = ag_edited a \<and> ag_text_only a' = ag_text_only a \<and>
     (ag_committed a \<longrightarrow> ag_committed a') \<and> (\<not> ag_committed a' \<longrightarrow> ag_blocked a' = ag_blocked a)"

lemma kept_refl [simp]: "kept a a"
  by (simp add: kept_def)

lemma kept_trans [trans]: "kept a b \<Longrightarrow> kept b c \<Longrightarrow> kept a c"
  by (simp add: kept_def)

lemma pending_refl [simp]: "pending a a"
  by (simp add: pending_def)

lemma pending_trans [trans]: "pending a b \<Longrightarrow> pending b c \<Longrightarrow> pending a c"
  by (auto simp: pending_def)

lemma settle_after_kept [simp]: "kept (settle_after env w a) a' = kept a a'" "pending (settle_after env w a) a' = pending a a'"
  "ag_guard (settle_after env w a) = (if ae_yields env w then settle (ag_guard a) else ag_guard a)"
  by (simp_all add: settle_after_def kept_def pending_def)

lemma note_lint_kept:
  "kept a (note_lint tool raw a)" "pending a (note_lint tool raw a)" "ag_committed (note_lint tool raw a) = ag_committed a"
  by (cases raw; simp add: note_lint_def kept_def pending_def)+

lemma note_commit_kept:
  assumes "note_commit tool raw a = Inr a'"
  shows "kept a a' \<and> pending a a' \<and> (tool \<noteq> ''git_commit'' \<longrightarrow> a' = a)"
proof (cases "tool = ''git_commit''")
  case True
  with assms show ?thesis by (cases raw) (auto simp: note_commit_def kept_def pending_def split: if_splits)
next
  case False
  with assms show ?thesis by (simp add: note_commit_def)
qed

lemma take_result_kept:
  assumes "take_result env i tool raw a = Inr (part, a', c)"
  shows "kept a a'" "pending a a'" "tool \<noteq> ''git_commit'' \<Longrightarrow> ag_committed a' = ag_committed a"
proof -
  from assms obtain raw' b where b: "note_commit tool raw' (note_lint tool raw' (a\<lparr>ag_nudge := b\<rparr>)) = Inr a'"
    unfolding take_result_def by (auto simp only: Let_def res_bind_Inr_iff sum.inject prod.inject)
  let ?b = "a\<lparr>ag_nudge := b\<rparr>"
  have "kept a ?b" "pending a ?b" by (simp_all add: kept_def pending_def)
  with note_commit_kept [OF b] note_lint_kept(1) [of ?b tool raw'] note_lint_kept(2) [of ?b tool raw'] show "kept a a'" "pending a a'"
    by (blast intro: kept_trans pending_trans)+
  show "ag_committed a' = ag_committed a" if "tool \<noteq> ''git_commit''"
    using that note_commit_kept [OF b] note_lint_kept(3) [of tool raw' ?b] by simp
qed

lemma run_call_kept:
  assumes "run_call env i tool args a w = (Inr (args', part, a', c), w')"
  shows "kept a a'" "pending a a'" "tool \<noteq> ''git_commit'' \<or> tool \<notin> set (gr_allowed (ag_guard a)) \<Longrightarrow> ag_committed a' = ag_committed a"
proof -
  obtain v g where v: "before_tool_call (ae_realpath env w) (ae_root env) tool args (ag_guard a) = (v, g)" by (cases "before_tool_call (ae_realpath env w) (ae_root env) tool args (ag_guard a)")
  from frame_simps(3) [of "ae_realpath env w" "ae_root env" tool args "ag_guard a"] have g: "frame g = frame (ag_guard a)" by (simp add: v)
  have ag: "kept a (a\<lparr>ag_guard := g\<rparr>)" "pending a (a\<lparr>ag_guard := g\<rparr>)" by (simp_all add: kept_def pending_def g)
  have "kept a a' \<and> pending a a' \<and> (tool \<noteq> ''git_commit'' \<or> tool \<notin> set (gr_allowed (ag_guard a)) \<longrightarrow> ag_committed a' = ag_committed a)"
  proof (cases v)
    case None
    from v None have perm: "tool \<in> set (gr_allowed (ag_guard a))" by (auto simp: before_tool_call_def Let_def split: if_splits)
    from assms v None obtain raw w1 where
      r: "take_result env i tool raw (settle_after env w1 (a\<lparr>ag_guard := g\<rparr>)) = Inr (part, a', c)"
      by (auto simp: run_call_def st_bind_def res_bind_Inr_iff split: prod.splits sum.splits)
    have "ag_committed (settle_after env w1 (a\<lparr>ag_guard := g\<rparr>)) = ag_committed a" by (simp add: settle_after_def)
    with take_result_kept [OF r] perm ag show ?thesis by (auto intro: kept_trans pending_trans)
  next
    case (Some err)
    with assms v ag show ?thesis by (auto simp: run_call_def)
  qed
  then show "kept a a'" "pending a a'" "tool \<noteq> ''git_commit'' \<or> tool \<notin> set (gr_allowed (ag_guard a)) \<Longrightarrow> ag_committed a' = ag_committed a"
    by blast+
qed

lemma kept_allowed: "kept a a' \<Longrightarrow> gr_allowed (ag_guard a') = gr_allowed (ag_guard a)"
  by (simp add: kept_def frame_def)

lemma run_parts_kept:
  "run_parts env ps a cls w = (Inr (ps', rs, a', cls'), w') \<Longrightarrow>
     kept a a' \<and> pending a a' \<and> (''git_commit'' \<notin> set (gr_allowed (ag_guard a)) \<longrightarrow> ag_committed a' = ag_committed a)"
proof (induction ps arbitrary: a cls w ps' rs)
  case (Cons p ps)
  show ?case
  proof (cases p)
    case (ToolUse i n args)
    with Cons.prems obtain args' r a1 c w1 qs ts where
      one: "run_call env i n args a w = (Inr (args', r, a1, c), w1)" and
      rest: "run_parts env ps a1 (if c = None then cls else c) w1 = (Inr (qs, ts, a', cls'), w')"
      by (auto simp: st_bind_Inr_iff)
    note k = run_call_kept [OF one] and IH = Cons.IH [OF rest]
    have "kept a a'" using k(1) IH kept_trans by blast
    moreover have "pending a a'" using k(2) IH pending_trans by blast
    moreover have "ag_committed a' = ag_committed a" if "''git_commit'' \<notin> set (gr_allowed (ag_guard a))"
    proof -
      have "n \<noteq> ''git_commit'' \<or> n \<notin> set (gr_allowed (ag_guard a))" using that by (cases "n = ''git_commit''") simp_all
      then have "ag_committed a1 = ag_committed a" by (rule k(3))
      with that IH kept_allowed [OF k(1)] show ?thesis by simp
    qed
    ultimately show ?thesis by blast
  next
    case (TextPart s)
    with Cons.prems obtain qs where "run_parts env ps a cls w = (Inr (qs, rs, a', cls'), w')" by (auto simp: st_bind_Inr_iff)
    then show ?thesis by (rule Cons.IH)
  next
    case (ToolResult i n s)
    with Cons.prems obtain qs where "run_parts env ps a cls w = (Inr (qs, rs, a', cls'), w')" by (auto simp: st_bind_Inr_iff)
    then show ?thesis by (rule Cons.IH)
  qed
qed simp

text \<open>Why a pass may break, and what an answer changes.\<close>

definition has_cause :: "agent \<Rightarrow> bool" where
  "has_cause a \<longleftrightarrow> ag_interrupted a \<or> str_truthy (ag_blocked a) \<or> ag_committed a \<or> (ag_edited a \<and> 3 \<le> ag_text_only a)"

definition calls_edit :: "part list \<Rightarrow> bool" where
  "calls_edit ps \<longleftrightarrow> list_ex (\<lambda>c. tc_name c \<in> set EDIT_TOOLS) (part_calls ps)"

definition harmless :: "agent \<Rightarrow> bool" where
  "harmless a \<longleftrightarrow> ''git_commit'' \<notin> set (gr_allowed (ag_guard a))"

lemma say_sel [simp]:
  "ag_guard (say r c a) = ag_guard a" "ag_steps (say r c a) = ag_steps a" "ag_interrupted (say r c a) = ag_interrupted a"
  "ag_committed (say r c a) = ag_committed a" "ag_edited (say r c a) = ag_edited a" "ag_blocked (say r c a) = ag_blocked a"
  "ag_text_only (say r c a) = ag_text_only a" "ag_nudge (say r c a) = ag_nudge a" "ag_messages (say r c a) = ag_messages a @ [\<lparr>msg_role = r, msg_content = c\<rparr>]"
  by (simp_all add: say_def)

lemma nudge_with_sel [simp]:
  "ag_steps (nudge_with s a) = ag_steps a" "ag_interrupted (nudge_with s a) = ag_interrupted a"
  "ag_committed (nudge_with s a) = ag_committed a" "ag_edited (nudge_with s a) = ag_edited a" "ag_blocked (nudge_with s a) = ag_blocked a"
  "ag_text_only (nudge_with s a) = ag_text_only a" "frame (ag_guard (nudge_with s a)) = frame (ag_guard a)"
  by (simp_all add: nudge_with_def)

lemma nudge_step_kept: "nudge_step a = (a', n) \<Longrightarrow> kept a a' \<and> pending a a' \<and> ag_committed a' = ag_committed a"
  by (auto simp: nudge_step_def kept_def pending_def split: option.splits)

lemma read_answer_sel [simp]:
  "ag_guard (read_answer ps a) = ag_guard a" "ag_steps (read_answer ps a) = ag_steps a" "ag_interrupted (read_answer ps a) = ag_interrupted a"
  "ag_committed (read_answer ps a) = ag_committed a" "ag_edited (read_answer ps a) = ag_edited a" "ag_blocked (read_answer ps a) = ag_blocked a"
  "ag_text_only (read_answer ps a) = ag_text_only a" "ag_nudge (read_answer ps a) = ag_nudge a" "ag_messages (read_answer ps a) = ag_messages a"
  by (simp_all add: read_answer_def Let_def)

lemma text_only_step_kept:
  "kept a (flow_agent (text_only_step n a))" "ag_committed (flow_agent (text_only_step n a)) = ag_committed a"
  "text_only_step n a = Stop a' \<Longrightarrow> has_cause a'"
  "ag_edited (flow_agent (text_only_step n a)) = ag_edited a"
  by (auto simp: text_only_step_def Let_def kept_def has_cause_def split: if_splits)

lemma model_failed_kept:
  "kept a (flow_agent (model_failed e a))" "ag_committed (flow_agent (model_failed e a)) = ag_committed a"
  "model_failed e a = Stop a' \<Longrightarrow> has_cause a'"
  "ag_edited (flow_agent (model_failed e a)) = ag_edited a"
  by (auto simp: model_failed_def Let_def kept_def has_cause_def split: if_splits)

lemma reasons_nonempty: "abort_reason c \<noteq> []" "step_limit_reason n \<noteq> []" "cost_reason f g \<noteq> []"
  by (simp_all add: abort_reason_def step_limit_reason_def cost_reason_def)

lemma count_failure_kept:
  "kept a (flow_agent (count_failure cls a))" "ag_committed (flow_agent (count_failure cls a)) = ag_committed a"
  "count_failure cls a = Stop a' \<Longrightarrow> has_cause a'"
  "ag_edited (flow_agent (count_failure cls a)) = ag_edited a" "ag_nudge (flow_agent (count_failure cls a)) = ag_nudge a"
  by (auto simp: count_failure_def Let_def kept_def has_cause_def reasons_nonempty split: if_splits option.splits)

lemma note_edits_kept:
  "kept a (note_edits ps a)" "ag_committed (note_edits ps a) = ag_committed a" "ag_nudge (note_edits ps a) = ag_nudge a"
  "ag_edited (note_edits ps a) = (ag_edited a \<or> calls_edit ps)"
  by (simp_all add: note_edits_def kept_def calls_edit_def)

lemma after_calls_kept:
  "kept a (flow_agent (after_calls ps cls a)) \<and> ag_committed (flow_agent (after_calls ps cls a)) = ag_committed a \<and>
     (ag_edited (flow_agent (after_calls ps cls a)) \<longrightarrow> ag_edited a \<or> calls_edit ps) \<and>
     (\<forall>a'. after_calls ps cls a = Stop a' \<longrightarrow> has_cause a')"
proof (cases "ag_committed a")
  case True
  then show ?thesis by (simp add: after_calls_def has_cause_def)
next
  case False
  let ?b = "a\<lparr>ag_text_only := 0\<rparr>"
  have "kept a ?b" by (simp add: kept_def)
  with False count_failure_kept [where a = ?b and cls = cls] note_edits_kept [where ps = ps] show ?thesis
    by (cases "count_failure cls ?b") (auto simp: after_calls_def intro: kept_trans)
qed

lemma tool_step_kept:
  assumes "tool_step env ps a w = (Inr fl, w')"
  shows "kept a (flow_agent fl)" "harmless a \<Longrightarrow> ag_committed (flow_agent fl) = ag_committed a" "fl = Stop a' \<Longrightarrow> has_cause a'"
    "ag_edited (flow_agent fl) \<longrightarrow> ag_edited a \<or> calls_edit ps"
proof -
  from assms obtain qs rs b cls where
    run: "run_parts env ps a None w = (Inr (qs, rs, b, cls), w')" and
    fl: "fl = after_calls ps cls (say User (Parts rs) (say Assistant (Parts qs) b))"
    by (auto simp: tool_step_def st_bind_Inr_iff)
  note r = run_parts_kept [OF run]
  let ?c = "say User (Parts rs) (say Assistant (Parts qs) b)"
  have c: "kept b ?c" "ag_committed ?c = ag_committed b" by (simp_all add: kept_def)
  note d = after_calls_kept [of ?c ps cls, folded fl]
  show "kept a (flow_agent fl)" using r c d kept_trans by blast
  show "ag_committed (flow_agent fl) = ag_committed a" if "harmless a" using that r c d by (simp add: harmless_def)
  show "has_cause a'" if "fl = Stop a'" using that d by blast
  show "ag_edited (flow_agent fl) \<longrightarrow> ag_edited a \<or> calls_edit ps" using r d by (simp add: pending_def)
qed

lemma answer_step_kept:
  assumes "answer_step env n r a w = (Inr fl, w')"
  shows "kept a (flow_agent fl)" "harmless a \<Longrightarrow> ag_committed (flow_agent fl) = ag_committed a" "fl = Stop a' \<Longrightarrow> has_cause a'"
    "ag_edited (flow_agent fl) \<longrightarrow> ag_edited a \<or> calls_edit (mt_content r)"
proof -
  let ?b = "read_answer (mt_content r) a" and ?c = "say Assistant (Parts (mt_content r)) (read_answer (mt_content r) a)"
  have b: "kept a ?b" "kept a ?c" "harmless ?b = harmless a" by (simp_all add: kept_def harmless_def)
  consider "str_truthy (mt_error r)" "fl = model_failed (the (mt_error r)) a"
    | "fl = text_only_step n ?c"
    | "tool_step env (mt_content r) ?b w = (Inr fl, w')"
    using assms by (auto simp: answer_step_def split: if_splits)
  then have "kept a (flow_agent fl) \<and> (harmless a \<longrightarrow> ag_committed (flow_agent fl) = ag_committed a) \<and> (\<forall>a'. fl = Stop a' \<longrightarrow> has_cause a') \<and>
      (ag_edited (flow_agent fl) \<longrightarrow> ag_edited a \<or> calls_edit (mt_content r))"
  proof cases
    case 1
    then show ?thesis using model_failed_kept by simp
  next
    case 2
    have "kept a (flow_agent fl)" unfolding 2 using b(2) text_only_step_kept(1) by (rule kept_trans)
    moreover have "ag_committed (flow_agent fl) = ag_committed a" unfolding 2 text_only_step_kept(2) by simp
    moreover have "\<forall>a'. fl = Stop a' \<longrightarrow> has_cause a'" unfolding 2 using text_only_step_kept(3) by blast
    moreover have "ag_edited (flow_agent fl) = ag_edited a" unfolding 2 text_only_step_kept(4) by simp
    ultimately show ?thesis by blast
  next
    case 3
    have "kept a (flow_agent fl)" using b(1) tool_step_kept(1) [OF 3] by (rule kept_trans)
    with tool_step_kept(2,3,4) [OF 3] b(3) show ?thesis by simp
  qed
  then show "kept a (flow_agent fl)" "harmless a \<Longrightarrow> ag_committed (flow_agent fl) = ag_committed a" "fl = Stop a' \<Longrightarrow> has_cause a'"
    "ag_edited (flow_agent fl) \<longrightarrow> ag_edited a \<or> calls_edit (mt_content r)"
    by blast+
qed

text \<open>A model call is one step and costs what the turn costs.\<close>

definition charged :: "settings \<Rightarrow> model_turn \<Rightarrow> agent \<Rightarrow> agent \<Rightarrow> bool" where
  "charged st r a a' \<longleftrightarrow>
     ag_steps a' = ag_steps a + 1 \<and> ag_interrupted a' = ag_interrupted a \<and> gr_steps (ag_guard a') = gr_steps (ag_guard a) + 1 \<and>
     gr_max_steps (ag_guard a') = gr_max_steps (ag_guard a) \<and> gr_extensions (ag_guard a') = gr_extensions (ag_guard a) \<and>
     gr_budget (ag_guard a') = gr_budget (ag_guard a) \<and> gr_limits (ag_guard a') = gr_limits (ag_guard a) \<and>
     gr_allowed (ag_guard a') = gr_allowed (ag_guard a) \<and>
     (\<exists>g. gr_cost (ag_guard a') = gr_cost (ag_guard a) + step_cost st r g)"

lemma call_via_provider_returns: "\<exists>r w'. call_via_provider env ms w = (Inr r, w')"
  by (auto simp: call_via_provider_def st_catch_def split: prod.split sum.split)

lemma ask_model_charged:
  assumes "ask_model env a w = (Inr (r, a'), w')"
  shows "charged (ae_settings env) r a a'" "ag_committed a' = ag_committed a" "ag_edited a' = ag_edited a"
    "call_via_provider env (before_model_call (ag_guard a) (ag_messages a)) w = (Inr r, w')"
  using assms by (auto simp: ask_model_def st_bind_Inr_iff after_model_def charged_def settle_after_def split: if_splits)

lemma kept_charged: "kept a b \<Longrightarrow> charged st r b c \<Longrightarrow> kept c d \<Longrightarrow> charged st r a d"
  by (auto simp: kept_def charged_def frame_def)

lemma model_step_charged:
  assumes "model_step env a w = (Inr fl, w')"
  obtains r ms w1 where "charged (ae_settings env) r a (flow_agent fl)" "call_via_provider env ms w = (Inr r, w1)"
    "harmless a \<longrightarrow> ag_committed (flow_agent fl) = ag_committed a" "\<forall>a'. fl = Stop a' \<longrightarrow> has_cause a'"
    "ag_edited (flow_agent fl) \<longrightarrow> ag_edited a \<or> calls_edit (mt_content r)"
proof -
  obtain b n where b: "nudge_step a = (b, n)" by (cases "nudge_step a")
  with assms obtain r c w1 where m: "ask_model env b w = (Inr (r, c), w1)" and s: "answer_step env n r c w1 = (Inr fl, w')"
    by (auto simp: model_step_def st_bind_Inr_iff)
  note k = nudge_step_kept [OF b] and ch = ask_model_charged [OF m] and an = answer_step_kept [OF s]
  have ch': "charged (ae_settings env) r a (flow_agent fl)" using k ch(1) an(1) kept_charged by blast
  have "harmless c" if "harmless a" using that k ch(1) by (auto simp: harmless_def charged_def dest: kept_allowed)
  with k ch(2) an(2) have "harmless a \<longrightarrow> ag_committed (flow_agent fl) = ag_committed a" by simp
  moreover have "ag_edited (flow_agent fl) \<longrightarrow> ag_edited a \<or> calls_edit (mt_content r)" using k ch(3) an(4) by (simp add: pending_def)
  ultimately show thesis using that [OF ch' ch(4)] an(3) by blast
qed

lemma pass_step_limit_cases:
  assumes "pass_step_limit a = Some g"
  obtains "g = ag_guard a" "\<not> check_step_limit (ag_guard a)" | "check_step_limit (ag_guard a)" "grant_extension (ag_guard a) = Some g"
  using assms by (auto simp: pass_step_limit_def split: if_splits)

lemma check_halt_Go:
  assumes "check_halt env w a = Go a'"
  obtains g where "pass_step_limit a = Some g" "a' = a\<lparr>ag_guard := g\<rparr>" "\<not> check_cost_ceiling (ae_elapsed env w) g" "\<not> ae_shutdown env w"
  using assms by (auto simp: check_halt_def split: if_splits option.splits)

lemma check_halt_Stop: "check_halt env w a = Stop a' \<Longrightarrow> has_cause a'"
  by (auto simp: check_halt_def has_cause_def reasons_nonempty str_truthy_def split: if_splits option.splits)

lemma agent_step_cases:
  assumes "agent_step env a w = (Inr fl, w')"
  obtains (halt) a' where "check_halt env w a = Stop a'" "fl = Stop a'" "w' = w"
    | (model) a' where "check_halt env w a = Go a'" "model_step env a' w = (Inr fl, w')"
  using assms by (auto simp: agent_step_def split: flow.splits)

section \<open>The loop ends\<close>

definition extensions_left :: "guardrails \<Rightarrow> nat" where
  "extensions_left g = (case gr_budget g of None \<Rightarrow> 0 | Some b \<Rightarrow> nat (max_extensions b - gr_extensions g))"

definition steps_left :: "guardrails \<Rightarrow> nat" where
  "steps_left g = nat (gr_max_steps g - gr_steps g)"

lemma charged_left:
  "charged st r a a' \<Longrightarrow> extensions_left (ag_guard a') = extensions_left (ag_guard a)"
  "charged st r a a' \<Longrightarrow> \<not> check_step_limit (ag_guard a) \<Longrightarrow> steps_left (ag_guard a') < steps_left (ag_guard a)"
  by (auto simp: charged_def extensions_left_def steps_left_def check_step_limit_def split: option.splits)

lemma extension_uses_one: "grant_extension g = Some g' \<Longrightarrow> extensions_left g' < extensions_left g"
  by (erule grant_extension_SomeE) (auto simp: extensions_left_def)

text \<open>A pass that goes on leaves fewer extensions, or as many and fewer steps.\<close>

lemma agent_step_decreases:
  assumes "agent_step env a w = (Inr (Go a'), w')"
  shows "extensions_left (ag_guard a') < extensions_left (ag_guard a) \<or>
    extensions_left (ag_guard a') = extensions_left (ag_guard a) \<and> steps_left (ag_guard a') < steps_left (ag_guard a)"
  using assms
proof (cases rule: agent_step_cases)
  case (model b)
  from model(1) obtain g where g: "pass_step_limit a = Some g" "b = a\<lparr>ag_guard := g\<rparr>" by (rule check_halt_Go)
  from model(2) obtain r where ch: "charged (ae_settings env) r b a'" by (rule model_step_charged) simp
  from g(1) show ?thesis
  proof (cases rule: pass_step_limit_cases)
    case 1
    with g(2) charged_left [OF ch] show ?thesis by simp
  next
    case 2
    with g(2) charged_left(1) [OF ch] extension_uses_one show ?thesis by simp
  qed
qed simp

function agent_loop :: "'w agent_env \<Rightarrow> agent \<Rightarrow> ('w, agent) store_op" where
  "agent_loop env a w =
     (case agent_step env a w of
        (Inl e, w') \<Rightarrow> (Inl e, w')
      | (Inr (Stop a'), w') \<Rightarrow> (Inr a', w')
      | (Inr (Go a'), w') \<Rightarrow> agent_loop env a' w')"
  by pat_completeness auto
termination
  apply (relation "measures [\<lambda>(_, a, _). extensions_left (ag_guard a), \<lambda>(_, a, _). steps_left (ag_guard a)]")
  apply simp
  apply (auto dest!: agent_step_decreases [OF sym])
  done

declare agent_loop.simps [simp del]

text \<open>What a run keeps and what its last pass leaves.\<close>

lemma agent_loop_ends:
  assumes "agent_loop env a w = (Inr a', w')"
  shows "\<exists>b v. agent_step env b v = (Inr (Stop a'), w')"
  using assms
proof (induction env a w rule: agent_loop.induct)
  case (1 env a w)
  show ?case
  proof (cases "agent_step env a w")
    case (Pair r v)
    show ?thesis
    proof (cases r)
      case (Inr fl)
      show ?thesis
      proof (cases fl)
        case (Go b)
        from "1.prems" have "agent_loop env b v = (Inr a', w')" by (simp add: agent_loop.simps [of env a w] Pair Inr Go)
        from "1.IH" [OF Pair [symmetric] Inr Go this] show ?thesis .
      next
        case (Stop b)
        with "1.prems" Pair Inr have "agent_step env a w = (Inr (Stop a'), w')" by (simp add: agent_loop.simps [of env a w])
        then show ?thesis by blast
      qed
    qed (use "1.prems" Pair in \<open>simp add: agent_loop.simps [of env a w]\<close>)
  qed
qed

lemma agent_loop_invariant:
  assumes "agent_loop env a w = (Inr a', w')" "P a"
    and step: "\<And>a fl w w'. P a \<Longrightarrow> agent_step env a w = (Inr fl, w') \<Longrightarrow> P (flow_agent fl)"
  shows "P a'"
  using assms(1,2)
proof (induction env\<equiv>env a w rule: agent_loop.induct)
  case (1 a w)
  show ?case
  proof (cases "agent_step env a w")
    case (Pair r v)
    show ?thesis
    proof (cases r)
      case (Inr fl)
      have p: "P (flow_agent fl)" using step "1.prems"(2) Pair Inr by blast
      show ?thesis
      proof (cases fl)
        case (Go b)
        from "1.prems"(1) have "agent_loop env b v = (Inr a', w')" by (simp add: agent_loop.simps [of env a w] Pair Inr Go)
        from "1.hyps" [OF Pair [symmetric] Inr Go this] p Go show ?thesis by simp
      next
        case (Stop b)
        with "1.prems"(1) Pair Inr p show ?thesis by (simp add: agent_loop.simps [of env a w])
      qed
    qed (use "1.prems"(1) Pair in \<open>simp add: agent_loop.simps [of env a w]\<close>)
  qed
qed

text \<open>The guard after the checks: as it was, or with an extension at the limit.\<close>

lemma check_halt_guard:
  assumes "check_halt env w a = fl"
  shows "ag_steps (flow_agent fl) = ag_steps a"
    and "ag_guard (flow_agent fl) = ag_guard a \<and> (\<forall>b. fl = Go b \<longrightarrow> \<not> check_step_limit (ag_guard a)) \<or>
      check_step_limit (ag_guard a) \<and> grant_extension (ag_guard a) = Some (ag_guard (flow_agent fl))"
  using assms by (auto simp: check_halt_def pass_step_limit_def split: if_splits option.splits)

definition steps_ok :: "step_budget \<Rightarrow> agent \<Rightarrow> bool" where
  "steps_ok b a \<longleftrightarrow> gr_budget (ag_guard a) = Some b \<and> budget_ok (ag_guard a) \<and> ag_steps a = gr_steps (ag_guard a) \<and>
     gr_steps (ag_guard a) \<le> gr_max_steps (ag_guard a) + gr_extensions (ag_guard a)"

lemma steps_ok_charged:
  assumes "charged st r a a'" "steps_ok b a" "gr_steps (ag_guard a) < gr_max_steps (ag_guard a) + gr_extensions (ag_guard a)"
  shows "steps_ok b a'"
  using assms by (auto simp: charged_def steps_ok_def budget_ok_def)

lemma steps_ok_step:
  assumes "steps_ok b a" "agent_step env a w = (Inr fl, w')"
  shows "steps_ok b (flow_agent fl)"
proof -
  have checked: "steps_ok b (flow_agent fl') \<and>
      (\<forall>a'. fl' = Go a' \<longrightarrow> gr_steps (ag_guard a') < gr_max_steps (ag_guard a') + gr_extensions (ag_guard a'))"
    if "check_halt env w a = fl'" for fl'
    using check_halt_guard(2) [OF that]
  proof
    assume "ag_guard (flow_agent fl') = ag_guard a \<and> (\<forall>b. fl' = Go b \<longrightarrow> \<not> check_step_limit (ag_guard a))"
    with assms(1) check_halt_guard(1) [OF that] show ?thesis by (auto simp: steps_ok_def budget_ok_def check_step_limit_def)
  next
    assume "check_step_limit (ag_guard a) \<and> grant_extension (ag_guard a) = Some (ag_guard (flow_agent fl'))"
    then have e: "grant_extension (ag_guard a) = Some (ag_guard (flow_agent fl'))" by blast
    from budget_ok_extension [OF _ e] assms(1) have "budget_ok (ag_guard (flow_agent fl'))" by (simp add: steps_ok_def)
    with e assms(1) check_halt_guard(1) [OF that] show ?thesis
      by (elim grant_extension_SomeE) (auto simp: steps_ok_def budget_ok_def)
  qed
  from assms(2) show ?thesis
  proof (cases rule: agent_step_cases)
    case (halt a')
    then show ?thesis using checked by simp
  next
    case (model a')
    from model(2) obtain r where "charged (ae_settings env) r a' (flow_agent fl)" by (rule model_step_charged)
    then show ?thesis using checked [OF model(1)] steps_ok_charged by simp
  qed
qed

lemma steps_ok_start:
  assumes "valid_step_budget b"
  shows "steps_ok b (new_agent (set_preamble_len p (new_guardrails allowed n acc (Some b) bounds m)) n ms)"
  using assms by (simp add: steps_ok_def budget_ok_def new_agent_def new_guardrails_def set_preamble_len_def valid_step_budget_def)

text \<open>What one call may cost, and the cost of a run.\<close>

definition costs_at_most :: "rat \<Rightarrow> 'w agent_env \<Rightarrow> bool" where
  "costs_at_most c env \<longleftrightarrow> (\<forall>rq w r w'. ae_generate env rq w = (Inr r, w') \<longrightarrow> lr_cost r \<le> c)"

lemma free_failure: "step_cost st (failed_turn e) g = 0"
  by (simp add: step_cost_def failed_turn_def estimate_cost_for_settings_def estimate_cost_def price_cost_def split: option.split)

lemma turn_cost:
  assumes "costs_at_most c env" "0 \<le> c" "call_via_provider env ms w = (Inr r, w')"
  shows "step_cost st r g \<le> c"
proof (cases "ae_generate env (request_of env ms) w")
  case (Pair x v)
  show ?thesis
  proof (cases x)
    case (Inl e)
    with Pair assms(3) have "r = failed_turn (ae_error_text env e)" by (auto simp: call_via_provider_def st_catch_def st_bind_def)
    with assms(2) free_failure show ?thesis by simp
  next
    case (Inr l)
    with Pair assms(3) have "r = turn_of (ae_model env) l" by (auto simp: call_via_provider_def st_catch_def st_bind_def)
    with Pair Inr assms(1) show ?thesis by (auto simp: costs_at_most_def step_cost_def turn_of_def)
  qed
qed

definition cost_ok :: "rat \<Rightarrow> rat \<Rightarrow> agent \<Rightarrow> bool" where
  "cost_ok limit c a \<longleftrightarrow> task_cost_ceiling (gr_limits (ag_guard a)) = limit \<and> gr_cost (ag_guard a) < limit + c"

lemma cost_ok_guard:
  "cost_ok limit c a \<Longrightarrow> grant_extension (ag_guard a) = Some g \<Longrightarrow> ag_guard b = g \<Longrightarrow> cost_ok limit c b"
  by (auto simp: cost_ok_def elim: grant_extension_SomeE)

lemma cost_ok_step:
  assumes "cost_ok limit c a" "agent_step env a w = (Inr fl, w')" "costs_at_most c env" "0 \<le> c"
  shows "cost_ok limit c (flow_agent fl)"
proof -
  have checked: "cost_ok limit c (flow_agent fl')" if "check_halt env w a = fl'" for fl'
    using check_halt_guard(2) [OF that]
  proof
    assume "ag_guard (flow_agent fl') = ag_guard a \<and> (\<forall>b. fl' = Go b \<longrightarrow> \<not> check_step_limit (ag_guard a))"
    then show ?thesis using assms(1) by (simp add: cost_ok_def)
  next
    assume "check_step_limit (ag_guard a) \<and> grant_extension (ag_guard a) = Some (ag_guard (flow_agent fl'))"
    then show ?thesis using cost_ok_guard [OF assms(1)] by blast
  qed
  from assms(2) show ?thesis
  proof (cases rule: agent_step_cases)
    case (halt a')
    then show ?thesis using checked by simp
  next
    case (model a')
    from model(1) have below: "gr_cost (ag_guard a') < limit" using checked [OF model(1)]
      by (elim check_halt_Go) (auto simp: check_cost_ceiling_def cost_ok_def)
    from model(2) obtain r ms v where ch: "charged (ae_settings env) r a' (flow_agent fl)" and "call_via_provider env ms w = (Inr r, v)"
      by (rule model_step_charged)
    have le: "step_cost (ae_settings env) r g \<le> c" for g
      using assms(3,4) \<open>call_via_provider env ms w = (Inr r, v)\<close> by (rule turn_cost)
    obtain g where "gr_cost (ag_guard (flow_agent fl)) = gr_cost (ag_guard a') + step_cost (ae_settings env) r g"
      "gr_limits (ag_guard (flow_agent fl)) = gr_limits (ag_guard a')" using ch unfolding charged_def by blast
    with below checked [OF model(1)] le [of g] show ?thesis by (simp add: cost_ok_def)
  qed
qed
end
