(* ===== verification/Arsenal.thy ===== *)
theory Arsenal
  imports AgentRun Schemes
begin

text \<open>
  The tools of an operative: the registry (\<open>arsenal/registry.py\<close>), every tool the modules under
  \<open>arsenal/tools\<close> register, the boundary of the workspace (\<open>arsenal/_workspace.py\<close>), the repository slug
  (\<open>arsenal/_repo.py\<close>) and the tools a scheme node is given (\<open>_fetch_arsenal_tools\<close>).
\<close>

section \<open>The registry\<close>

record arsenal_tool =
  at_name :: string
  at_description :: string
  at_category :: string
  at_destructive :: bool
  at_parameters :: "(string, annotation \<times> bool) dict"

record tool_registry =
  rg_tools :: "(string, arsenal_tool) dict"
  rg_categories :: "(string, string list) dict"

definition empty_tools :: tool_registry where
  "empty_tools = \<lparr>rg_tools = [], rg_categories = []\<rparr>"

definition register_tool :: "arsenal_tool \<Rightarrow> tool_registry \<Rightarrow> tool_registry" where
  "register_tool t r =
     (let names = dict_get_or (rg_categories r) (at_category t) [] in
      \<lparr>rg_tools = dict_set (rg_tools r) (at_name t) t,
       rg_categories = dict_set (rg_categories r) (at_category t) (if at_name t \<in> set names then names else names @ [at_name t])\<rparr>)"

fun tool_set_name :: "tool_set \<Rightarrow> string" where
  "tool_set_name TS_code_edit = ''code_edit''"
| "tool_set_name TS_code_intel = ''code_intel''"
| "tool_set_name TS_context = ''context''"
| "tool_set_name TS_git_ops = ''git_ops''"
| "tool_set_name TS_github = ''github''"
| "tool_set_name TS_jira = ''jira''"
| "tool_set_name TS_slack = ''slack''"
| "tool_set_name TS_test_runner = ''test_runner''"

definition offered_tool :: "bool \<Rightarrow> tool_registry \<Rightarrow> string \<Rightarrow> arsenal_tool option" where
  "offered_tool allow r n =
     (case dict_get (rg_tools r) n of None \<Rightarrow> None | Some t \<Rightarrow> if at_destructive t \<and> \<not> allow then None else Some t)"

definition get_tools_for_requirement :: "tool_registry \<Rightarrow> arsenal_requirement \<Rightarrow> arsenal_tool list" where
  "get_tools_for_requirement r req =
     concat (map (\<lambda>ts. List.map_filter (offered_tool (allow_destructive req) r) (dict_get_or (rg_categories r) (tool_set_name ts) []))
       (tool_sets req))"

definition get_tool :: "tool_registry \<Rightarrow> string \<Rightarrow> arsenal_tool option" where
  "get_tool r n = dict_get (rg_tools r) n"

definition list_categories :: "tool_registry \<Rightarrow> string list" where
  "list_categories r = sort (dict_keys (rg_categories r))"

definition list_tools :: "tool_registry \<Rightarrow> string option \<Rightarrow> string list" where
  "list_tools r c = (case c of None \<Rightarrow> dict_keys (rg_tools r) | Some k \<Rightarrow> dict_get_or (rg_categories r) k [])"

section \<open>The registered tools\<close>

text \<open>The parameters with their annotations and whether they have a default; a dash outside the model is a hyphen.\<close>

definition arsenal_tool :: "string \<Rightarrow> string \<Rightarrow> bool \<Rightarrow> (string, annotation \<times> bool) dict \<Rightarrow> string \<Rightarrow> arsenal_tool" where
  "arsenal_tool n c destructive ps d =
     \<lparr>at_name = n, at_description = d, at_category = c, at_destructive = destructive, at_parameters = ps\<rparr>"

definition code_edit_tools :: "arsenal_tool list" where
  "code_edit_tools =
     [arsenal_tool ''file_write'' ''code_edit'' False
        [(''path'', StrType, False), (''content'', StrType, False)]
        (''Write or overwrite a file with the given content.''),
      arsenal_tool ''file_edit'' ''code_edit'' False
        [(''path'', StrType, False), (''old_text'', StrType, False), (''new_text'', StrType, False)]
        (''Replace text in a file. Tries exact match first, then whitespace-normalized match. If '' @
        ''old_text is not found, use file_write to overwrite the entire file instead.''),
      arsenal_tool ''file_create'' ''code_edit'' False
        [(''path'', StrType, False), (''content'', StrType, False)]
        (''Create a new file with the given content. Fails if the file already exists.''),
      arsenal_tool ''file_insert_at_line'' ''code_edit'' False
        [(''path'', StrType, False), (''line_number'', IntType, False), (''text'', StrType, False)]
        (''Insert text at a specific line number in a file. Line 1 inserts at the top. Use this '' @
        ''instead of file_edit when you want to add new content at a specific location.''),
      arsenal_tool ''file_delete'' ''code_edit'' True
        [(''path'', StrType, False)]
        (''Delete a file from the filesystem. This operation is destructive and cannot be undone.'')]"

definition code_intel_tools :: "arsenal_tool list" where
  "code_intel_tools =
     [arsenal_tool ''file_read'' ''code_intel'' False
        [(''path'', StrType, False), (''start_line'', IntType, True), (''end_line'', OtherType, True)]
        (''Read file contents, optionally sliced to a line range.''),
      arsenal_tool ''file_search'' ''code_intel'' False
        [(''pattern'', StrType, False), (''directory'', StrType, True), (''file_glob'', StrType, True)]
        (''Search for files matching a glob pattern under a directory. Skips node_modules, .git, '' @
        ''dist and other build output, and returns at most 200 paths.''),
      arsenal_tool ''symbol_lookup'' ''code_intel'' False
        [(''symbol'', StrType, False), (''directory'', StrType, True), (''working_dir'', StrType, True)]
        (''Find class, function, type and constant definitions matching a symbol name. Searches '' @
        ''Python, JS/TS, Go, Rust and Java sources.''),
      arsenal_tool ''grep_search'' ''code_intel'' False
        [(''pattern'', StrType, False), (''directory'', StrType, True), (''file_glob'', StrType, True), (''context_lines'', IntType, True), (''working_dir'', StrType, True)]
        (''Search file contents with a regex pattern, returning matches with context.''),
      arsenal_tool ''ast_analysis'' ''code_intel'' False
        [(''path'', StrType, False)]
        (''List top-level classes and functions in a Python file using the ast module.'')]"

definition context_tools :: "arsenal_tool list" where
  "context_tools =
     [arsenal_tool ''semantic_search'' ''context'' False
        [(''query'', StrType, False), (''top_k'', IntType, True)]
        (''Query the code vector index for chunks semantically related to a natural-language query. '' @
        ''Use when you need to find code related to a concept, error, or feature. Do NOT use for '' @
        ''exact string matching - use file_search instead.''),
      arsenal_tool ''find_related'' ''context'' False
        [(''file_path'', StrType, False), (''depth'', IntType, True)]
        (''Parse imports in a source file and return related files up to a given depth. Use when you '' @
        ''need to discover the dependency graph around a file. Do NOT use as a substitute for '' @
        ''reading the file - use file_read instead.'')]"

definition git_ops_tools :: "arsenal_tool list" where
  "git_ops_tools =
     [arsenal_tool ''git_branch_create'' ''git_ops'' False
        [(''branch_name'', StrType, False), (''base_branch'', StrType, True), (''working_dir'', StrType, True)]
        (''Create and checkout a new git branch from a base branch. Omit base_branch to branch from '' @
        ''the repository's default branch (which is not always 'main').''),
      arsenal_tool ''git_commit'' ''git_ops'' False
        [(''message'', StrType, False), (''files'', OtherType, True), (''working_dir'', StrType, True)]
        (''Stage specified files (or all changes) and create a commit with the given message.''),
      arsenal_tool ''git_push'' ''git_ops'' False
        [(''branch'', OtherType, True), (''working_dir'', StrType, True)]
        (''Push the current branch to the remote, setting upstream. Refuses to target a protected '' @
        ''branch (main/master/develop/trunk/release*) - Henchmen delivers work through pull '' @
        ''requests.''),
      arsenal_tool ''git_force_push'' ''git_ops'' True
        [(''branch'', OtherType, True), (''working_dir'', StrType, True)]
        (''Force-push a Henchmen branch to the remote. DESTRUCTIVE and DISABLED BY DEFAULT. Requires '' @
        ''HENCHMEN_ALLOW_FORCE_PUSH=true in the operative settings and refuses to target any '' @
        ''protected branch (main/master/develop/trunk/release*). An explicit branch name is '' @
        ''required - current-HEAD force-pushes are rejected.''),
      arsenal_tool ''git_diff'' ''git_ops'' False
        [(''staged'', BoolType, True), (''working_dir'', StrType, True)]
        (''Show git diff of working tree changes, or staged changes when staged=True.''),
      arsenal_tool ''git_log'' ''git_ops'' False
        [(''max_count'', IntType, True), (''working_dir'', StrType, True)]
        (''Show recent git commit log entries.''),
      arsenal_tool ''git_status'' ''git_ops'' False
        [(''working_dir'', StrType, True)]
        (''Show the working tree status (modified, staged, untracked files).'')]"

definition github_tools :: "arsenal_tool list" where
  "github_tools =
     [arsenal_tool ''create_pull_request'' ''github'' False
        [(''title'', StrType, False), (''body'', StrType, False), (''head_branch'', StrType, False), (''base_branch'', StrType, True), (''labels'', OtherType, True)]
        (''Create a GitHub pull request from head_branch into base_branch.''),
      arsenal_tool ''comment_on_pr'' ''github'' False
        [(''pr_number'', IntType, False), (''body'', StrType, False)]
        (''Add a comment to a GitHub pull request.''),
      arsenal_tool ''label_issue'' ''github'' False
        [(''issue_number'', IntType, False), (''labels'', ListType, False)]
        (''Add labels to a GitHub issue.''),
      arsenal_tool ''assign_issue'' ''github'' False
        [(''issue_number'', IntType, False), (''assignees'', ListType, False)]
        (''Assign users to a GitHub issue.''),
      arsenal_tool ''fetch_issues'' ''github'' False
        [(''state'', StrType, True), (''labels'', OtherType, True), (''max_results'', IntType, True)]
        (''Fetch GitHub issues filtered by state and optional labels.'')]"

definition jira_tools :: "arsenal_tool list" where
  "jira_tools =
     [arsenal_tool ''add_comment'' ''jira'' False
        [(''issue_key'', StrType, False), (''body'', StrType, False)]
        (''Add a comment to a Jira issue.''),
      arsenal_tool ''transition_issue'' ''jira'' False
        [(''issue_key'', StrType, False), (''transition_name'', StrType, False)]
        (''Move a Jira issue through its workflow. Accepts either the transition name (e.g. 'Start '' @
        ''Progress') or the destination status name (e.g. 'In Progress'). Use to reflect task '' @
        ''progress on the originating issue. Do NOT use to edit issue fields or to comment -- use '' @
        ''add_comment for that.''),
      arsenal_tool ''fetch_issue'' ''jira'' False
        [(''issue_key'', StrType, False)]
        (''Fetch the details of a Jira issue by its key.'')]"

definition slack_tools :: "arsenal_tool list" where
  "slack_tools =
     [arsenal_tool ''post_message'' ''slack'' False
        [(''channel'', StrType, False), (''text'', StrType, False), (''thread_ts'', OtherType, True)]
        (''Post a message to a Slack channel. Optionally reply to an existing thread.''),
      arsenal_tool ''thread_reply'' ''slack'' False
        [(''channel'', StrType, False), (''thread_ts'', StrType, False), (''text'', StrType, False)]
        (''Reply to an existing Slack thread.''),
      arsenal_tool ''upload_file'' ''slack'' False
        [(''channel'', StrType, False), (''file_path'', StrType, False), (''title'', OtherType, True)]
        (''Upload a file to a Slack channel.'')]"

definition test_runner_tools :: "arsenal_tool list" where
  "test_runner_tools =
     [arsenal_tool ''run_tests'' ''test_runner'' False
        [(''test_path'', StrType, True), (''args'', OtherType, True), (''working_dir'', StrType, True)]
        (''Run tests. Auto-detects project type: uses pytest for Python, pnpm/npm test for Node.js. '' @
        ''In monorepos, scopes to affected packages so pre-existing failures don't block.''),
      arsenal_tool ''run_lint'' ''test_runner'' False
        [(''path'', StrType, True), (''fix'', BoolType, True), (''working_dir'', StrType, True)]
        (''Run linter. Auto-detects project type: uses ruff for Python, eslint for Node.js. In '' @
        ''monorepos, scopes to affected packages so pre-existing lint failures don't block. Set '' @
        ''fix=True to auto-fix.''),
      arsenal_tool ''type_check'' ''test_runner'' False
        [(''path'', StrType, True), (''working_dir'', StrType, True)]
        (''Run type checker. Auto-detects project type: uses mypy for Python, tsc for TypeScript.'')]"

definition all_tools :: "arsenal_tool list" where
  "all_tools =
     code_edit_tools @ code_intel_tools @ context_tools @ git_ops_tools @ github_tools @ jira_tools @ slack_tools @ test_runner_tools"

definition arsenal :: tool_registry where
  "arsenal = fold register_tool all_tools empty_tools"

section \<open>The tools of a node\<close>

definition declaration_of :: "arsenal_tool \<Rightarrow> tool_declaration" where
  "declaration_of t =
     \<lparr>td_name = at_name t, td_description = at_description t, td_schema = build_json_schema (at_parameters t)\<rparr>"

definition node_tools :: "tool_registry \<Rightarrow> scheme_node \<Rightarrow> arsenal_tool list" where
  "node_tools r n = (case sn_arsenal n of None \<Rightarrow> [] | Some req \<Rightarrow> get_tools_for_requirement r req)"

text \<open>The declarations, and the handlers by name: the handler of a tool is what its module runs.\<close>

definition fetch_arsenal_tools ::
  "tool_registry \<Rightarrow> (string \<Rightarrow> doc \<Rightarrow> ('w, json) store_op) \<Rightarrow> scheme_node \<Rightarrow>
     tool_declaration list \<times> (string, doc \<Rightarrow> ('w, json) store_op) dict" where
  "fetch_arsenal_tools r run n =
     (map declaration_of (node_tools r n), fold (\<lambda>t d. dict_set d (at_name t) (run (at_name t))) (node_tools r n) [])"

section \<open>The workspace\<close>

text \<open>
  \<open>ensure_in_workspace\<close>: the real path, or the text of a \<open>PermissionError\<close>. The expansion of a tilde and
  the canonical path are the outside's; \<open>None\<close> of \<open>common_path\<close> is the \<open>ValueError\<close> of different drives.
\<close>

record path_ops =
  po_expand :: "string \<Rightarrow> string"
  po_real :: "string \<Rightarrow> string"

definition ensure_in_workspace :: "path_ops \<Rightarrow> string \<Rightarrow> string \<Rightarrow> string + string" where
  "ensure_in_workspace po rt path =
     (if path = [] then Inl ''workspace path must be a non-empty string''
      else (let c = po_expand po path; resolved = po_real po (if is_abs c then c else path_join rt c) in
        case common_path resolved rt of
          None \<Rightarrow> Inl (''Path '' @ quoted path @ '' is on a different filesystem root than workspace '' @ quoted rt)
        | Some common \<Rightarrow>
            if common \<noteq> rt
            then Inl (''Path '' @ quoted path @ '' (resolved: '' @ quoted resolved @ '') escapes workspace root '' @ quoted rt)
            else Inr resolved))"

definition current_workspace_dir :: "path_ops \<Rightarrow> string \<Rightarrow> string \<Rightarrow> string" where
  "current_workspace_dir po rt dir = (case ensure_in_workspace po rt dir of Inr p \<Rightarrow> p | Inl _ \<Rightarrow> rt)"

text \<open>The directories below a canonical root.\<close>

definition inside :: "string \<Rightarrow> string \<Rightarrow> bool" where
  "inside rt p \<longleftrightarrow> prefix (components rt) (components p)"

lemma ensure_in_workspace_inside:
  assumes "ensure_in_workspace po rt path = Inr p" "canonical rt" "\<And>q. is_abs (po_real po q)"
  shows "inside rt p"
proof -
  define c where "c = po_expand po path"
  define q where "q = po_real po (if is_abs c then c else path_join rt c)"
  from assms(1) have "common_path q rt = Some rt \<and> p = q"
    by (auto simp: ensure_in_workspace_def Let_def c_def q_def split: if_splits option.splits)
  moreover have "is_abs q" unfolding q_def by (rule assms(3))
  ultimately show ?thesis using common_path_canonical [OF assms(2), of q] by (simp add: inside_def)
qed

section \<open>The repository\<close>

definition http_prefixes :: "string list" where
  "http_prefixes = [''https://github.com/'', ''http://github.com/'', ''git@github.com:'', ''ssh://git@github.com/'']"

definition strip_slashes :: "string \<Rightarrow> string" where
  "strip_slashes s = (let slash = (\<lambda>c. c = CHR 0x2F) in rev (dropWhile slash (rev (dropWhile slash s))))"

definition drop_suffix :: "string \<Rightarrow> string \<Rightarrow> string" where
  "drop_suffix suf s = (if suffix suf s then take (length s - length suf) s else s)"

definition normalize_repo_slug :: "string \<Rightarrow> string" where
  "normalize_repo_slug url =
     (let v = py_strip url;
          v1 = (case find (\<lambda>p. prefix p v) http_prefixes of None \<Rightarrow> v | Some p \<Rightarrow> drop (length p) v);
          parts = filter (\<lambda>p. p \<noteq> []) (split_on CHR 0x2F (drop_suffix ''.git'' (strip_slashes v1)))
      in if v = [] \<or> length parts \<noteq> 2 then [] else join_with ''/'' parts)"

definition current_repo_slug :: "string \<Rightarrow> string \<Rightarrow> string" where
  "current_repo_slug repo_url default_repo =
     (let s = normalize_repo_slug repo_url in if s \<noteq> [] then s else normalize_repo_slug default_repo)"

section \<open>What the registry guarantees\<close>

lemma offered_tool_Some: "offered_tool allow r n = Some t \<Longrightarrow> dict_get (rg_tools r) n = Some t \<and> (at_destructive t \<longrightarrow> allow)"
  by (auto simp: offered_tool_def split: option.splits if_splits)

lemma requirement_tools:
  assumes "t \<in> set (get_tools_for_requirement r req)"
  shows "\<exists>n. dict_get (rg_tools r) n = Some t" "at_destructive t \<Longrightarrow> allow_destructive req"
proof -
  from assms obtain n where "offered_tool (allow_destructive req) r n = Some t"
    by (auto simp: get_tools_for_requirement_def List.map_filter_def)
  from offered_tool_Some [OF this] show "\<exists>n. dict_get (rg_tools r) n = Some t" "at_destructive t \<Longrightarrow> allow_destructive req"
    by blast+
qed

text \<open>A registry built by registration: a tool sits under its name, and every name of a category is a tool.\<close>

definition registry_ok :: "tool_registry \<Rightarrow> bool" where
  "registry_ok r \<longleftrightarrow>
     (\<forall>n t. dict_get (rg_tools r) n = Some t \<longrightarrow> at_name t = n \<and> n \<in> set (dict_get_or (rg_categories r) (at_category t) [])) \<and>
     (\<forall>c n. n \<in> set (dict_get_or (rg_categories r) c []) \<longrightarrow> dict_get (rg_tools r) n \<noteq> None) \<and>
     (\<forall>c. distinct (dict_get_or (rg_categories r) c []))"

lemma empty_tools_ok: "registry_ok empty_tools"
  by (simp add: registry_ok_def empty_tools_def)

lemma register_tool_ok:
  assumes "registry_ok r"
  shows "registry_ok (register_tool t r)"
proof -
  have tools: "at_name u = n" "at_category u = c \<Longrightarrow> n \<in> set (dict_get_or (rg_categories r) c [])"
    if "dict_get (rg_tools r) n = Some u" for n u c
    using assms that by (auto simp: registry_ok_def)
  have names: "dict_get (rg_tools r) n \<noteq> None" if "n \<in> set (dict_get_or (rg_categories r) c [])" for c n
    using assms that by (auto simp: registry_ok_def)
  show ?thesis using tools names assms
    by (auto simp: registry_ok_def register_tool_def Let_def split: if_splits)
qed

lemma fold_register_ok: "registry_ok r \<Longrightarrow> registry_ok (fold register_tool ts r)"
  by (induction ts arbitrary: r) (auto intro: register_tool_ok)

lemma arsenal_ok: "registry_ok arsenal"
  unfolding arsenal_def by (rule fold_register_ok [OF empty_tools_ok])

text \<open>What registration of tools with different names builds.\<close>

lemma registered:
  assumes "distinct (map at_name (us @ ts))" "registry_ok r"
    "\<And>n. dict_get (rg_tools r) n = map_of (map (\<lambda>t. (at_name t, t)) us) n"
    "\<And>c. dict_get_or (rg_categories r) c [] = map at_name (filter (\<lambda>t. at_category t = c) us)"
  shows "dict_get (rg_tools (fold register_tool ts r)) n = map_of (map (\<lambda>t. (at_name t, t)) (us @ ts)) n"
    "dict_get_or (rg_categories (fold register_tool ts r)) c [] = map at_name (filter (\<lambda>t. at_category t = c) (us @ ts))"
proof -
  have "dict_get (rg_tools (fold register_tool ts r)) n = map_of (map (\<lambda>t. (at_name t, t)) (us @ ts)) n \<and>
    dict_get_or (rg_categories (fold register_tool ts r)) c [] = map at_name (filter (\<lambda>t. at_category t = c) (us @ ts))"
    using assms
  proof (induction ts arbitrary: us r)
    case (Cons t ts)
    have "at_name t \<notin> at_name ` set us" using Cons.prems(1) by auto
    then have new: "at_name t \<notin> set (map at_name (filter (\<lambda>u. at_category u = at_category t) us))"
      "map_of (map (\<lambda>t. (at_name t, t)) us) (at_name t) = None" by (auto simp: map_of_eq_None_iff image_image)
    have tools: "dict_get (rg_tools (register_tool t r)) m = map_of (map (\<lambda>t. (at_name t, t)) (us @ [t])) m" for m
      using new(2) by (auto simp: register_tool_def Let_def Cons.prems(3) map_add_def split: option.split)
    have cats: "dict_get_or (rg_categories (register_tool t r)) c [] = map at_name (filter (\<lambda>t. at_category t = c) (us @ [t]))" for c
      using new(1) by (simp add: register_tool_def Let_def Cons.prems(4))
    have "distinct (map at_name ((us @ [t]) @ ts))" using Cons.prems(1) by simp
    from Cons.IH [OF this register_tool_ok [OF Cons.prems(2)] tools cats] show ?case by simp
  qed simp
  then show "dict_get (rg_tools (fold register_tool ts r)) n = map_of (map (\<lambda>t. (at_name t, t)) (us @ ts)) n"
    "dict_get_or (rg_categories (fold register_tool ts r)) c [] = map at_name (filter (\<lambda>t. at_category t = c) (us @ ts))"
    by blast+
qed

lemmas tool_lists = code_edit_tools_def code_intel_tools_def context_tools_def git_ops_tools_def github_tools_def jira_tools_def
  slack_tools_def test_runner_tools_def

lemma distinct_tools: "distinct (map at_name all_tools)"
  by (simp add: all_tools_def tool_lists arsenal_tool_def)

lemma arsenal_lookup:
  "dict_get (rg_tools arsenal) n = map_of (map (\<lambda>t. (at_name t, t)) all_tools) n"
  "dict_get_or (rg_categories arsenal) c [] = map at_name (filter (\<lambda>t. at_category t = c) all_tools)"
  using registered(1) [where us = "[]" and ts = all_tools and r = empty_tools and n = n]
    registered(2) [where us = "[]" and ts = all_tools and r = empty_tools and c = c] distinct_tools empty_tools_ok
  by (simp_all add: arsenal_def) (simp_all add: empty_tools_def)

lemma arsenal_tools:
  "get_tools_for_requirement arsenal req =
     concat (map (\<lambda>s. filter (\<lambda>t. at_category t = tool_set_name s \<and> (at_destructive t \<longrightarrow> allow_destructive req)) all_tools) (tool_sets req))"
proof -
  have one: "List.map_filter (offered_tool allow arsenal) (map at_name us) = filter (\<lambda>t. at_destructive t \<longrightarrow> allow) us"
    if "set us \<subseteq> set all_tools" for us allow
    using that
  proof (induction us)
    case (Cons u us)
    have "dict_get (rg_tools arsenal) (at_name u) = Some u" unfolding arsenal_lookup
      by (rule map_of_is_SomeI) (use Cons.prems distinct_tools in \<open>auto simp: comp_def\<close>)
    with Cons show ?case by (simp add: List.map_filter_def offered_tool_def)
  qed (simp add: List.map_filter_def)
  show ?thesis unfolding get_tools_for_requirement_def arsenal_lookup(2)
    by (intro arg_cong [where f = concat] map_cong refl, subst one) (auto intro: filter_cong)
qed

lemma module_tools:
  "filter (\<lambda>t. at_category t = c \<and> \<not> at_destructive t) code_edit_tools = (if c = ''code_edit'' then butlast code_edit_tools else [])"
  "filter (\<lambda>t. at_category t = c \<and> \<not> at_destructive t) code_intel_tools = (if c = ''code_intel'' then code_intel_tools else [])"
  "filter (\<lambda>t. at_category t = c \<and> \<not> at_destructive t) context_tools = (if c = ''context'' then context_tools else [])"
  "filter (\<lambda>t. at_category t = c \<and> \<not> at_destructive t) git_ops_tools =
     (if c = ''git_ops'' then filter (\<lambda>t. \<not> at_destructive t) git_ops_tools else [])"
  "filter (\<lambda>t. at_category t = c \<and> \<not> at_destructive t) github_tools = (if c = ''github'' then github_tools else [])"
  "filter (\<lambda>t. at_category t = c \<and> \<not> at_destructive t) jira_tools = (if c = ''jira'' then jira_tools else [])"
  "filter (\<lambda>t. at_category t = c \<and> \<not> at_destructive t) slack_tools = (if c = ''slack'' then slack_tools else [])"
  "filter (\<lambda>t. at_category t = c \<and> \<not> at_destructive t) test_runner_tools = (if c = ''test_runner'' then test_runner_tools else [])"
  by (simp_all add: tool_lists arsenal_tool_def)

lemma tools_of_nodes:
  "node_tools arsenal analyze_goal_node = code_intel_tools"
  "node_tools arsenal fix_tests_node = butlast code_edit_tools @ test_runner_tools @ code_intel_tools"
  "node_tools arsenal implement_fix_node =
     code_intel_tools @ butlast code_edit_tools @ filter (\<lambda>t. \<not> at_destructive t) git_ops_tools @ test_runner_tools @ context_tools"
  "node_tools arsenal implement_feature_node = node_tools arsenal implement_fix_node"
  by (simp_all add: node_tools_def arsenal_tools analyze_goal_node_def fix_tests_node_def implement_fix_node_def implement_feature_node_def
      all_tools_def module_tools)


text \<open>
  The tools a requirement grants are exactly the registered tools of its tool sets, without the
  destructive ones unless it allows them.
\<close>

lemma granted_tools:
  "set (get_tools_for_requirement arsenal req) =
     {t \<in> set all_tools. at_category t \<in> tool_set_name ` set (tool_sets req) \<and> \<not> (at_destructive t \<and> \<not> allow_destructive req)}"
  unfolding arsenal_tools by auto

text \<open>
  What the nodes cannot do: the analysis of a goal only reads, and the node that fixes tests edits but has
  no tool to commit with, though its instruction asks for a commit.
\<close>

lemma analysis_only_reads:
  "set (map at_name (node_tools arsenal analyze_goal_node)) \<inter> set EDIT_TOOLS = {}"
  "''git_commit'' \<notin> set (map at_name (node_tools arsenal analyze_goal_node))"
  unfolding tools_of_nodes by (simp_all add: tool_lists arsenal_tool_def EDIT_TOOLS_def)

lemma fix_tests_cannot_commit:
  "''git_commit'' \<notin> set (map at_name (node_tools arsenal fix_tests_node))"
  "''file_edit'' \<in> set (map at_name (node_tools arsenal fix_tests_node))"
  unfolding tools_of_nodes by (simp_all add: tool_lists arsenal_tool_def)

lemma implement_nodes_commit:
  "''git_commit'' \<in> set (map at_name (node_tools arsenal implement_fix_node))"
  "''git_commit'' \<in> set (map at_name (node_tools arsenal implement_feature_node))"
  unfolding tools_of_nodes by (simp_all add: tool_lists arsenal_tool_def)

end
