(* ===== verification/CodeEdit.thy ===== *)
theory CodeEdit
  imports Arsenal
begin

text \<open>
  The editing tools (\<open>arsenal/tools/code_edit.py\<close>) and the reading tool (\<open>arsenal/tools/code_intel.py\<close>) on
  a file system that is an operation of the outside. A file opened in text mode is read with its line ends
  translated, \<open>read_text\<close>, and written as it is.
\<close>

section \<open>Lines\<close>

text \<open>\<open>s.splitlines(keepends=True)\<close>.\<close>

fun lines_keep :: "string \<Rightarrow> string list" where
  "lines_keep [] = []"
| "lines_keep (c # s) =
     (if c = CHR 0x0D \<and> s \<noteq> [] \<and> hd s = CHR 0x0A then [[c, CHR 0x0A]] @ lines_keep (tl s)
      else if is_linebreak c then [c] # lines_keep s
      else (case lines_keep s of [] \<Rightarrow> [[c]] | l # ls \<Rightarrow> (c # l) # ls))"

text \<open>The lines of an open file: only a line feed ends one after the translation.\<close>

fun file_lines :: "string \<Rightarrow> string list" where
  "file_lines [] = []"
| "file_lines (c # s) =
     (if c = CHR 0x0A then [c] # file_lines s
      else (case file_lines s of [] \<Rightarrow> [[c]] | l # ls \<Rightarrow> (c # l) # ls))"

text \<open>Universal newlines: a carriage return, with the line feed after it, is read as a line feed.\<close>

fun read_text :: "string \<Rightarrow> string" where
  "read_text [] = []"
| "read_text (c # s) =
     (if c = CHR 0x0D then CHR 0x0A # (case s of d # t \<Rightarrow> if d = CHR 0x0A then read_text t else read_text s | [] \<Rightarrow> [])
      else c # read_text s)"

definition unix_lines :: "string \<Rightarrow> string" where
  "unix_lines s = py_replace [CHR 0x0D, CHR 0x0A] [CHR 0x0A] s"

text \<open>\<open>_normalize\<close>; the typographic characters beyond code point 255 do not occur in the model.\<close>

definition normalize_text :: "string \<Rightarrow> string" where
  "normalize_text s =
     map (\<lambda>c. if c = CHR 0xA0 then CHR 0x20 else c)
       (join_with [CHR 0x0A] (map py_rstrip (split_on CHR 0x0A (unix_lines s))))"

definition strip_newlines :: "string \<Rightarrow> string" where
  "strip_newlines s = (let nl = (\<lambda>c. c = CHR 0x0A) in rev (dropWhile nl (rev (dropWhile nl s))))"

text \<open>The first position from which the lines are the wanted ones.\<close>

definition find_span :: "string list \<Rightarrow> string list \<Rightarrow> nat option" where
  "find_span old ls = find (\<lambda>i. take (length old) (drop i ls) = old) [0..<Suc (length ls) - length old]"

definition replacement_block :: "bool \<Rightarrow> bool \<Rightarrow> string \<Rightarrow> string" where
  "replacement_block crlf ends_with_newline new =
     (let newline = (if crlf then [CHR 0x0D, CHR 0x0A] else [CHR 0x0A]);
          ls = split_on CHR 0x0A (unix_lines new);
          ls' = (if ls \<noteq> [] \<and> last ls = [] then butlast ls else ls);
          block = join_with newline ls'
      in if block \<noteq> [] \<and> ends_with_newline then block @ newline else block)"

definition ends_with_lf :: "string \<Rightarrow> bool" where
  "ends_with_lf l \<longleftrightarrow> l \<noteq> [] \<and> last l = CHR 0x0A"

definition splice_normalized :: "string \<Rightarrow> string \<Rightarrow> string \<Rightarrow> string option" where
  "splice_normalized orig old new =
     (let orig_lines = lines_keep orig;
          norm_lines = map normalize_text (py_splitlines orig);
          old_lines = map normalize_text (split_on CHR 0x0A (strip_newlines (unix_lines old)));
          k = length old_lines
      in case find_span old_lines norm_lines of
           None \<Rightarrow> None
         | Some i \<Rightarrow>
             Some (concat (take i orig_lines) @
               replacement_block (contains_str [CHR 0x0D, CHR 0x0A] orig) (ends_with_lf (orig_lines ! (i + k - 1))) new @
               concat (drop (i + k) orig_lines)))"

section \<open>The file system\<close>

text \<open>
  \<open>fo_read\<close> and \<open>fo_write\<close> exchange the characters of a file; \<open>fo_create\<close> writes a file that must not
  exist. An exception has a text; two classes of it are told apart.
\<close>

record 'w file_ops =
  fo_paths :: "'w \<Rightarrow> path_ops"
  fo_root :: string
  fo_exists :: "string \<Rightarrow> ('w, bool) store_op"
  fo_isdir :: "string \<Rightarrow> ('w, bool) store_op"
  fo_listdir :: "string \<Rightarrow> ('w, string list) store_op"
  fo_read :: "string \<Rightarrow> ('w, string) store_op"
  fo_write :: "string \<Rightarrow> string \<Rightarrow> ('w, unit) store_op"
  fo_create :: "string \<Rightarrow> string \<Rightarrow> ('w, unit) store_op"
  fo_makedirs :: "string \<Rightarrow> ('w, unit) store_op"
  fo_remove :: "string \<Rightarrow> ('w, unit) store_op"
  fo_missing :: "store_error \<Rightarrow> bool"
  fo_present :: "store_error \<Rightarrow> bool"
  fo_text :: "store_error \<Rightarrow> string"

definition dirname :: "string \<Rightarrow> string" where
  "dirname p =
     (let h = rev (dropWhile (\<lambda>c. c \<noteq> CHR 0x2F) (rev p)); t = rev (dropWhile (\<lambda>c. c = CHR 0x2F) (rev h))
      in if t = [] then h else t)"

definition failed :: "string \<Rightarrow> json" where
  "failed e = JObj [(''error'', JStr e)]"

definition denied :: "string \<Rightarrow> json" where
  "denied e = failed (''access denied: '' @ e)"

text \<open>The resolved path, or the answer of a refused one.\<close>

definition in_workspace :: "'w file_ops \<Rightarrow> string \<Rightarrow> (string \<Rightarrow> ('w, json) store_op) \<Rightarrow> ('w, json) store_op" where
  "in_workspace fo path k w =
     (case ensure_in_workspace (fo_paths fo w) (fo_root fo) path of Inl e \<Rightarrow> (Inr (denied e), w) | Inr p \<Rightarrow> k p w)"

definition catching :: "'w file_ops \<Rightarrow> string \<Rightarrow> ('w, json) store_op \<Rightarrow> ('w, json) store_op" where
  "catching fo path m =
     st_catch m (\<lambda>e. st_return (failed (if fo_missing fo e then ''File not found: '' @ path else fo_text fo e)))"

text \<open>The length of the UTF-8 form of a text.\<close>

definition utf8_size :: "string \<Rightarrow> nat" where
  "utf8_size s = sum_list (map (\<lambda>c. if (of_char c :: nat) < 128 then 1 else 2) s)"

section \<open>Writing tools\<close>

definition file_write :: "'w file_ops \<Rightarrow> string \<Rightarrow> string \<Rightarrow> ('w, json) store_op" where
  "file_write fo path content =
     in_workspace fo path (\<lambda>p.
       st_catch
         (st_bind (fo_makedirs fo (dirname p)) (\<lambda>_.
          st_bind (fo_write fo p content) (\<lambda>_.
          st_return (JObj [(''path'', JStr path), (''bytes_written'', JInt (int (utf8_size content))), (''success'', JBool True)]))))
         (\<lambda>e. st_return (failed (fo_text fo e))))"

definition whole_file_hint :: "(string \<times> json) list" where
  "whole_file_hint = [(''hint'', JStr ''use file_write to overwrite the whole file'')]"

definition edited :: "string \<Rightarrow> (string \<times> json) list \<Rightarrow> json" where
  "edited path note = JObj ([(''path'', JStr path), (''success'', JBool True), (''replacements'', JInt 1)] @ note)"

definition not_found_answer :: "string \<Rightarrow> string \<Rightarrow> string \<Rightarrow> json" where
  "not_found_answer path old original =
     (let first = py_strip (hd (split_on CHR 0x0A (py_strip old))) in
      if first \<noteq> [] \<and> contains_str first original
      then JObj ([(''error'', JStr (''Exact old_text not found, but first line '' @ quoted (take 60 first) @ '' exists in the file. '' @
             ''Try using file_write(path, content) to write the entire file with your changes instead.'')), (''path'', JStr path)] @ whole_file_hint)
      else JObj ([(''error'', JStr (''old_text not found in '' @ path @ ''. '' @
             ''Use file_write(path, content) to write the complete file content instead.'')), (''path'', JStr path)] @ whole_file_hint))"

definition edit_text :: "string \<Rightarrow> string \<Rightarrow> string \<Rightarrow> (string \<times> (string \<times> json) list) option" where
  "edit_text original old new =
     (case split_first old original of
        Some (a, b) \<Rightarrow> Some (a @ new @ b, [])
      | None \<Rightarrow> map_option (\<lambda>s. (s, [(''note'', JStr ''matched with whitespace normalization'')])) (splice_normalized original old new))"

definition file_edit :: "'w file_ops \<Rightarrow> string \<Rightarrow> string \<Rightarrow> string \<Rightarrow> ('w, json) store_op" where
  "file_edit fo path old new =
     (if py_strip old = []
      then st_return (JObj ([(''error'', JStr ''old_text must be a non-empty string. Use file_write to create or overwrite a file.''),
                             (''path'', JStr path)] @ whole_file_hint))
      else in_workspace fo path (\<lambda>p.
        catching fo path
          (st_bind (fo_read fo p) (\<lambda>raw.
             let original = read_text raw in
             case edit_text original old new of
               Some (updated, note) \<Rightarrow> st_bind (fo_write fo p updated) (\<lambda>_. st_return (edited path note))
             | None \<Rightarrow> st_return (not_found_answer path old original)))))"

definition file_create :: "'w file_ops \<Rightarrow> string \<Rightarrow> string \<Rightarrow> ('w, json) store_op" where
  "file_create fo path content =
     in_workspace fo path (\<lambda>p.
       st_catch
         (st_bind (fo_exists fo p) (\<lambda>there.
            if there then st_return (failed (''File already exists: '' @ path))
            else st_bind (fo_makedirs fo (dirname p)) (\<lambda>_.
                 st_bind (fo_create fo p content) (\<lambda>_.
                 st_return (JObj [(''path'', JStr path), (''bytes_written'', JInt (int (utf8_size content))), (''success'', JBool True)])))))
         (\<lambda>e. st_return (failed (if fo_present fo e then ''File already exists: '' @ path else fo_text fo e))))"

text \<open>\<open>lines.insert(i, x)\<close>.\<close>

definition insert_at :: "nat \<Rightarrow> 'a \<Rightarrow> 'a list \<Rightarrow> 'a list" where
  "insert_at i x xs = take i xs @ x # drop i xs"

text \<open>What \<open>file_insert_at_line\<close> writes for a line number in range.\<close>

definition with_newline :: "string \<Rightarrow> string" where
  "with_newline text = (if text \<noteq> [] \<and> \<not> ends_with_lf text then text @ [CHR 0x0A] else text)"

definition inserted_text :: "string \<Rightarrow> int \<Rightarrow> string \<Rightarrow> string" where
  "inserted_text original line text = concat (insert_at (nat (line - 1)) (with_newline text) (file_lines original))"

definition file_insert_at_line :: "'w file_ops \<Rightarrow> string \<Rightarrow> int \<Rightarrow> string \<Rightarrow> ('w, json) store_op" where
  "file_insert_at_line fo path line text =
     in_workspace fo path (\<lambda>p.
       catching fo path
         (st_bind (fo_read fo p) (\<lambda>raw.
            let ls = file_lines (read_text raw); n = int (length ls) in
            if line < 1 \<or> line > n + 1
            then st_return (JObj [(''error'', JStr (''line_number '' @ show_int line @ '' is out of range 1..'' @ show_int (n + 1) @ '' for '' @ path)),
                                  (''path'', JStr path), (''total_lines'', JInt n)])
            else st_bind (fo_write fo p (inserted_text (read_text raw) line text)) (\<lambda>_.
              st_return (JObj [(''path'', JStr path), (''success'', JBool True), (''inserted_at_line'', JInt line)])))))"

definition file_delete :: "'w file_ops \<Rightarrow> string \<Rightarrow> ('w, json) store_op" where
  "file_delete fo path =
     in_workspace fo path (\<lambda>p.
       st_catch
         (st_bind (fo_exists fo p) (\<lambda>there.
            if \<not> there then st_return (failed (''File not found: '' @ path))
            else st_bind (fo_remove fo p) (\<lambda>_. st_return (JObj [(''path'', JStr path), (''success'', JBool True)]))))
         (\<lambda>e. st_return (failed (fo_text fo e))))"

section \<open>The reading tool\<close>

text \<open>\<open>xs[a:b]\<close> of Python, with negative bounds counted from the end.\<close>

definition slice_index :: "int \<Rightarrow> nat \<Rightarrow> nat" where
  "slice_index i n = (if i < 0 then nat (max 0 (i + int n)) else min (nat i) n)"

definition py_slice :: "int \<Rightarrow> int option \<Rightarrow> 'a list \<Rightarrow> 'a list" where
  "py_slice a b xs =
     (let n = length xs; i = slice_index a n; j = (case b of None \<Rightarrow> n | Some k \<Rightarrow> slice_index k n) in take (j - i) (drop i xs))"

definition file_read :: "'w file_ops \<Rightarrow> renderers \<Rightarrow> string \<Rightarrow> int \<Rightarrow> int option \<Rightarrow> ('w, json) store_op" where
  "file_read fo f path start stop =
     in_workspace fo path (\<lambda>p.
       catching fo path
         (st_bind (fo_isdir fo p) (\<lambda>dir.
            if dir then st_bind (fo_listdir fo p) (\<lambda>names.
              st_return (failed (path @ '' is a directory, not a file. Contents: '' @ py_repr f (JList (map JStr (take 50 (sort names)))))))
            else st_bind (fo_read fo p) (\<lambda>raw.
              let ls = file_lines (read_text raw) in
              st_return (JObj [(''path'', JStr path), (''content'', JStr (concat (py_slice start stop ls))), (''start_line'', JInt start),
                (''end_line'', JInt (case stop of None \<Rightarrow> int (length ls) | Some e \<Rightarrow> e)), (''total_lines'', JInt (int (length ls)))])))))"

section \<open>Lines and their parts\<close>

lemma concat_lines_keep [simp]: "concat (lines_keep s) = s"
  by (induction s rule: lines_keep.induct) (auto split: list.splits simp: neq_Nil_conv)

lemma lines_keep_Nil [simp]: "lines_keep s = [] \<longleftrightarrow> s = []"
  by (metis concat.simps(1) concat_lines_keep lines_keep.simps(1))

text \<open>The end of a line, without its break.\<close>

definition chop :: "string \<Rightarrow> string" where
  "chop l = (if suffix [CHR 0x0D, CHR 0x0A] l then take (length l - 2) l else if l \<noteq> [] \<and> is_linebreak (last l) then butlast l else l)"

lemma lines_keep_tail: "lines_keep s = l # ls \<Longrightarrow> lines_keep (concat ls) = ls"
proof (induction s arbitrary: l ls rule: lines_keep.induct)
  case (2 c s)
  consider (crlf) "c = CHR 0x0D \<and> s \<noteq> [] \<and> hd s = CHR 0x0A" | (brk) "\<not> (c = CHR 0x0D \<and> s \<noteq> [] \<and> hd s = CHR 0x0A)" "is_linebreak c"
    | (plain) "\<not> (c = CHR 0x0D \<and> s \<noteq> [] \<and> hd s = CHR 0x0A)" "\<not> is_linebreak c" by blast
  then show ?case
  proof cases
    case plain
    show ?thesis
    proof (cases "lines_keep s")
      case (Cons m ms)
      with "2.prems" plain have "ls = ms" by (auto split: if_splits)
      with "2.IH"(3) [OF plain] Cons show ?thesis by simp
    qed (use "2.prems" plain in \<open>auto split: if_splits\<close>)
  qed (use "2.prems" in \<open>auto split: if_splits\<close>)
qed simp

lemma lines_keep_drop: "lines_keep (concat (drop i (lines_keep s))) = drop i (lines_keep s)"
proof (induction i arbitrary: s)
  case (Suc i)
  show ?case
  proof (cases "lines_keep s")
    case (Cons l ls)
    have ls: "lines_keep (concat ls) = ls" using Cons by (rule lines_keep_tail)
    from Suc [of "concat ls"] show ?thesis unfolding Cons by (simp add: ls)
  qed simp
qed simp

lemma lines_keep_take: "lines_keep (concat (take k (lines_keep s))) = take k (lines_keep s)"
proof (induction s arbitrary: k rule: lines_keep.induct)
  case (2 c s)
  show ?case
  proof (cases k)
    case (Suc j)
    consider (crlf) "c = CHR 0x0D \<and> s \<noteq> [] \<and> hd s = CHR 0x0A" | (brk) "\<not> (c = CHR 0x0D \<and> s \<noteq> [] \<and> hd s = CHR 0x0A)" "is_linebreak c"
      | (plain) "\<not> (c = CHR 0x0D \<and> s \<noteq> [] \<and> hd s = CHR 0x0A)" "\<not> is_linebreak c" by blast
    then show ?thesis
    proof cases
      case crlf
      with "2.IH"(1) [of j] Suc show ?thesis by simp
    next
      case brk
      define t where "t = concat (take j (lines_keep s))"
      have "prefix t s" by (metis append_take_drop_id concat_append concat_lines_keep prefixI t_def)
      then have "\<not> (c = CHR 0x0D \<and> t \<noteq> [] \<and> hd t = CHR 0x0A)" using brk(1) by (auto simp: prefix_def)
      then have "lines_keep (c # t) = [c] # lines_keep t" using brk(2) by simp
      moreover have "lines_keep t = take j (lines_keep s)" unfolding t_def using "2.IH"(2) [OF brk] .
      moreover have "lines_keep (c # s) = [c] # lines_keep s" using brk by simp
      ultimately show ?thesis unfolding Suc by (simp add: t_def)
    next
      case plain
      show ?thesis
      proof (cases "lines_keep s")
        case Nil
        then have "s = []" by simp
        with Suc show ?thesis by simp
      next
        case (Cons m ms)
        have "c \<noteq> CHR 0x0D" using plain(2) by (auto simp: is_linebreak_def)
        then have whole: "lines_keep (c # s) = (c # m) # ms" using plain(2) Cons by simp
        have "lines_keep (m @ concat (take j ms)) = m # take j ms" using "2.IH"(3) [OF plain, of "Suc j"] Cons by simp
        then have "lines_keep (c # m @ concat (take j ms)) = (c # m) # take j ms" using plain(2) by (auto simp: is_linebreak_def)
        then show ?thesis unfolding Suc whole by simp
      qed
    qed
  qed simp
qed simp

lemma lines_keep_nonempty: "l \<in> set (lines_keep s) \<Longrightarrow> l \<noteq> []"
  by (induction s rule: lines_keep.induct) (auto split: if_splits list.splits)

lemma chop_Cons: "c \<noteq> CHR 0x0D \<Longrightarrow> m \<noteq> [] \<Longrightarrow> chop (c # m) = c # chop m"
  by (cases m) (auto simp: chop_def suffix_Cons, auto simp: suffix_def)

lemma splitlines_chop: "py_splitlines s = map chop (lines_keep s)"
proof (induction s rule: lines_keep.induct)
  case (2 c s)
  have lf: "is_linebreak (CHR 0x0D)" "is_linebreak (CHR 0x0A)" by (simp_all add: is_linebreak_def)
  consider (crlf) "c = CHR 0x0D \<and> s \<noteq> [] \<and> hd s = CHR 0x0A" | (brk) "\<not> (c = CHR 0x0D \<and> s \<noteq> [] \<and> hd s = CHR 0x0A)" "is_linebreak c"
    | (plain) "\<not> (c = CHR 0x0D \<and> s \<noteq> [] \<and> hd s = CHR 0x0A)" "\<not> is_linebreak c" by blast
  then show ?case
  proof cases
    case plain
    have c: "c \<noteq> CHR 0x0D" using plain(2) lf by auto
    show ?thesis
    proof (cases "lines_keep s")
      case Nil
      then have "s = []" by simp
      with c plain show ?thesis by (simp add: chop_def suffix_Cons)
    next
      case (Cons m ms)
      have "m \<noteq> []" using Cons lines_keep_nonempty [of m s] by simp
      with c plain Cons "2.IH"(3) [OF plain] show ?thesis by (simp add: chop_Cons)
    qed
  qed (use "2.IH" in \<open>auto simp: chop_def suffix_Cons\<close>)
qed simp

lemma find_span_Some:
  assumes "find_span old ls = Some i"
  shows "take (length old) (drop i ls) = old"
  using assms by (auto simp: find_span_def find_Some_iff)

text \<open>
  An edit that matches only after normalization replaces the matched lines: what stands before and
  after them in the text the file was read as stays, character by character.
\<close>

theorem splice_touches_span:
  assumes "splice_normalized original old new = Some updated"
  shows "\<exists>before span block after. original = before @ span @ after \<and> updated = before @ block @ after \<and>
    map normalize_text (py_splitlines span) = map normalize_text (split_on CHR 0x0A (strip_newlines (unix_lines old)))"
proof -
  let ?ls = "lines_keep original" and ?old = "map normalize_text (split_on CHR 0x0A (strip_newlines (unix_lines old)))"
  from assms obtain i block where i: "find_span ?old (map normalize_text (py_splitlines original)) = Some i"
    and u: "updated = concat (take i ?ls) @ block @ concat (drop (i + length ?old) ?ls)"
    by (auto simp: splice_normalized_def Let_def split: option.splits)
  let ?span = "concat (take (length ?old) (drop i ?ls))"
  have "lines_keep ?span = take (length ?old) (drop i ?ls)"
    using lines_keep_take [of "length ?old" "concat (drop i ?ls)"] by (simp add: lines_keep_drop)
  then have "map normalize_text (py_splitlines ?span) = take (length ?old) (drop i (map normalize_text (py_splitlines original)))"
    by (simp add: splitlines_chop take_map drop_map)
  also have "\<dots> = ?old" using i by (rule find_span_Some)
  finally have span: "map normalize_text (py_splitlines ?span) = ?old" .
  have "?ls = take i ?ls @ take (length ?old) (drop i ?ls) @ drop (i + length ?old) ?ls"
    by (metis add.commute append_take_drop_id drop_drop)
  then have "original = concat (take i ?ls) @ ?span @ concat (drop (i + length ?old) ?ls)"
    by (metis concat_append concat_lines_keep)
  with u span show ?thesis by blast
qed

section \<open>Inserting\<close>

lemma concat_file_lines [simp]: "concat (file_lines s) = s"
  by (induction s) (auto split: list.splits)

lemma file_lines_Nil [simp]: "file_lines s = [] \<longleftrightarrow> s = []"
  by (metis concat.simps(1) concat_file_lines file_lines.simps(1))

lemma file_lines_append: "a = [] \<or> last a = CHR 0x0A \<Longrightarrow> file_lines (a @ b) = file_lines a @ file_lines b"
proof (induction a)
  case (Cons c a)
  show ?case
  proof (cases "a = []")
    case False
    with Cons have IH: "file_lines (a @ b) = file_lines a @ file_lines b" by simp
    have "file_lines a \<noteq> []" using False by simp
    then show ?thesis by (cases "file_lines a") (simp_all add: IH)
  qed (use Cons in simp)
qed simp

lemma file_lines_ends: "Suc j < length (file_lines s) \<Longrightarrow> file_lines s ! j \<noteq> [] \<and> last (file_lines s ! j) = CHR 0x0A"
proof (induction s arbitrary: j)
  case (Cons c s)
  show ?case
  proof (cases "c = CHR 0x0A")
    case True
    then show ?thesis using Cons by (cases j) auto
  next
    case False
    show ?thesis
    proof (cases "file_lines s")
      case (Cons m ms)
      with False have eq: "file_lines (c # s) = (c # m) # ms" by simp
      with Cons.prems Cons have "Suc j < length (file_lines s)" by simp
      from Cons.IH [OF this] Cons eq show ?thesis by (cases j) auto
    qed (use Cons.prems False in simp)
  qed
qed simp

lemma file_lines_take: "file_lines (concat (take k (file_lines s))) = take k (file_lines s)"
proof (induction s arbitrary: k)
  case (Cons c s)
  show ?case
  proof (cases k)
    case (Suc j)
    show ?thesis
    proof (cases "c = CHR 0x0A")
      case True
      with Cons.IH [of j] Suc show ?thesis by simp
    next
      case False
      show ?thesis
      proof (cases "file_lines s")
        case Nil
        then have "s = []" by simp
        with Suc show ?thesis by simp
      next
        case lines: (Cons m ms)
        have "file_lines (m @ concat (take j ms)) = m # take j ms" using Cons.IH [of "Suc j"] lines by simp
        with False lines Suc show ?thesis by simp
      qed
    qed
  qed simp
qed simp

lemma file_lines_drop: "file_lines (concat (drop k (file_lines s))) = drop k (file_lines s)"
proof (induction k arbitrary: s)
  case (Suc k)
  show ?case
  proof (cases "file_lines s")
    case (Cons l ls)
    have "file_lines (concat ls) = ls" using Cons
    proof (induction s arbitrary: l ls)
      case (Cons c s)
      then show ?case by (cases "c = CHR 0x0A"; cases "file_lines s") auto
    qed simp
    with Suc [of "concat ls"] Cons show ?thesis by simp
  qed simp
qed simp

lemma take_ends:
  assumes "i < length (file_lines s) \<or> s = [] \<or> last s = CHR 0x0A"
  shows "concat (take i (file_lines s)) = [] \<or> last (concat (take i (file_lines s))) = CHR 0x0A"
proof (cases "i < length (file_lines s)")
  case True
  show ?thesis
  proof (cases i)
    case (Suc j)
    then have "file_lines s ! j \<noteq> [] \<and> last (file_lines s ! j) = CHR 0x0A" using file_lines_ends True by blast
    moreover have "take i (file_lines s) = take j (file_lines s) @ [file_lines s ! j]" using Suc True by (simp add: take_Suc_conv_app_nth)
    ultimately show ?thesis by simp
  qed simp
qed (use assms in auto)

lemma with_newline_ends: "with_newline text = [] \<or> last (with_newline text) = CHR 0x0A"
  by (auto simp: with_newline_def ends_with_lf_def suffix_def)

text \<open>
  Inserting at a line keeps every line of the file and puts the lines of the text before the line with
  that number, when that line exists or the last line of the file is terminated.
\<close>

theorem insert_keeps_lines:
  assumes "1 \<le> line" "line \<le> int (length (file_lines original)) \<or> (line = int (length (file_lines original)) + 1 \<and> ends_with_lf original)"
  shows "file_lines (inserted_text original line text) =
    take (nat (line - 1)) (file_lines original) @ file_lines (with_newline text) @ drop (nat (line - 1)) (file_lines original)"
proof -
  let ?i = "nat (line - 1)" and ?ls = "file_lines original"
  have "?i < length ?ls \<or> original = [] \<or> last original = CHR 0x0A"
    using assms by (auto simp: ends_with_lf_def suffix_def)
  then have ends: "concat (take ?i ?ls) = [] \<or> last (concat (take ?i ?ls)) = CHR 0x0A" by (rule take_ends)
  have "inserted_text original line text = concat (take ?i ?ls) @ with_newline text @ concat (drop ?i ?ls)"
    by (simp add: inserted_text_def insert_at_def)
  then have "file_lines (inserted_text original line text) =
      file_lines (concat (take ?i ?ls)) @ file_lines (with_newline text @ concat (drop ?i ?ls))"
    by (simp only: file_lines_append [OF ends])
  then show ?thesis by (simp only: file_lines_append [OF with_newline_ends] file_lines_take file_lines_drop)
qed

lemma insert_keeps_lines_witness:
  "file_lines (inserted_text (''a'' @ [CHR 0x0A]) 2 ''b'') =
     take (nat (2 - 1)) (file_lines (''a'' @ [CHR 0x0A])) @ file_lines (with_newline ''b'') @ drop (nat (2 - 1)) (file_lines (''a'' @ [CHR 0x0A]))"
  by (rule insert_keeps_lines) (simp_all add: ends_with_lf_def)

text \<open>Behind a last line without a terminator the inserted text joins that line.\<close>

lemma insert_glues: "inserted_text ''a'' 2 ''b'' = ''ab'' @ [CHR 0x0A]"
  by (simp add: inserted_text_def insert_at_def with_newline_def ends_with_lf_def)

lemma splice_touches_span_witness:
  "\<exists>updated. splice_normalized (''a  '' @ [CHR 0x0A] @ ''b'') ''a'' ''c'' = Some updated \<and>
     (\<exists>before span block after. ''a  '' @ [CHR 0x0A] @ ''b'' = before @ span @ after \<and> updated = before @ block @ after \<and>
       map normalize_text (py_splitlines span) = map normalize_text (split_on CHR 0x0A (strip_newlines (unix_lines ''a''))))"
proof -
  have "splice_normalized (''a  '' @ [CHR 0x0A] @ ''b'') ''a'' ''c'' \<noteq> None" by code_simp
  then obtain u where "splice_normalized (''a  '' @ [CHR 0x0A] @ ''b'') ''a'' ''c'' = Some u" by blast
  from this splice_touches_span [OF this] show ?thesis by blast
qed

section \<open>The file as it was\<close>

text \<open>A file with carriage returns is written without them, wherever the edit was.\<close>

lemma read_text_no_cr: "CHR 0x0D \<notin> set (read_text s)"
proof (induction s rule: read_text.induct)
  case (2 c s)
  then show ?case by (cases s) auto
qed simp

lemma edit_drops_carriage_returns:
  assumes "edit_text (read_text raw) old new = Some (updated, [])" "CHR 0x0D \<notin> set new"
  shows "CHR 0x0D \<notin> set updated"
proof -
  from assms(1) obtain a b where "split_first old (read_text raw) = Some (a, b)" "updated = a @ new @ b"
    by (auto simp: edit_text_def split: option.splits)
  with split_first_Some [OF this(1)] read_text_no_cr [of raw] assms(2) show ?thesis by auto
qed

section \<open>Inside the workspace\<close>

text \<open>Two file systems that do the same below the root.\<close>

definition agree_inside :: "'w file_ops \<Rightarrow> 'w file_ops \<Rightarrow> bool" where
  "agree_inside fo fo' \<longleftrightarrow>
     fo_paths fo' = fo_paths fo \<and> fo_root fo' = fo_root fo \<and> fo_missing fo' = fo_missing fo \<and> fo_present fo' = fo_present fo \<and>
     fo_text fo' = fo_text fo \<and>
     (\<forall>p. inside (fo_root fo) p \<longrightarrow>
        fo_exists fo' p = fo_exists fo p \<and> fo_isdir fo' p = fo_isdir fo p \<and> fo_listdir fo' p = fo_listdir fo p \<and>
        fo_read fo' p = fo_read fo p \<and> fo_write fo' p = fo_write fo p \<and> fo_create fo' p = fo_create fo p \<and>
        fo_remove fo' p = fo_remove fo p \<and> fo_makedirs fo' (dirname p) = fo_makedirs fo (dirname p))"

lemma in_workspace_cong:
  assumes "canonical (fo_root fo)" "\<And>w q. is_abs (po_real (fo_paths fo w) q)" "fo_paths fo' = fo_paths fo" "fo_root fo' = fo_root fo"
    "\<And>p. inside (fo_root fo) p \<Longrightarrow> k' p = k p"
  shows "in_workspace fo' path k' = in_workspace fo path k"
proof
  fix w
  show "in_workspace fo' path k' w = in_workspace fo path k w"
    using ensure_in_workspace_inside [OF _ assms(1) assms(2) [of w]] assms(5)
    by (auto simp: in_workspace_def assms(3,4) split: sum.split)
qed

text \<open>
  C33: The file tools touch the file system only below the root of the workspace (and, to make directories,
  at the parent of what they write): a file system that differs elsewhere gives the same answers and the
  same world.
\<close>

theorem tools_stay_inside:
  assumes "canonical (fo_root fo)" "\<forall>w q. is_abs (po_real (fo_paths fo w) q)" "agree_inside fo fo'"
  shows "file_write fo' path content = file_write fo path content \<and> file_edit fo' path old new = file_edit fo path old new \<and>
    file_create fo' path content = file_create fo path content \<and> file_insert_at_line fo' path line text = file_insert_at_line fo path line text \<and>
    file_delete fo' path = file_delete fo path \<and> file_read fo' f path start stop = file_read fo f path start stop"
proof -
  have eq: "fo_paths fo' = fo_paths fo" "fo_root fo' = fo_root fo" "fo_missing fo' = fo_missing fo" "fo_present fo' = fo_present fo"
    "fo_text fo' = fo_text fo" using assms(3) by (simp_all add: agree_inside_def)
  have ops: "fo_exists fo' p = fo_exists fo p" "fo_isdir fo' p = fo_isdir fo p" "fo_listdir fo' p = fo_listdir fo p"
    "fo_read fo' p = fo_read fo p" "fo_write fo' p = fo_write fo p" "fo_create fo' p = fo_create fo p" "fo_remove fo' p = fo_remove fo p"
    "fo_makedirs fo' (dirname p) = fo_makedirs fo (dirname p)" if "inside (fo_root fo) p" for p
    using assms(3) that by (simp_all add: agree_inside_def)
  note cong = in_workspace_cong [OF assms(1) _ eq(1,2)]
  show ?thesis
    unfolding file_write_def file_edit_def file_create_def file_insert_at_line_def file_delete_def file_read_def catching_def
    using assms(2) by (intro conjI if_cong refl cong) (simp_all add: eq ops Let_def cong: option.case_cong if_cong)
qed

text \<open>Files in memory, a write of which outside the root fails in the second one.\<close>

definition memory_files :: "(string, string) dict file_ops" where
  "memory_files =
     \<lparr>fo_paths = (\<lambda>_. \<lparr>po_expand = (\<lambda>p. p), po_real = (\<lambda>p. if is_abs p then p else ''/'' @ p)\<rparr>), fo_root = ''/w'',
      fo_exists = (\<lambda>p w. (Inr (dict_get w p \<noteq> None), w)), fo_isdir = (\<lambda>p w. (Inr False, w)), fo_listdir = (\<lambda>p w. (Inr [], w)),
      fo_read = (\<lambda>p w. (case dict_get w p of None \<Rightarrow> Inl (Raised ''missing'') | Some s \<Rightarrow> Inr s, w)),
      fo_write = (\<lambda>p s w. (Inr (), dict_set w p s)), fo_create = (\<lambda>p s w. (Inr (), dict_set w p s)), fo_makedirs = (\<lambda>p w. (Inr (), w)),
      fo_remove = (\<lambda>p w. (Inr (), dict_del w p)), fo_missing = (\<lambda>e. True), fo_present = (\<lambda>e. False), fo_text = (\<lambda>e. ''error'')\<rparr>"

definition guarded_files :: "(string, string) dict file_ops" where
  "guarded_files = memory_files\<lparr>fo_write := (\<lambda>p s w. if inside ''/w'' p then (Inr (), dict_set w p s) else (Inl (Raised ''outside''), w))\<rparr>"

lemma tools_stay_inside_witness:
  "file_write guarded_files ''a'' ''x'' = file_write memory_files ''a'' ''x'' \<and> file_edit guarded_files ''a'' ''x'' ''y'' = file_edit memory_files ''a'' ''x'' ''y'' \<and>
   file_create guarded_files ''a'' ''x'' = file_create memory_files ''a'' ''x'' \<and>
   file_insert_at_line guarded_files ''a'' 1 ''x'' = file_insert_at_line memory_files ''a'' 1 ''x'' \<and>
   file_delete guarded_files ''a'' = file_delete memory_files ''a'' \<and>
   file_read guarded_files sample_renderers ''a'' 0 None = file_read memory_files sample_renderers ''a'' 0 None"
proof (rule tools_stay_inside)
  show "canonical (fo_root memory_files)" by (simp add: memory_files_def canonical_def components_def)
  show "\<forall>w q. is_abs (po_real (fo_paths memory_files w) q)" by (simp add: memory_files_def is_abs_def)
  show "agree_inside memory_files guarded_files" by (simp add: agree_inside_def guarded_files_def memory_files_def)
qed

end
