(* ===== verification/GitTools.thy ===== *)
theory GitTools
  imports CodeEdit
begin

text \<open>
  The git tools of an operative (\<open>arsenal/tools/git_ops.py\<close>), the processes they run
  (\<open>arsenal/_process.py\<close>) and the test tools (\<open>arsenal/tools/test_runner.py\<close>).
\<close>

section \<open>Processes\<close>

datatype proc_end = NotStarted string | Expired | Exited int string string

text \<open>
  \<open>gt_proc\<close> runs the arguments in a directory; \<open>gt_json\<close> is \<open>json.loads\<close>, \<open>None\<close> a \<open>JSONDecodeError\<close>; the
  refresh of the credentials never raises.
\<close>

record 'w tool_env =
  gt_proc :: "string list \<Rightarrow> string \<Rightarrow> 'w \<Rightarrow> proc_end \<times> 'w"
  gt_paths :: "'w \<Rightarrow> path_ops"
  gt_root :: string
  gt_cwd :: "'w \<Rightarrow> string"
  gt_exists :: "string \<Rightarrow> 'w \<Rightarrow> bool"
  gt_refresh :: "string \<Rightarrow> 'w \<Rightarrow> 'w"
  gt_json :: "string \<Rightarrow> json option"
  gt_allow_force :: bool
  gt_show :: renderers

type_synonym ('w, 'a) tool_op = "'w \<Rightarrow> 'a \<times> 'w"

definition process_doc :: "string list \<Rightarrow> nat \<Rightarrow> proc_end \<Rightarrow> doc" where
  "process_doc args limit e =
     (case e of
        NotStarted msg \<Rightarrow>
          [(''stdout'', JStr []), (''stderr'', JStr msg), (''return_code'', JInt (-1)), (''success'', JBool False),
           (''error'', JStr (''failed to run '' @ repr_str (hd args) @ '': '' @ msg))]
      | Expired \<Rightarrow>
          [(''stdout'', JStr []), (''stderr'', JStr []), (''return_code'', JInt (-1)), (''success'', JBool False), (''timed_out'', JBool True),
           (''error'', JStr (''command timed out after '' @ show_nat limit @ ''s: '' @ join_with '' '' args))]
      | Exited rc out err \<Rightarrow>
          [(''stdout'', JStr out), (''stderr'', JStr err), (''return_code'', JInt rc), (''success'', JBool (rc = 0))])"

definition run_command :: "'w tool_env \<Rightarrow> string list \<Rightarrow> string \<Rightarrow> nat \<Rightarrow> ('w, doc) tool_op" where
  "run_command env args dir limit w = (let (e, w') = gt_proc env args dir w in (process_doc args limit e, w'))"

definition default_timeout :: nat where "default_timeout = 120"
definition search_timeout :: nat where "search_timeout = 60"
definition test_timeout :: nat where "test_timeout = 900"

definition run_git_tool :: "'w tool_env \<Rightarrow> string list \<Rightarrow> string \<Rightarrow> ('w, doc) tool_op" where
  "run_git_tool env args dir = run_command env (''git'' # args) dir default_timeout"

section \<open>Push targets\<close>

definition protected_branches :: "string list" where
  "protected_branches = [''main'', ''master'', ''develop'', ''trunk'']"

definition protected_prefixes :: "string list" where
  "protected_prefixes = [''release'', ''rel/'', ''stable'']"

text \<open>\<open>[A-Za-z0-9][A-Za-z0-9._/-]*\<close>, the whole text.\<close>

definition branch_name_ok :: "string \<Rightarrow> bool" where
  "branch_name_ok s =
     (case s of [] \<Rightarrow> False
      | c # r \<Rightarrow> is_alnum c \<and> list_all (\<lambda>d. is_alnum d \<or> d \<in> {CHR 0x2E, CHR 0x5F, CHR 0x2F, CHR 0x2D}) r)"

definition drop_prefix :: "string \<Rightarrow> string \<Rightarrow> string" where
  "drop_prefix p s = (if prefix p s then drop (length p) s else s)"

text \<open>The name a destination is judged by.\<close>

definition destination_name :: "string \<Rightarrow> string" where
  "destination_name branch =
     drop_prefix ''refs/heads/'' (drop_prefix ''origin/''
       (dropWhile (\<lambda>c. c = CHR 0x2B) (last (split_on CHR 0x3A (py_lower (py_strip branch))))))"

definition branch_is_protected :: "string \<Rightarrow> bool" where
  "branch_is_protected branch \<longleftrightarrow>
     branch = [] \<or> destination_name branch \<in> set protected_branches \<or> list_ex (\<lambda>p. prefix p (destination_name branch)) protected_prefixes"

definition push_target_error :: "string \<Rightarrow> string option" where
  "push_target_error branch =
     (let parts = split_on CHR 0x3A branch in
      if branch = [] \<or> branch \<noteq> py_strip branch then Some ''branch must be a non-empty name without surrounding whitespace''
      else if length parts > 2 then Some (''invalid push target '' @ quoted branch @ '': expected 'branch' or 'src:dst''@ [CHR 0x27])
      else if \<not> list_all branch_name_ok parts
      then Some (''invalid push target '' @ quoted branch @ '': branch names must match '' @
             ''[A-Za-z0-9][A-Za-z0-9._/-]* (no options, force refspecs, or whitespace)'')
      else if branch_is_protected (last parts)
      then Some (''refusing to push to protected branch '' @ quoted (last parts) @ ''. Henchmen delivers work '' @
             ''through pull requests - push the task's henchmen/* branch instead.'')
      else None)"

section \<open>Git tools\<close>

definition refusal :: "string \<Rightarrow> doc" where
  "refusal e = [(''error'', JStr e), (''success'', JBool False)]"

text \<open>The checked working directory, empty when none was given, or the answer of a refused one.\<close>

definition in_working_dir :: "'w tool_env \<Rightarrow> string \<Rightarrow> (string \<Rightarrow> ('w, doc) tool_op) \<Rightarrow> ('w, doc) tool_op" where
  "in_working_dir env dir k w =
     (if dir = [] then k [] w
      else (case ensure_in_workspace (gt_paths env w) (gt_root env) dir of
          Inl e \<Rightarrow> (refusal (''access denied: '' @ e), w) | Inr p \<Rightarrow> k p w))"

definition tool_cwd :: "'w tool_env \<Rightarrow> 'w \<Rightarrow> string \<Rightarrow> string" where
  "tool_cwd env w dir = (if dir = [] then current_workspace_dir (gt_paths env w) (gt_root env) (gt_cwd env w) else dir)"

definition workflow_push_tool_error :: string where
  "workflow_push_tool_error =
     ''push refused: this branch changes files under .github/workflows/, and Henchmen may not modify CI '' @
     ''workflows. Undo those changes (for example `git checkout origin/<base branch> -- .github/workflows` '' @
     ''and commit), then push again. If the task cannot be done without changing a workflow, stop and report '' @
     ''that a person must make that change.''"

definition push_tool :: "'w tool_env \<Rightarrow> string list \<Rightarrow> string \<Rightarrow> ('w, doc) tool_op" where
  "push_tool env args dir w =
     (let (r, w') = run_git_tool env args dir w in
      (if \<not> py_true (doc_get r ''success'') \<and> is_workflow_push_refusal (py_str (gt_show env) (dict_get_or r ''stderr'' (JStr [])))
       then dict_set r ''error'' (JStr workflow_push_tool_error) else r, w'))"

definition git_push :: "'w tool_env \<Rightarrow> string option \<Rightarrow> string \<Rightarrow> ('w, doc) tool_op" where
  "git_push env branch dir w =
     (case (if str_truthy branch then push_target_error (the branch) else None) of
        Some e \<Rightarrow> (refusal e, w)
      | None \<Rightarrow> in_working_dir env dir (\<lambda>d w1.
          push_tool env [''push'', ''--set-upstream'', ''origin'', if str_truthy branch then the branch else ''HEAD''] d
            (gt_refresh env (tool_cwd env w1 d) w1)) w)"

definition force_disabled :: string where
  "force_disabled =
     ''force-push refused: HENCHMEN_ALLOW_FORCE_PUSH is false. Set '' @
     ''HENCHMEN_ALLOW_FORCE_PUSH=true in the Mastermind settings (it is forwarded to '' @
     ''every operative) to enable. This tool is intentionally gated because '' @
     ''force-push is not part of the standard Henchmen workflow and is an effective '' @
     ''way for a hallucinated or injected agent action to destroy history.''"

definition git_force_push :: "'w tool_env \<Rightarrow> string option \<Rightarrow> string \<Rightarrow> ('w, doc) tool_op" where
  "git_force_push env branch dir w =
     (if \<not> gt_allow_force env then (refusal force_disabled, w)
      else if \<not> str_truthy branch
      then (refusal (''refusing to force-push the implicit current branch. Supply an explicit '' @
                     ''henchmen/* branch name if this is legitimately required.''), w)
      else (case push_target_error (the branch) of
          Some e \<Rightarrow> (refusal e, w)
        | None \<Rightarrow> in_working_dir env dir (\<lambda>d w1.
            push_tool env [''push'', ''--force-with-lease'', ''origin'', the branch] d (gt_refresh env (tool_cwd env w1 d) w1)) w))"

definition git_diff_tool :: "'w tool_env \<Rightarrow> bool \<Rightarrow> string \<Rightarrow> ('w, doc) tool_op" where
  "git_diff_tool env staged dir = in_working_dir env dir (run_git_tool env (''diff'' # (if staged then [''--staged''] else [])))"

definition git_log_tool :: "'w tool_env \<Rightarrow> int \<Rightarrow> string \<Rightarrow> ('w, doc) tool_op" where
  "git_log_tool env n dir =
     in_working_dir env dir (run_git_tool env [''log'', ''--max-count='' @ show_int (max 1 (min n 200)), ''--oneline'', ''--decorate''])"

definition git_status_tool :: "'w tool_env \<Rightarrow> string \<Rightarrow> ('w, doc) tool_op" where
  "git_status_tool env dir = in_working_dir env dir (run_git_tool env [''status'', ''--short''])"

text \<open>The git of the helpers, in a directory.\<close>

definition tool_git :: "'w tool_env \<Rightarrow> string \<Rightarrow> 'w git" where
  "tool_git env dir args w =
     (let (e, w') = gt_proc env (''git'' # args) dir w in
      (case e of Exited rc out err \<Rightarrow> Inr (out, err, rc) | NotStarted msg \<Rightarrow> Inl (Raised msg) | Expired \<Rightarrow> Inl (Raised []), w'))"

text \<open>\<open>git_branch_create\<close>; the detection of the base branch may raise.\<close>

definition create_from :: "'w tool_env \<Rightarrow> string \<Rightarrow> string \<Rightarrow> string \<Rightarrow> ('w, doc) tool_op" where
  "create_from env name base d w =
     (if \<not> branch_name_ok base then (refusal (''invalid base_branch '' @ quoted base @ '': not a valid git branch name''), w)
      else (let (_, w1) = run_git_tool env [''fetch'', ''origin'', base] d w;
                (r, w2) = run_git_tool env [''checkout'', ''-b'', name, ''origin/'' @ base] d w1;
                (r', w3) = (if py_true (doc_get r ''success'') then (r, w2) else run_git_tool env [''checkout'', ''-b'', name, base] d w2)
            in (dict_set r' ''branch_name'' (JStr name), w3)))"

definition git_branch_create :: "'w tool_env \<Rightarrow> string \<Rightarrow> string \<Rightarrow> string \<Rightarrow> ('w, doc) store_op" where
  "git_branch_create env name base dir w =
     (if \<not> branch_name_ok name then (Inr (refusal (''invalid branch_name '' @ quoted name @ '': not a valid git branch name'')), w)
      else (case (if dir = [] then Inr [] else ensure_in_workspace (gt_paths env w) (gt_root env) dir) of
          Inl e \<Rightarrow> (Inr (refusal (''access denied: '' @ e)), w)
        | Inr d \<Rightarrow>
            st_bind (if base \<noteq> [] then st_return base else detect_base_branch (tool_git env (tool_cwd env w d)))
              (\<lambda>b w1. let (r, w2) = create_from env name b d w1 in (Inr r, w2)) w))"

section \<open>Committing\<close>

text \<open>\<open>os.path.relpath\<close> of two absolute paths.\<close>

definition relpath :: "string \<Rightarrow> string \<Rightarrow> string" where
  "relpath p start =
     (let a = components start; b = components p; k = length (common_prefix a b);
          parts = replicate (length a - k) ''..'' @ drop k b
      in if parts = [] then ''.'' else join_with ''/'' parts)"

text \<open>The names of a \<open>files\<close> argument: a list, the JSON of one, or names separated by blanks.\<close>

definition commit_names :: "'w tool_env \<Rightarrow> json \<Rightarrow> string list option" where
  "commit_names env fs =
     (case fs of
        JStr s \<Rightarrow> Some (case gt_json env s of
            Some (JList vs) \<Rightarrow> map (py_str (gt_show env)) vs
          | Some _ \<Rightarrow> [s]
          | None \<Rightarrow> if CHR 0x20 \<in> set s then py_words s else [s])
      | JList vs \<Rightarrow> Some (map (py_str (gt_show env)) vs)
      | _ \<Rightarrow> None)"

fun stage_paths :: "path_ops \<Rightarrow> string \<Rightarrow> string \<Rightarrow> string list \<Rightarrow> (string \<times> string) + string list" where
  "stage_paths po rt dir [] = Inr []"
| "stage_paths po rt dir (f # fs) =
     (case ensure_in_workspace po rt (if is_abs f then f else path_join dir f) of
        Inl e \<Rightarrow> Inl (f, e)
      | Inr p \<Rightarrow> map_sum id (\<lambda>ps. relpath p dir # ps) (stage_paths po rt dir fs))"

definition commit_staged :: "'w tool_env \<Rightarrow> string \<Rightarrow> string list \<Rightarrow> string \<Rightarrow> ('w, doc) tool_op" where
  "commit_staged env message add d w =
     (let (a, w1) = run_git_tool env add d w in
      if \<not> py_true (doc_get a ''success'') then (a, w1)
      else (let (r, w2) = run_git_tool env [''commit'', ''-m'', message] d w1 in (dict_set r ''message'' (JStr message), w2)))"

definition git_commit_tool :: "'w tool_env \<Rightarrow> string \<Rightarrow> json \<Rightarrow> string \<Rightarrow> ('w, doc) tool_op" where
  "git_commit_tool env message fs dir =
     (if py_strip message = [] then (\<lambda>w. (refusal ''commit message must be a non-empty string'', w))
      else in_working_dir env dir (\<lambda>d0 w.
        let d = tool_cwd env w d0 in
        case commit_names env fs of
          Some (f # names) \<Rightarrow>
            (case stage_paths (gt_paths env w) (gt_root env) d (f # names) of
               Inl (g, e) \<Rightarrow> (refusal (''staged file '' @ quoted g @ '' is outside workspace: '' @ e), w)
             | Inr ps \<Rightarrow> commit_staged env message ([''add'', ''--''] @ ps) d w)
        | _ \<Rightarrow> commit_staged env message [''add'', ''-A''] d w))"

section \<open>Test tools\<close>

text \<open>The kind of a project and the packages a monorepo run is limited to.\<close>

definition detect_project_type :: "'w tool_env \<Rightarrow> string \<Rightarrow> 'w \<Rightarrow> string" where
  "detect_project_type env dir w =
     (let d = (if dir = [] then gt_cwd env w else dir) in
      if gt_exists env (path_join d ''package.json'') w then ''node''
      else if gt_exists env (path_join d ''pyproject.toml'') w \<or> gt_exists env (path_join d ''setup.py'') w then ''python''
      else ''unknown'')"

definition is_monorepo :: "'w tool_env \<Rightarrow> string \<Rightarrow> 'w \<Rightarrow> bool" where
  "is_monorepo env dir w \<longleftrightarrow>
     gt_exists env (path_join (if dir = [] then ''.'' else dir) ''pnpm-lock.yaml'') w \<and>
     gt_exists env (path_join (if dir = [] then ''.'' else dir) ''turbo.json'') w"

definition package_of :: "string \<Rightarrow> string option" where
  "package_of f =
     (case split_on CHR 0x2F f of
        a # b # _ \<Rightarrow> if a \<in> {''apps'', ''packages''} then Some (''./'' @ a @ ''/'' @ b) else None
      | _ \<Rightarrow> None)"

definition packages_of :: "string \<Rightarrow> string list" where
  "packages_of out =
     (let changed = filter (\<lambda>f. f \<noteq> []) (map py_strip (split_on CHR 0x0A (py_strip out))) in
      if list_ex (\<lambda>f. package_of f = None) changed then [] else sort (remdups (List.map_filter package_of changed)))"

definition get_affected_packages :: "'w tool_env \<Rightarrow> string \<Rightarrow> ('w, string list) store_op" where
  "get_affected_packages env dir =
     (let d = (if dir = [] then ''.'' else dir) in
      st_bind (detect_base_ref (tool_git env d)) (\<lambda>base w.
        let (r, w') = run_command env [''git'', ''diff'', ''--name-only'', base] d default_timeout w in
        (Inr (if py_true (doc_get r ''success'') then packages_of (py_str (gt_show env) (doc_get r ''stdout'')) else []), w')))"

definition filter_args :: "string list \<Rightarrow> string list" where
  "filter_args ps = concat (map (\<lambda>p. [''--filter'', p]) ps)"

text \<open>The node command: turbo on the affected packages, the script of the lock file's manager, or the fallback.\<close>

definition node_command :: "'w tool_env \<Rightarrow> string \<Rightarrow> string \<Rightarrow> string list \<Rightarrow> ('w, string list) store_op" where
  "node_command env dir script fallback w =
     (if is_monorepo env dir w
      then st_bind (get_affected_packages env (if dir = [] then ''.'' else dir))
             (\<lambda>ps. st_return (if ps \<noteq> [] then [''pnpm'', ''turbo'', ''run'', script] @ filter_args ps else [''pnpm'', ''run'', script])) w
      else st_return (if gt_exists env (path_join (if dir = [] then ''.'' else dir) ''pnpm-lock.yaml'') w then [''pnpm'', ''run'', script] else fallback) w)"

definition unsupported :: "string \<Rightarrow> string \<Rightarrow> doc" where
  "unsupported dir kind =
     [(''error'', JStr (''unsupported project type in '' @ dir @ '': no package.json, pyproject.toml or setup.py found'')),
      (''success'', JBool False), (''return_code'', JInt (-1)), (''project_type'', JStr kind)]"

text \<open>Run the command of a project in the checked directory; \<open>CI=1\<close> in its environment is not modelled.\<close>

definition run_project ::
  "'w tool_env \<Rightarrow> string \<Rightarrow> (string \<Rightarrow> string \<Rightarrow> ('w, string list) store_op) \<Rightarrow> ('w, doc) store_op" where
  "run_project env dir command w =
     (case (if dir = [] then Inr [] else ensure_in_workspace (gt_paths env w) (gt_root env) dir) of
        Inl e \<Rightarrow> (Inr (refusal (''access denied: '' @ e)), w)
      | Inr d \<Rightarrow>
          (let kind = detect_project_type env (if d = [] then ''.'' else d) w in
           if kind = ''unknown'' then (Inr (unsupported (if d = [] then gt_cwd env w else d) kind), w)
           else st_bind (command kind d) (\<lambda>cmd w1.
             let (r, w2) = run_command env cmd d test_timeout w1 in
             (Inr (dict_set (dict_set r ''command'' (JStr (join_with '' '' cmd))) ''project_type'' (JStr kind)), w2)) w))"

definition run_tests_tool :: "'w tool_env \<Rightarrow> string \<Rightarrow> string list \<Rightarrow> string \<Rightarrow> ('w, doc) store_op" where
  "run_tests_tool env test_path args dir =
     run_project env dir (\<lambda>kind d.
       st_bind (if kind = ''node''
                then st_bind (node_command env d ''test'' [''npm'', ''test'']) (\<lambda>c.
                     st_return (if test_path \<noteq> ''.'' then c @ [''--'', test_path] else c))
                else st_return [''python'', ''-m'', ''pytest'', test_path, ''-v''])
         (\<lambda>c. st_return (c @ args)))"

definition run_lint_tool :: "'w tool_env \<Rightarrow> string \<Rightarrow> bool \<Rightarrow> string \<Rightarrow> ('w, doc) store_op" where
  "run_lint_tool env path fix_it dir =
     run_project env dir (\<lambda>kind d.
       st_bind (if kind = ''node'' then node_command env d ''lint'' [''npx'', ''eslint'', path]
                else st_return [''python'', ''-m'', ''ruff'', ''check'', path])
         (\<lambda>c. st_return (if fix_it then c @ [''--fix''] else c)))"

definition type_check_tool :: "'w tool_env \<Rightarrow> string \<Rightarrow> string \<Rightarrow> ('w, doc) store_op" where
  "type_check_tool env path dir =
     run_project env dir (\<lambda>kind d w.
       (Inr (if kind = ''node''
             then (if path \<notin> {[], ''.''} then [''npx'', ''tsc'', ''--noEmit'', ''-p'', path]
                   else if gt_exists env (path_join (if d = [] then ''.'' else d) ''pnpm-lock.yaml'') w then [''pnpm'', ''run'', ''typecheck'']
                   else [''npx'', ''tsc'', ''--noEmit''])
             else [''python'', ''-m'', ''mypy'', path]), w))"

section \<open>Pushes\<close>

lemma split_on_append_last: "split_on c (s @ c # d) = split_on c s @ split_on c d"
proof (induction s)
  case (Cons a s)
  obtain y ys where "split_on c s = y # ys" by (cases "split_on c s") simp_all
  with Cons show ?case by simp
qed simp

lemma branch_name_char: "branch_name_ok s \<Longrightarrow> c \<in> set s \<Longrightarrow> \<not> is_space c"
  by (cases s) (auto simp: branch_name_ok_def is_alnum_def is_space_def list_all_iff Let_def)

lemma branch_name_strip [simp]: "branch_name_ok s \<Longrightarrow> py_strip s = s"
  by (rule py_strip_id) (rule branch_name_char)

definition ref_prefixes :: "string list" where
  "ref_prefixes = [[], ''refs/heads/'', ''origin/'', ''origin/refs/heads/'']"

lemma protected_destination:
  assumes "py_lower d \<in> set protected_branches" "p \<in> set ref_prefixes" "branch_name_ok (p @ d)"
  shows "branch_is_protected (p @ d)"
proof -
  have "py_lower (p @ d) = p @ py_lower d" using assms(2) by (auto simp: ref_prefixes_def py_lower_def lower_char_def)
  with assms(3) have "destination_name (p @ d) =
      drop_prefix ''refs/heads/'' (drop_prefix ''origin/'' (dropWhile (\<lambda>c. c = CHR 0x2B) (last (split_on CHR 0x3A (p @ py_lower d)))))"
    by (simp add: destination_name_def)
  also have "\<dots> = py_lower d" using assms(1,2) by (auto simp: ref_prefixes_def protected_branches_def drop_prefix_def)
  finally show ?thesis using assms(1) by (simp add: branch_is_protected_def)
qed

lemma push_error_protected:
  assumes "py_lower d \<in> set protected_branches" "p \<in> set ref_prefixes" "last (split_on CHR 0x3A b) = p @ d"
  shows "push_target_error b \<noteq> None"
proof (cases "list_all branch_name_ok (split_on CHR 0x3A b)")
  case True
  moreover have "p @ d \<in> set (split_on CHR 0x3A b)" using assms(3) by (metis last_in_set split_on_nonempty)
  ultimately have "branch_name_ok (p @ d)" by (simp add: list_all_iff)
  with assms protected_destination show ?thesis by (auto simp: push_target_error_def Let_def)
qed (auto simp: push_target_error_def Let_def)


text \<open>
  The check reads a destination by its text, and git resolves \<open>heads/main\<close> and the name \<open>HEAD\<close> as well:
  both pass it. The force push refuses the branch that is checked out only when no name is given.
\<close>

lemma unresolved_targets_pass:
  "push_target_error ''x:heads/main'' = None" "push_target_error ''HEAD'' = None"
  by code_simp+

lemma force_push_of_head:
  assumes "gt_allow_force env"
  shows "git_force_push env (Some ''HEAD'') [] w =
    push_tool env [''push'', ''--force-with-lease'', ''origin'', ''HEAD''] [] (gt_refresh env (tool_cwd env w []) w)"
  using assms by (simp add: git_force_push_def str_truthy_def unresolved_targets_pass in_working_dir_def)

text \<open>Without a name the check is skipped, whatever branch is checked out.\<close>

lemma push_of_current_branch:
  "git_push env None [] w = push_tool env [''push'', ''--set-upstream'', ''origin'', ''HEAD''] [] (gt_refresh env (tool_cwd env w []) w)"
  by (simp add: git_push_def str_truthy_def in_working_dir_def)

section \<open>Staging\<close>

lemma stage_paths_inside:
  assumes "stage_paths po rt dir fs = Inr ps"
  shows "\<exists>qs. ps = map (\<lambda>q. relpath q dir) qs \<and>
    list_all2 (\<lambda>f q. ensure_in_workspace po rt (if is_abs f then f else path_join dir f) = Inr q) fs qs"
  using assms
proof (induction fs arbitrary: ps)
  case (Cons f fs)
  then obtain q qs where q: "ensure_in_workspace po rt (if is_abs f then f else path_join dir f) = Inr q"
    and rest: "stage_paths po rt dir fs = Inr qs" "ps = relpath q dir # qs"
    by (auto split: sum.splits simp: map_sum_def)
  from Cons.IH [OF rest(1)] obtain rs where "qs = map (\<lambda>q. relpath q dir) rs"
    "list_all2 (\<lambda>f q. ensure_in_workspace po rt (if is_abs f then f else path_join dir f) = Inr q) fs rs" by blast
  with q rest(2) show ?case by (intro exI [of _ "q # rs"]) simp
qed simp

text \<open>One file outside the workspace stops the commit before any command, and nothing falls back to staging everything.\<close>

lemma outside_file_stops_commit:
  assumes "stage_paths (gt_paths env w) (gt_root env) (tool_cwd env w []) (f # fs) = Inl (g, e)" "commit_names env v = Some (f # fs)"
    "py_strip message \<noteq> []"
  shows "git_commit_tool env message v [] w = (refusal (''staged file '' @ quoted g @ '' is outside workspace: '' @ e), w)"
  using assms by (simp add: git_commit_tool_def in_working_dir_def Let_def)

section \<open>Witnesses\<close>


end
