(* ===== verification/Operative.thy ===== *)
theory Operative
  imports GitTools
begin

text \<open>
  The life of an operative (\<open>operative/bootstrap.py\<close>): its workspace, the run of its agent, the push of the
  branch, and the report. The processes, the files, the clock, the agent and the broker are operations of
  the outside.
\<close>

section \<open>The outside of an operative\<close>

text \<open>
  \<open>oe_proc\<close> runs a command in the workspace and gives its output, its errors and its exit code.
  \<open>oe_build\<close> builds the agent and \<open>oe_agent\<close> runs it; \<open>oe_usage\<close> is the telemetry of an agent that raised.
  \<open>oe_timeout\<close> tells a \<open>TimeoutError\<close> and \<open>oe_os_error\<close> an \<open>OSError\<close> from the other exceptions, and
  \<open>oe_text\<close> is \<open>str\<close> of one. The credentials' refresh never raises.
\<close>

record oper_config =
  oc_task :: string
  oc_node :: string
  oc_scheme :: string
  oc_model :: string
  oc_operative :: string
  oc_email :: string
  oc_author :: string
  oc_repo_url :: string
  oc_branch :: string
  oc_token :: string
  oc_dossier :: "string option"
  oc_workspace_root :: string

record work_report = operative_report +
  wr_task :: string
  wr_node :: string
  wr_scheme :: string
  wr_diff :: "string option"
  wr_confidence :: rat
  wr_started :: int
  wr_completed :: int
  wr_cached :: int
  wr_telemetry :: "telemetry option"

record 'w oper_env =
  oe_proc :: "string list \<Rightarrow> ('w, string \<times> string \<times> int) store_op"
  oe_exists :: "string \<Rightarrow> 'w \<Rightarrow> bool"
  oe_read :: "string \<Rightarrow> ('w, string) store_op"
  oe_append :: "string \<Rightarrow> string \<Rightarrow> ('w, unit) store_op"
  oe_makedirs :: "string \<Rightarrow> ('w, unit) store_op"
  oe_context :: "string \<Rightarrow> ('w, unit) store_op"
  oe_download :: "string \<Rightarrow> string \<Rightarrow> string \<Rightarrow> ('w, unit) store_op"
  oe_refresh :: "'w \<Rightarrow> 'w"
  oe_build :: "('w, unit) store_op"
  oe_agent :: "('w, run_result) store_op"
  oe_usage :: "'w \<Rightarrow> telemetry \<times> int"
  oe_shutdown :: "'w \<Rightarrow> bool"
  oe_now :: "'w \<Rightarrow> int"
  oe_store :: "'w store_ops option"
  oe_dump :: "work_report \<Rightarrow> json"
  oe_forwards :: bool
  oe_confirm :: "work_report \<Rightarrow> ('w, bool) store_op"
  oe_publish :: "work_report \<Rightarrow> ('w, unit) store_op"
  oe_timeout :: "store_error \<Rightarrow> bool"
  oe_os_error :: "store_error \<Rightarrow> bool"
  oe_text :: "store_error \<Rightarrow> string"
  oe_redact :: "string \<Rightarrow> string"

definition oe_git :: "'w oper_env \<Rightarrow> 'w git" where
  "oe_git env args = oe_proc env (''git'' # args)"

section \<open>The diff of a report\<close>

definition max_report_diff :: nat where
  "max_report_diff = 524288"

definition truncation_marker :: "nat \<Rightarrow> nat \<Rightarrow> string" where
  "truncation_marker limit bytes =
     [CHR 0x0A] @ ''[henchmen: git diff truncated to '' @ show_nat limit @ '' of '' @ show_nat bytes @ '' bytes]'' @ [CHR 0x0A]"

text \<open>The first bytes of a text, decoded without a character that is cut.\<close>

fun take_utf8 :: "nat \<Rightarrow> string \<Rightarrow> string" where
  "take_utf8 n [] = []"
| "take_utf8 n (c # s) = (let k = utf8_size [c] in if k \<le> n then c # take_utf8 (n - k) s else [])"

definition cap_report_git_diff :: "string option \<Rightarrow> string option" where
  "cap_report_git_diff d =
     (case d of
        None \<Rightarrow> None
      | Some s \<Rightarrow>
          if utf8_size s \<le> max_report_diff then Some s
          else (let marker = truncation_marker max_report_diff (utf8_size s)
                in Some (take_utf8 (max_report_diff - utf8_size marker) s @ marker)))"

section \<open>The heartbeat\<close>

text \<open>One beat: the failures in a row after it and whether it is logged.\<close>

definition log_every :: nat where "log_every = 5"

definition heartbeat :: "'w store_ops \<Rightarrow> string \<Rightarrow> int \<Rightarrow> nat \<Rightarrow> 'w \<Rightarrow> (nat \<times> bool) \<times> 'w" where
  "heartbeat ops tid now failures w =
     (case op_update ops task_executions tid [(''last_heartbeat'', JTime now)] w of
        (Inr _, w') \<Rightarrow> ((0, False), w')
      | (Inl _, w') \<Rightarrow> (let n = failures + 1 in ((n, n = 1 \<or> n mod log_every = 0), w')))"

definition persist_interrupted_report :: "'w oper_env \<Rightarrow> 'w store_ops \<Rightarrow> work_report \<Rightarrow> ('w, unit) store_op" where
  "persist_interrupted_report env ops rep w =
     st_catch
       (op_update ops task_executions (wr_task rep)
          [(''interrupted_node_id'', JStr (wr_node rep)), (''interrupted_at'', JTime (oe_now env w)),
           (''interrupted_report'', oe_dump env rep), (''execution_state'', JStr ''interrupted'')])
       (\<lambda>_. st_return ()) w"

section \<open>The workspace\<close>

definition build_clone_url :: "string \<Rightarrow> string \<Rightarrow> string" where
  "build_clone_url repo token =
     (if token \<noteq> [] then ''https://x-access-token:'' @ token @ ''@github.com/'' @ repo @ ''.git'' else ''https://github.com/'' @ repo @ ''.git'')"

text \<open>\<open>clone_repo\<close> as the operative calls it: the text of its \<open>RuntimeError\<close>, if it raises one.\<close>

definition clone_all_branches ::
  "'w oper_env \<Rightarrow> string \<Rightarrow> string \<Rightarrow> string \<Rightarrow> string \<Rightarrow> nat \<Rightarrow> ('w, string option) store_op" where
  "clone_all_branches env repo branch ws token depth =
     st_bind (oe_proc env [''git'', ''clone'', ''--depth='' @ show_nat depth, ''--branch'', branch, build_clone_url repo token, ws])
       (\<lambda>(_, err, rc). st_return (if rc = 0 then None else Some (''git clone failed: '' @ mask_token token (take 500 err))))"

definition raise_text :: "string option \<Rightarrow> ('w, unit) store_op" where
  "raise_text e = (case e of None \<Rightarrow> st_return () | Some t \<Rightarrow> st_raise (Raised t))"

definition clone_workspace :: "'w oper_env \<Rightarrow> oper_config \<Rightarrow> string \<Rightarrow> ('w, unit) store_op" where
  "clone_workspace env oc ws =
     (let slug = (let s = normalize_repo_slug (oc_repo_url oc) in if s \<noteq> [] then s else oc_repo_url oc);
          branch = (if oc_branch oc \<noteq> [] then oc_branch oc else default_base_branch);
          depth = (if prefix ''henchmen/'' branch then 50 else 1) in
      if oc_repo_url oc = [] then st_return ()
      else st_bind (clone_all_branches env slug branch ws (oc_token oc) depth) (\<lambda>e.
        case e of
          None \<Rightarrow> st_return ()
        | Some text \<Rightarrow>
            st_bind (detect_remote_default_branch (oe_git env) (build_clone_url slug (oc_token oc))) (\<lambda>d.
              if d = branch then st_raise (Raised text)
              else st_bind (clone_all_branches env slug d ws (oc_token oc) depth) raise_text)))"

definition exclusions :: "string list" where
  "exclusions = [''.henchmen_file_context.txt'', ''.henchmen/'', ''node_modules/'']"

definition write_git_exclusions :: "'w oper_env \<Rightarrow> string \<Rightarrow> ('w, unit) store_op" where
  "write_git_exclusions env ws =
     (let p = ws @ ''/.git/info/exclude'' in
      st_catch
        (st_bind (oe_makedirs env (ws @ ''/.git/info'')) (\<lambda>_.
         st_bind (\<lambda>w. if oe_exists env p w then oe_read env p w else (Inr [], w)) (\<lambda>existing.
         let missing = filter (\<lambda>e. \<not> contains_str e existing) exclusions in
         if missing = [] then st_return ()
         else oe_append env p ([CHR 0x0A] @ ''# Added by Henchmen operative (local only, never committed)'' @ [CHR 0x0A] @
                join_with [CHR 0x0A] missing @ [CHR 0x0A]))))
        (\<lambda>e. if oe_os_error env e then st_return () else st_raise e))"

definition node_install :: "(string \<Rightarrow> bool) \<Rightarrow> string list list" where
  "node_install there =
     (if there ''package.json''
      then [if there ''pnpm-lock.yaml'' then [''pnpm'', ''install'', ''--frozen-lockfile''] else [''npm'', ''ci'']] else [])"

definition pip_install :: "(string \<Rightarrow> bool) \<Rightarrow> string list list" where
  "pip_install there =
     map (\<lambda>n. [''pip'', ''install'', ''--user'', ''-r'', n]) (filter there [''requirements.txt'', ''requirements-dev.txt'']) @
     (if there ''pyproject.toml'' \<or> there ''setup.py'' then [[''pip'', ''install'', ''--user'', ''-e'', ''.'']] else [])"

text \<open>An exit code other than 0 is only logged.\<close>

definition run_installs :: "'w oper_env \<Rightarrow> string \<Rightarrow> ((string \<Rightarrow> bool) \<Rightarrow> string list list) \<Rightarrow> ('w, unit) store_op" where
  "run_installs env ws commands w = st_map (oe_proc env) (commands (\<lambda>n. oe_exists env (path_join ws n) w)) w"

definition install_project_dependencies :: "'w oper_env \<Rightarrow> string \<Rightarrow> ('w, unit) store_op" where
  "install_project_dependencies env ws = st_bind (run_installs env ws node_install) (\<lambda>_. run_installs env ws pip_install)"

text \<open>The bucket and the key of a dossier.\<close>

definition dossier_schemes :: "string list" where
  "dossier_schemes = [''gs://'', ''s3://'', ''file://'']"

definition dossier_location :: "string \<Rightarrow> (string \<times> string) option" where
  "dossier_location uri =
     (case find (\<lambda>s. prefix s uri) dossier_schemes of
        None \<Rightarrow> if contains_str ''://'' uri then None else split_first ''/'' uri
      | Some s \<Rightarrow> split_first ''/'' (drop (length s) uri))"

definition download_dossier :: "'w oper_env \<Rightarrow> string \<Rightarrow> string \<Rightarrow> ('w, unit) store_op" where
  "download_dossier env uri ws =
     st_bind (oe_makedirs env (ws @ ''/.henchmen/dossier'')) (\<lambda>_.
       case dossier_location uri of
         None \<Rightarrow> st_return ()
       | Some (bucket, key) \<Rightarrow> oe_download env bucket key (ws @ ''/.henchmen/dossier/dossier.json''))"

definition oper_workspace :: "oper_config \<Rightarrow> string" where
  "oper_workspace oc = oc_workspace_root oc @ ''/'' @ oc_task oc"

definition initialize_workspace :: "'w oper_env \<Rightarrow> oper_config \<Rightarrow> ('w, unit) store_op" where
  "initialize_workspace env oc =
     (let ws = oper_workspace oc in
      st_bind (oe_makedirs env ws) (\<lambda>_.
      st_bind (clone_workspace env oc ws) (\<lambda>_.
      st_bind (oe_git env [''config'', ''--global'', ''user.email'', oc_email oc]) (\<lambda>_.
      st_bind (oe_git env [''config'', ''--global'', ''user.name'', oc_author oc]) (\<lambda>_.
      st_bind (write_git_exclusions env ws) (\<lambda>_.
      st_bind (oe_git env [''checkout'', ''-b'', branch_name (oc_task oc)]) (\<lambda>_.
      st_bind (detect_base_branch (oe_git env)) (\<lambda>base.
      st_bind (run_git (oe_git env) [''fetch'', ''origin'', base @ '':refs/remotes/origin/'' @ base]) (\<lambda>_.
      st_bind (install_project_dependencies env ws) (\<lambda>_.
      case oc_dossier oc of
        None \<Rightarrow> st_return ()
      | Some uri \<Rightarrow> if uri = [] then st_return () else download_dossier env uri ws))))))))))"

section \<open>The branch\<close>

definition some_digits :: "string \<Rightarrow> bool" where
  "some_digits s \<longleftrightarrow> s \<noteq> [] \<and> list_all is_digit s"

text \<open>\<open>_check_for_changes\<close>: uncommitted changes, or commits the base of the remote does not have.\<close>

definition check_for_changes :: "'w oper_env \<Rightarrow> ('w, bool) store_op" where
  "check_for_changes env =
     st_catch
       (st_bind (run_git (oe_git env) [''status'', ''--porcelain'']) (\<lambda>(porcelain, _, _).
        if py_strip porcelain \<noteq> [] then st_return True
        else st_bind (detect_base_branch (oe_git env)) (\<lambda>base.
             st_bind (run_git (oe_git env) [''rev-list'', ''--count'', ''origin/'' @ base @ ''..HEAD'']) (\<lambda>(count, _, rc).
             st_return (rc = 0 \<and> some_digits count \<and> list_ex (\<lambda>c. c \<noteq> CHR 0x30) count)))))
       (\<lambda>_. st_return False)"

definition commit_text :: "string \<Rightarrow> string" where
  "commit_text branch = ''fix: automated changes by Henchmen operative'' @ [CHR 0x0A, CHR 0x0A] @ ''Branch: '' @ branch"

text \<open>How a push ends: done, or refused because it changes CI workflows.\<close>

datatype push_end = Pushed | WorkflowRefused

definition push_branch :: "'w oper_env \<Rightarrow> string \<Rightarrow> ('w, push_end) store_op" where
  "push_branch env branch w =
     st_bind (run_git (oe_git env) [''push'', ''-u'', ''origin'', branch]) (\<lambda>(_, err, rc).
       if rc = 0 then st_return Pushed
       else if is_workflow_push_refusal err then st_return WorkflowRefused
       else st_raise (Raised (''git push failed: '' @ oe_redact env err))) (oe_refresh env w)"

text \<open>An exit code of the commit other than 0 is only logged.\<close>

definition commit_rest :: "'w oper_env \<Rightarrow> string \<Rightarrow> ('w, unit) store_op" where
  "commit_rest env branch =
     st_bind (run_git (oe_git env) [''add'', ''-A'']) (\<lambda>_.
     st_bind (run_git (oe_git env) [''diff'', ''--cached'', ''--name-only'']) (\<lambda>(out, _, _).
     if py_strip out = [] then st_return ()
     else st_bind (run_git (oe_git env) [''commit'', ''-m'', commit_text branch]) (\<lambda>_. st_return ())))"

definition create_branch_and_push :: "'w oper_env \<Rightarrow> oper_config \<Rightarrow> ('w, push_end) store_op" where
  "create_branch_and_push env oc =
     (let branch = branch_name (oc_task oc); git = run_git (oe_git env) in
      st_bind (git [''config'', ''user.email'', oc_email oc]) (\<lambda>_.
      st_bind (git [''config'', ''user.name'', oc_author oc]) (\<lambda>_.
      st_bind (git [''checkout'', ''-b'', branch]) (\<lambda>(_, _, rc).
      st_bind (if rc = 0 then st_return () else st_bind (git [''checkout'', branch]) (\<lambda>_. st_return ())) (\<lambda>_.
      st_bind (commit_rest env branch) (\<lambda>_.
      push_branch env branch))))))"

section \<open>The result of the agent\<close>

text \<open>The dictionary the run fills in: a missing entry has the value \<open>dict.get\<close> gives for it.\<close>

record work_result =
  wk_diff :: "string option"
  wk_summary :: string
  wk_files :: "string list"
  wk_confidence :: rat
  wk_blocked :: bool
  wk_block_reason :: "string option"
  wk_error :: "string option"
  wk_pushed :: "string option"
  wk_interrupted :: bool
  wk_telemetry :: "telemetry option"
  wk_cached :: int

definition result_of_run :: "run_result \<Rightarrow> work_result" where
  "result_of_run r =
     \<lparr>wk_diff = rr_diff r, wk_summary = rr_summary r, wk_files = rr_files r, wk_confidence = rr_confidence r,
      wk_blocked = (rr_blocked r \<noteq> None), wk_block_reason = rr_blocked r, wk_error = None, wk_pushed = None,
      wk_interrupted = rr_interrupted r, wk_telemetry = Some (rr_telemetry r), wk_cached = rr_cached r\<rparr>"

definition result_of_failure :: "string \<Rightarrow> string \<Rightarrow> (telemetry \<times> int) option \<Rightarrow> work_result" where
  "result_of_failure summary err usage =
     \<lparr>wk_diff = None, wk_summary = summary, wk_files = [], wk_confidence = 1 / 2, wk_blocked = False, wk_block_reason = None,
      wk_error = Some err, wk_pushed = None, wk_interrupted = False, wk_telemetry = map_option fst usage,
      wk_cached = (case usage of None \<Rightarrow> 0 | Some (_, n) \<Rightarrow> n)\<rparr>"

definition push_changes :: "'w oper_env \<Rightarrow> oper_config \<Rightarrow> work_result \<Rightarrow> ('w, work_result) store_op" where
  "push_changes env oc r =
     st_bind (create_branch_and_push env oc) (\<lambda>e. st_return (case e of
       Pushed \<Rightarrow> r\<lparr>wk_pushed := Some (branch_name (oc_task oc))\<rparr>
     | WorkflowRefused \<Rightarrow> r\<lparr>wk_blocked := True, wk_block_reason := Some workflow_push_refused_message,
         wk_error := Some workflow_push_refused_message\<rparr>))"

definition push_if_changed :: "'w oper_env \<Rightarrow> oper_config \<Rightarrow> work_result \<Rightarrow> ('w, work_result) store_op" where
  "push_if_changed env oc r = st_bind (check_for_changes env) (\<lambda>c. if c then push_changes env oc r else st_return r)"

text \<open>The status of a run that returned; an interruption is judged first.\<close>

definition settle_status :: "work_result \<Rightarrow> operative_status \<times> work_result" where
  "settle_status r =
     (if wk_interrupted r
      then (INTERRUPTED,
            r\<lparr>wk_error := (if str_truthy (wk_error r) then wk_error r else Some ''SIGTERM received during node execution''),
              wk_summary := (if wk_summary r \<noteq> [] then wk_summary r
                             else ''Operative interrupted by SIGTERM - partial work preserved'')\<rparr>)
      else if wk_blocked r then (BLOCKED, r) else (COMPLETED, r))"

definition attempt :: "'w oper_env \<Rightarrow> oper_config \<Rightarrow> ('w, operative_status \<times> work_result) store_op" where
  "attempt env oc =
     st_bind (oe_agent env) (\<lambda>r. st_bind (push_if_changed env oc (result_of_run r)) (\<lambda>k. st_return (settle_status k)))"

text \<open>The status of a run that raised, and what can still be pushed.\<close>

definition failed_status :: "'w oper_env \<Rightarrow> (telemetry \<times> int) option \<Rightarrow> store_error \<Rightarrow> 'w \<Rightarrow> operative_status \<times> work_result" where
  "failed_status env usage e w =
     (if oe_timeout env e then (TIMED_OUT, result_of_failure ''Operative timed out but may have made changes'' ''Timeout'' usage)
      else if oe_shutdown env w
      then (INTERRUPTED, result_of_failure ''Operative interrupted by SIGTERM - partial work preserved''
              (''SIGTERM received during node execution: '' @ oe_text env e) usage)
      else (FAILED, result_of_failure (''Operative failed: '' @ oe_text env e) (oe_text env e) usage))"

definition rescue ::
  "'w oper_env \<Rightarrow> oper_config \<Rightarrow> (telemetry \<times> int) option \<Rightarrow> store_error \<Rightarrow> ('w, operative_status \<times> work_result) store_op" where
  "rescue env oc usage e w =
     (let (s, r) = failed_status env usage e w in
      st_catch (st_bind (push_if_changed env oc r) (\<lambda>k. st_return (s, k))) (\<lambda>_. st_return (s, r)) w)"

definition execute_work :: "'w oper_env \<Rightarrow> oper_config \<Rightarrow> ('w, operative_status \<times> work_result) store_op" where
  "execute_work env oc w =
     (case oe_build env w of
        (Inl e, w') \<Rightarrow> rescue env oc None e w'
      | (Inr _, w') \<Rightarrow> st_catch (attempt env oc) (\<lambda>e v. rescue env oc (Some (oe_usage env v)) e v) w')"

section \<open>The report\<close>

definition work_report_of :: "oper_config \<Rightarrow> int \<Rightarrow> int \<Rightarrow> operative_status \<Rightarrow> work_result \<Rightarrow> work_report" where
  "work_report_of oc started completed s r =
     \<lparr>rep_operative_id = oc_operative oc, rep_status = s, rep_summary = wk_summary r, rep_error = wk_error r,
      rep_block_reason = wk_block_reason r, rep_files_changed = wk_files r,
      rep_model_name = (case wk_telemetry r of None \<Rightarrow> oc_model oc | Some t \<Rightarrow> if tm_model t \<noteq> [] then tm_model t else oc_model oc),
      rep_input_tokens = (case wk_telemetry r of None \<Rightarrow> 0 | Some t \<Rightarrow> tm_input t),
      rep_output_tokens = (case wk_telemetry r of None \<Rightarrow> 0 | Some t \<Rightarrow> tm_output t),
      rep_cost_usd = (case wk_telemetry r of None \<Rightarrow> 0 | Some t \<Rightarrow> tm_cost t),
      wr_task = oc_task oc, wr_node = oc_node oc, wr_scheme = oc_scheme oc, wr_diff = cap_report_git_diff (wk_diff r),
      wr_confidence = wk_confidence r, wr_started = started, wr_completed = completed, wr_cached = wk_cached r,
      wr_telemetry = wk_telemetry r\<rparr>"

definition init_failure_report :: "oper_config \<Rightarrow> int \<Rightarrow> int \<Rightarrow> string \<Rightarrow> work_report" where
  "init_failure_report oc started completed text =
     (work_report_of oc started completed FAILED (result_of_failure (''Workspace initialisation failed: '' @ text) text None))
       \<lparr>wr_confidence := 0\<rparr>"

text \<open>A broker that forwards over HTTP has to confirm the delivery; the others take the report.\<close>

definition publish_report :: "'w oper_env \<Rightarrow> work_report \<Rightarrow> ('w, unit) store_op" where
  "publish_report env rep =
     (if oe_forwards env
      then st_bind (oe_confirm env rep) (\<lambda>ok.
             if ok then st_return ()
             else st_raise (Raised (''Failed to deliver operative completion report for task '' @ wr_task rep)))
      else oe_publish env rep)"

definition deliver :: "'w oper_env \<Rightarrow> oper_config \<Rightarrow> int \<Rightarrow> operative_status \<times> work_result \<Rightarrow> ('w, unit) store_op" where
  "deliver env oc started k w =
     (let (s, r) = k; rep = work_report_of oc started (oe_now env w) s r in
      st_bind (case oe_store env of
          Some ops \<Rightarrow> if s = INTERRUPTED then persist_interrupted_report env ops rep else st_return ()
        | None \<Rightarrow> st_return ())
        (\<lambda>_. publish_report env rep) w)"

text \<open>The whole life; a workspace that cannot be made is reported, and its exception raised again.\<close>

definition prepare :: "'w oper_env \<Rightarrow> oper_config \<Rightarrow> ('w, unit) store_op" where
  "prepare env oc = st_bind (initialize_workspace env oc) (\<lambda>_. oe_context env (oper_workspace oc))"

definition run_operative :: "'w oper_env \<Rightarrow> oper_config \<Rightarrow> ('w, unit) store_op" where
  "run_operative env oc w =
     (let started = oe_now env w in
      case prepare env oc w of
        (Inl e, v) \<Rightarrow> st_bind (publish_report env (init_failure_report oc started (oe_now env v) (oe_text env e))) (\<lambda>_. st_raise e) v
      | (Inr _, v) \<Rightarrow> st_bind (execute_work env oc) (deliver env oc started) v)"

definition exit_code :: "store_error + unit \<Rightarrow> int" where
  "exit_code r = (case r of Inl _ \<Rightarrow> 1 | Inr _ \<Rightarrow> 0)"

section \<open>Sizes and locations\<close>

lemma utf8_size_append [simp]: "utf8_size (s @ t) = utf8_size s + utf8_size t"
  by (simp add: utf8_size_def)

lemma utf8_size_Cons: "utf8_size (c # s) = utf8_size [c] + utf8_size s"
  by (simp add: utf8_size_def)

lemma take_utf8_fits: "utf8_size (take_utf8 n s) \<le> n"
proof (induction n s rule: take_utf8.induct)
  case (2 n c s)
  then show ?case by (auto simp: Let_def utf8_size_Cons [of c "take_utf8 _ s"] simp del: utf8_size_append) (simp add: utf8_size_def)
qed (simp add: utf8_size_def)

lemma take_utf8_prefix: "prefix (take_utf8 n s) s"
  by (induction n s rule: take_utf8.induct) (simp_all add: Let_def)

lemma utf8_size_double: "utf8_size s \<le> 2 * length s"
  by (induction s) (simp_all add: utf8_size_def)

lemma show_nat_digits: "n < 10 ^ k \<Longrightarrow> 0 < k \<Longrightarrow> length (show_nat n) \<le> k"
proof (induction n arbitrary: k rule: show_nat.induct)
  case (1 n)
  show ?case
  proof (cases "n < 10")
    case False
    with "1.prems" obtain j where k: "k = Suc j" by (cases k) simp_all
    with "1.prems" False have "0 < j" by (cases j) simp_all
    note k = k this
    have "n div 10 < 10 ^ j" using "1.prems"(1) k(1) by (simp add: div_less_iff_less_mult mult.commute)
    from "1.IH" [OF False this k(2)] show ?thesis using False k(1) by (subst show_nat.simps) simp
  qed (use "1.prems" in \<open>subst show_nat.simps, simp\<close>)
qed

text \<open>A report carries at most 512 KiB of a diff; a longer one keeps its head.\<close>

lemma report_diff_bounded:
  assumes "cap_report_git_diff (Some s) = Some t" "utf8_size s < 10 ^ 40"
  shows "utf8_size t \<le> max_report_diff \<and> (\<exists>h m. t = h @ m \<and> prefix h s)"
proof (cases "utf8_size s \<le> max_report_diff")
  case False
  let ?m = "truncation_marker max_report_diff (utf8_size s)"
  have t: "t = take_utf8 (max_report_diff - utf8_size ?m) s @ ?m" using assms(1) False
    by (simp add: cap_report_git_diff_def Let_def)
  have "length (show_nat (utf8_size s)) \<le> 40" using show_nat_digits [OF assms(2)] by simp
  moreover have "length (show_nat max_report_diff) \<le> 6" using show_nat_digits [of max_report_diff 6] by (simp add: max_report_diff_def)
  ultimately have "length ?m \<le> 200" by (simp add: truncation_marker_def)
  then have "utf8_size ?m \<le> max_report_diff" using utf8_size_double [of ?m] by (simp add: max_report_diff_def)
  with take_utf8_fits [of "max_report_diff - utf8_size ?m" s] t show ?thesis by (auto intro: take_utf8_prefix)
qed (use assms(1) in \<open>auto simp: cap_report_git_diff_def\<close>)

lemma dossier_location_scheme:
  assumes "s \<in> set dossier_schemes" "CHR 0x2F \<notin> set bucket"
  shows "dossier_location (s @ bucket @ CHR 0x2F # key) = Some (bucket, key)"
  using assms by (auto simp: dossier_location_def dossier_schemes_def split_first_char)

section \<open>What a status says\<close>

lemma rescue_status:
  assumes "rescue env oc usage e w = (Inr (s, k), w')"
  shows "s \<in> {TIMED_OUT, INTERRUPTED, FAILED}"
proof -
  obtain t r where f: "failed_status env usage e w = (t, r)" by (cases "failed_status env usage e w")
  then have "t \<in> {TIMED_OUT, INTERRUPTED, FAILED}" by (auto simp: failed_status_def split: if_splits)
  with assms f show ?thesis by (auto simp: rescue_def st_catch_def st_bind_def split: prod.splits sum.splits)
qed

lemma rescue_total: "\<exists>k w'. rescue env oc usage e w = (Inr k, w')"
  by (auto simp: rescue_def st_catch_def st_bind_def split: prod.splits sum.splits)

lemma execute_work_total: "\<exists>k w'. execute_work env oc w = (Inr k, w')"
proof (cases "oe_build env w")
  case (Pair b v)
  show ?thesis
  proof (cases b)
    case (Inl e)
    with Pair rescue_total [of env oc None e v] show ?thesis by (simp add: execute_work_def)
  next
    case (Inr u)
    obtain a x where a: "attempt env oc v = (a, x)" by fastforce
    with Pair Inr rescue_total [of env oc "Some (oe_usage env x)" _ x] show ?thesis
      by (cases a) (auto simp: execute_work_def st_catch_def)
  qed
qed

lemma settled_completed: "settle_status k = (COMPLETED, r) \<Longrightarrow> r = k \<and> \<not> wk_blocked k \<and> \<not> wk_interrupted k"
  by (auto simp: settle_status_def split: if_splits)

lemma run_git_run: "run_git git args w = (Inr (out, err, rc), w') \<Longrightarrow> \<exists>o1 e1. git args w = (Inr (o1, e1, rc), w')"
  by (auto simp: run_git_def st_bind_Inr_iff)

lemma push_branch_Pushed:
  assumes "push_branch env branch w = (Inr Pushed, w')"
  shows "\<exists>u out err. oe_proc env [''git'', ''push'', ''-u'', ''origin'', branch] u = (Inr (out, err, 0), w')"
proof -
  from assms obtain out err rc where r: "run_git (oe_git env) [''push'', ''-u'', ''origin'', branch] (oe_refresh env w) = (Inr (out, err, rc), w')"
    and "rc = 0"
    unfolding push_branch_def st_bind_Inr_iff by (auto split: if_splits)
  from run_git_run [OF r] this(2) show ?thesis by (auto simp: oe_git_def)
qed

lemma create_branch_and_push_Pushed:
  assumes "create_branch_and_push env oc w = (Inr Pushed, w')"
  shows "\<exists>u out err. oe_proc env [''git'', ''push'', ''-u'', ''origin'', branch_name (oc_task oc)] u = (Inr (out, err, 0), w')"
proof -
  from assms obtain u where "push_branch env (branch_name (oc_task oc)) u = (Inr Pushed, w')"
    unfolding create_branch_and_push_def Let_def st_bind_Inr_iff by (auto simp: st_bind_Inr_iff)
  then show ?thesis by (rule push_branch_Pushed)
qed

text \<open>A completed work: the agent returned, and what it left was pushed unless no change was found.\<close>

lemma completed_work:
  assumes "execute_work env oc w = (Inr (COMPLETED, k), w')"
  obtains r u v where "oe_agent env u = (Inr r, v)" "rr_blocked r = None" "\<not> rr_interrupted r"
    "check_for_changes env v = (Inr False, w') \<and> wk_pushed k = None \<or>
     (\<exists>x out err. oe_proc env [''git'', ''push'', ''-u'', ''origin'', branch_name (oc_task oc)] x = (Inr (out, err, 0), w')) \<and>
       wk_pushed k = Some (branch_name (oc_task oc))"
proof -
  have no_rescue: "rescue env oc usage e x \<noteq> (Inr (COMPLETED, k), w')" for usage e x
    using rescue_status [of env oc usage e x COMPLETED k w'] by auto
  obtain b x where b: "oe_build env w = (b, x)" by fastforce
  with assms no_rescue have att: "attempt env oc x = (Inr (COMPLETED, k), w')"
    by (auto simp: execute_work_def st_catch_def split: sum.splits prod.splits)
  then obtain r v j where run: "oe_agent env x = (Inr r, v)" and j: "push_if_changed env oc (result_of_run r) v = (Inr j, w')"
    and k: "settle_status j = (COMPLETED, k)"
    by (auto simp: attempt_def st_bind_Inr_iff)
  from settled_completed [OF k] have k: "k = j" "\<not> wk_blocked j" "\<not> wk_interrupted j" by simp_all
  from j obtain c y where c: "check_for_changes env v = (Inr c, y)"
    and rest: "(if c then push_changes env oc (result_of_run r) else st_return (result_of_run r)) y = (Inr j, w')"
    by (auto simp: push_if_changed_def st_bind_Inr_iff)
  show ?thesis
  proof (cases c)
    case False
    with rest have "j = result_of_run r" "y = w'" by simp_all
    with k run c False show ?thesis by (intro that [OF run]) (simp_all add: result_of_run_def)
  next
    case True
    with rest obtain e where e: "create_branch_and_push env oc y = (Inr e, w')"
      and je: "j = (case e of Pushed \<Rightarrow> (result_of_run r)\<lparr>wk_pushed := Some (branch_name (oc_task oc))\<rparr>
         | WorkflowRefused \<Rightarrow> (result_of_run r)\<lparr>wk_blocked := True, wk_block_reason := Some workflow_push_refused_message,
             wk_error := Some workflow_push_refused_message\<rparr>)"
      by (auto simp: push_changes_def st_bind_Inr_iff)
    with k(2) have "e = Pushed" by (cases e) simp_all
    with e je k create_branch_and_push_Pushed [of env oc y w'] show ?thesis
      by (intro that [OF run]) (simp_all add: result_of_run_def)
  qed
qed

section \<open>Every life ends with a report\<close>

definition terminal_statuses :: "operative_status set" where
  "terminal_statuses = {COMPLETED, FAILED, TIMED_OUT, BLOCKED, INTERRUPTED}"

lemma execute_work_terminal: "execute_work env oc w = (Inr (s, k), w') \<Longrightarrow> s \<in> terminal_statuses"
proof -
  assume run: "execute_work env oc w = (Inr (s, k), w')"
  have "s \<in> terminal_statuses" if "attempt env oc x = (Inr (s, k), y)" for x y
    using that by (auto simp: attempt_def st_bind_Inr_iff settle_status_def terminal_statuses_def split: if_splits)
  moreover have "s \<in> terminal_statuses" if "rescue env oc usage e x = (Inr (s, k), y)" for usage e x y
    using rescue_status [OF that] by (auto simp: terminal_statuses_def)
  ultimately show ?thesis using run by (auto simp: execute_work_def st_catch_def split: prod.splits sum.splits)
qed

lemma persist_returns: "\<exists>v. persist_interrupted_report env ops rep w = (Inr (), v)"
  by (auto simp: persist_interrupted_report_def st_catch_def split: prod.splits sum.splits)

lemma deliver_publishes:
  "\<exists>v started'. deliver env oc started (s, k) w = publish_report env (work_report_of oc started started' s k) v"
proof -
  let ?rep = "work_report_of oc started (oe_now env w) s k"
  consider ops where "oe_store env = Some ops" "s = INTERRUPTED" | "oe_store env = None \<or> s \<noteq> INTERRUPTED" by (cases "oe_store env") auto
  then show ?thesis
  proof cases
    case 1
    with persist_returns [of env ops ?rep w] show ?thesis by (fastforce simp: deliver_def Let_def st_bind_def)
  next
    case 2
    then have "deliver env oc started (s, k) w = publish_report env ?rep w"
      by (auto simp: deliver_def Let_def st_bind_def split: option.splits)
    then show ?thesis by blast
  qed
qed


section \<open>Completed work\<close>

text \<open>
  C34: A node is reported completed only after its agent committed, or edited and three times had nothing
  more to do, and the branch was pushed as the last step unless no change was found.
\<close>

theorem completed_work_is_pushed:
  assumes "oe_agent env = run_agent ae store rc" "execute_work env oc w = (Inr (COMPLETED, k), w')"
  shows "(\<exists>acc a u v. agent_loop ae (started_agent ae rc acc) u = (Inr a, v) \<and>
       (ag_committed a \<or> ag_edited a \<and> 3 \<le> ag_text_only a)) \<and>
    ((\<exists>x out err. oe_proc env [''git'', ''push'', ''-u'', ''origin'', branch_name (oc_task oc)] x = (Inr (out, err, 0), w')) \<or>
     (\<exists>x. check_for_changes env x = (Inr False, w')))"
proof (intro conjI)
  from assms(2) obtain r u v where run: "oe_agent env u = (Inr r, v)" "rr_blocked r = None" "\<not> rr_interrupted r"
    and rest: "check_for_changes env v = (Inr False, w') \<and> wk_pushed k = None \<or>
     (\<exists>x out err. oe_proc env [''git'', ''push'', ''-u'', ''origin'', branch_name (oc_task oc)] x = (Inr (out, err, 0), w')) \<and>
       wk_pushed k = Some (branch_name (oc_task oc))"
    by (rule completed_work)
  from run(1) obtain acc x a y diff names where a: "agent_loop ae (started_agent ae rc acc) x = (Inr a, y)" and r: "r = run_result_of a diff names"
    by (auto simp: assms(1) run_agent_def st_bind_Inr_iff)
  have "has_cause a" by (rule agent_loop_cause [OF a])
  with run(2,3) r have "ag_committed a \<or> ag_edited a \<and> 3 \<le> ag_text_only a"
    by (auto simp: has_cause_def run_result_of_def split: if_splits)
  with a show "\<exists>acc a u v. agent_loop ae (started_agent ae rc acc) u = (Inr a, v) \<and>
       (ag_committed a \<or> ag_edited a \<and> 3 \<le> ag_text_only a)" by blast
  from rest show "(\<exists>x out err. oe_proc env [''git'', ''push'', ''-u'', ''origin'', branch_name (oc_task oc)] x = (Inr (out, err, 0), w')) \<or>
     (\<exists>x. check_for_changes env x = (Inr False, w'))" by (elim disjE conjE) (intro disjI2 exI, assumption, intro disjI1)
qed

text \<open>
  C36: Work that cannot be compared with the base is dropped without a word: when the agent committed
  everything and the count of its commits fails, as it does when the base branch was never fetched, the
  node is reported completed and nothing is pushed.
\<close>

theorem uncompared_work_completes:
  assumes "oe_build env w = (Inr (), w0)" "oe_agent env w0 = (Inr r, w1)" "rr_blocked r = None" "\<not> rr_interrupted r"
    and "run_git (oe_git env) [''status'', ''--porcelain''] w1 = (Inr ([], err1, rc1), w2)"
    and "detect_base_branch (oe_git env) w2 = (Inr base, w3)"
    and "run_git (oe_git env) [''rev-list'', ''--count'', ''origin/'' @ base @ ''..HEAD''] w3 = (Inr (out, err, rc), w4)" "rc \<noteq> 0"
  shows "execute_work env oc w = (Inr (COMPLETED, result_of_run r), w4) \<and> wk_pushed (result_of_run r) = None"
proof (intro conjI)
  have "check_for_changes env w1 = (Inr False, w4)"
    using assms(5-8) by (simp add: check_for_changes_def st_catch_def st_bind_def py_strip_def py_lstrip_def py_rstrip_def)
  with assms(1-4) show "execute_work env oc w = (Inr (COMPLETED, result_of_run r), w4)"
    by (simp add: execute_work_def st_catch_def attempt_def st_bind_def push_if_changed_def settle_status_def result_of_run_def)
  show "wk_pushed (result_of_run r) = None" by (simp add: result_of_run_def)
qed

text \<open>A refused push blocks a run that returned; after a time-out or an error the status stays, with the reason in the report.\<close>

lemma refused_push_blocks:
  assumes "oe_build env w = (Inr (), w0)" "oe_agent env w0 = (Inr r, w1)" "\<not> rr_interrupted r"
    and "check_for_changes env w1 = (Inr True, w2)" "create_branch_and_push env oc w2 = (Inr WorkflowRefused, w3)"
  shows "\<exists>k. execute_work env oc w = (Inr (BLOCKED, k), w3) \<and> wk_block_reason k = Some workflow_push_refused_message"
  using assms
  by (simp add: execute_work_def st_catch_def attempt_def st_bind_def push_if_changed_def push_changes_def settle_status_def result_of_run_def)

lemma refused_push_after_timeout:
  assumes "oe_build env w = (Inr (), w0)" "oe_agent env w0 = (Inl e, w1)" "oe_timeout env e"
    and "check_for_changes env w1 = (Inr True, w2)" "create_branch_and_push env oc w2 = (Inr WorkflowRefused, w3)"
  shows "\<exists>k. execute_work env oc w = (Inr (TIMED_OUT, k), w3) \<and> wk_block_reason k = Some workflow_push_refused_message"
  using assms
  by (simp add: execute_work_def st_catch_def attempt_def rescue_def failed_status_def st_bind_def push_if_changed_def push_changes_def
      result_of_failure_def)

section \<open>Witnesses\<close>

definition sample_oper :: "('w, run_result) store_op \<Rightarrow> (string list \<Rightarrow> int) \<Rightarrow> 'w oper_env" where
  "sample_oper agent code =
     \<lparr>oe_proc = (\<lambda>args w. (Inr ([], [], code args), w)), oe_exists = (\<lambda>_ _. False), oe_read = (\<lambda>_ w. (Inr [], w)),
      oe_append = (\<lambda>_ _ w. (Inr (), w)), oe_makedirs = (\<lambda>_ w. (Inr (), w)), oe_context = (\<lambda>_ w. (Inr (), w)),
      oe_download = (\<lambda>_ _ _ w. (Inr (), w)), oe_refresh = (\<lambda>w. w), oe_build = (\<lambda>w. (Inr (), w)), oe_agent = agent,
      oe_usage = (\<lambda>_. (get_telemetry (ag_guard (started_agent edit_env sample_config None)), 0)), oe_shutdown = (\<lambda>_. False),
      oe_now = (\<lambda>_. 0), oe_store = None, oe_dump = (\<lambda>_. JNull), oe_forwards = False, oe_confirm = (\<lambda>_ w. (Inr True, w)),
      oe_publish = (\<lambda>_ w. (Inr (), w)), oe_timeout = (\<lambda>_. False), oe_os_error = (\<lambda>_. False), oe_text = (\<lambda>_. []),
      oe_redact = (\<lambda>s. s)\<rparr>"

definition sample_oper_config :: oper_config where
  "sample_oper_config =
     \<lparr>oc_task = ''t'', oc_node = ''n'', oc_scheme = ''s'', oc_model = ''m'', oc_operative = ''o'', oc_email = [], oc_author = [],
      oc_repo_url = ''o/r'', oc_branch = [], oc_token = [], oc_dossier = None, oc_workspace_root = ''/workspace''\<rparr>"

lemma quiet_git [simp]: "oe_git (sample_oper m code) args w = (Inr ([], [], code (''git'' # args)), w)"
  by (simp add: oe_git_def sample_oper_def)

lemma quiet_run_git [simp]: "run_git (oe_git (sample_oper m code)) args w = (Inr ([], [], code (''git'' # args)), w)"
  by (simp add: run_git_def st_bind_def py_strip_def py_lstrip_def py_rstrip_def)

definition refuses_counts :: "string list \<Rightarrow> int" where
  "refuses_counts args = (if ''rev-list'' \<in> set args then 128 else 0)"

lemma quiet_base: "detect_base_branch (oe_git (sample_oper m refuses_counts)) w = (Inr ''main'', w)"
  by (simp add: detect_base_branch_def st_bind_def candidate_branches_def refuses_counts_def)

lemma sample_agent_run:
  "\<exists>r. run_agent outage_env None long_config 0 = (Inr r, 4) \<and> rr_blocked r = None \<and> \<not> rr_interrupted r"
proof -
  have "complete_without_commit (agent_loop outage_env (started_agent outage_env long_config None) 0) 4"
    by (rule outage_run)
  then obtain a where a: "agent_loop outage_env (started_agent outage_env long_config None) 0 = (Inr a, 4)"
    "ag_blocked a = None" "\<not> ag_interrupted a"
    by (auto simp: complete_without_commit_def split: prod.splits sum.splits)
  have git: "ae_git outage_env = (\<lambda>_ w. (Inr ([], [], 0), w))" by (simp add: outage_env_def scripted_env_def)
  have "\<exists>d. get_git_diff (ae_git outage_env) 4 = (Inr d, 4)" "\<exists>n. get_files_changed (ae_git outage_env) 4 = (Inr n, 4)"
    by (simp_all add: git get_git_diff_def get_files_changed_def detect_base_ref_def detect_base_branch_def candidate_branches_def
        run_git_def st_catch_def st_bind_def Let_def)
  with a show ?thesis by (auto simp: run_agent_def primed_accumulator_def st_bind_def run_result_of_def)
qed

lemma sample_completes:
  obtains r where "run_agent outage_env None long_config 0 = (Inr r, 4)"
    "execute_work (sample_oper (run_agent outage_env None long_config) refuses_counts) sample_oper_config 0 = (Inr (COMPLETED, result_of_run r), 4)"
proof -
  let ?E = "sample_oper (run_agent outage_env None long_config) refuses_counts"
  obtain r where r: "run_agent outage_env None long_config 0 = (Inr r, 4)" "rr_blocked r = None" "\<not> rr_interrupted r"
    using sample_agent_run by blast
  have ops: "oe_build ?E = (\<lambda>w. (Inr (), w))" "oe_agent ?E = run_agent outage_env None long_config" by (simp_all add: sample_oper_def)
  have "check_for_changes ?E 4 = (Inr False, 4)"
    by (simp add: check_for_changes_def st_catch_def st_bind_def quiet_base py_strip_def py_lstrip_def py_rstrip_def)
  with r have "execute_work ?E sample_oper_config 0 = (Inr (COMPLETED, result_of_run r), 4)"
    by (simp add: execute_work_def ops st_catch_def attempt_def st_bind_def push_if_changed_def settle_status_def result_of_run_def)
  with r(1) that show ?thesis by blast
qed

lemma completed_work_is_pushed_witness:
  "\<exists>k. execute_work (sample_oper (run_agent outage_env None long_config) refuses_counts) sample_oper_config 0 = (Inr (COMPLETED, k), 4) \<and>
     (\<exists>acc a u v. agent_loop outage_env (started_agent outage_env long_config acc) u = (Inr a, v) \<and>
       (ag_committed a \<or> ag_edited a \<and> 3 \<le> ag_text_only a))"
proof -
  let ?E = "sample_oper (run_agent outage_env None long_config) refuses_counts"
  obtain r where run: "execute_work ?E sample_oper_config 0 = (Inr (COMPLETED, result_of_run r), 4)" using sample_completes by blast
  have "oe_agent ?E = run_agent outage_env None long_config" by (simp add: sample_oper_def)
  from completed_work_is_pushed [OF this run] run show ?thesis by blast
qed

lemma uncompared_work_completes_witness:
  "\<exists>r. execute_work (sample_oper (run_agent outage_env None long_config) refuses_counts) sample_oper_config 0 = (Inr (COMPLETED, result_of_run r), 4) \<and>
     wk_pushed (result_of_run r) = None"
proof -
  let ?E = "sample_oper (run_agent outage_env None long_config) refuses_counts"
  obtain r where r: "run_agent outage_env None long_config 0 = (Inr r, 4)" "rr_blocked r = None" "\<not> rr_interrupted r"
    using sample_agent_run by blast
  have "execute_work ?E sample_oper_config 0 = (Inr (COMPLETED, result_of_run r), 4) \<and> wk_pushed (result_of_run r) = None"
  proof (rule uncompared_work_completes)
    show "oe_build ?E 0 = (Inr (), 0)" "oe_agent ?E 0 = (Inr r, 4)" using r(1) by (simp_all add: sample_oper_def)
    show "detect_base_branch (oe_git ?E) 4 = (Inr ''main'', 4)" by (rule quiet_base)
    show "run_git (oe_git ?E) [''rev-list'', ''--count'', ''origin/'' @ ''main'' @ ''..HEAD''] 4 = (Inr ([], [], 128), 4)"
      by (simp only: quiet_run_git) (simp add: refuses_counts_def)
  qed (use r in simp_all)
  then show ?thesis by blast
qed

end
