(* ===== verification/Normalizer.thy ===== *)
theory Normalizer
  imports UntrustedInput Settings Tracker PyText
begin

text \<open>
  How the dispatch service makes a task of what Slack, GitHub, Jira and the command line send
  (\<open>dispatch/normalizer.py\<close>, \<open>utils/repositories.py\<close>). A payload is JSON; an access the payload does not
  allow raises, as does a value the task model rejects. Which exception it is does not matter to any
  caller, so all of them are \<open>bad_payload\<close>.
\<close>

section \<open>Reading a payload\<close>

definition bad_payload :: store_error where
  "bad_payload = Raised ''payload''"

text \<open>\<open>v.get(k, d)\<close>\<close>

definition jget :: "json \<Rightarrow> string \<Rightarrow> json \<Rightarrow> store_error + json" where
  "jget v k d = (case v of JObj kvs \<Rightarrow> Inr (dict_get_or kvs k d) | _ \<Rightarrow> Inl bad_payload)"

text \<open>Where the model asks for a string, or for a string or none.\<close>

definition as_string :: "json \<Rightarrow> store_error + string" where
  "as_string v = (case v of JStr s \<Rightarrow> Inr s | _ \<Rightarrow> Inl bad_payload)"

definition as_optional :: "json \<Rightarrow> store_error + string option" where
  "as_optional v = (case v of JStr s \<Rightarrow> Inr (Some s) | JNull \<Rightarrow> Inr None | _ \<Rightarrow> Inl bad_payload)"

text \<open>\<open>v or w\<close>\<close>

definition py_or :: "json \<Rightarrow> json \<Rightarrow> json" where
  "py_or v w = (if py_true v then v else w)"

text \<open>\<open>o.get(k, d)\<close> as a string.\<close>

definition string_at :: "json \<Rightarrow> string \<Rightarrow> string \<Rightarrow> store_error + string" where
  "string_at v k d = res_bind (jget v k (JStr d)) as_string"

text \<open>The elements a loop over a value sees; a text of characters has no \<open>get\<close>.\<close>

definition as_items :: "json \<Rightarrow> store_error + json list" where
  "as_items v =
     (case v of JList xs \<Rightarrow> Inr xs | JObj kvs \<Rightarrow> Inr (map (\<lambda>e. JStr (fst e)) kvs) | JStr s \<Rightarrow> Inr (map (\<lambda>c. JStr [c]) s)
      | _ \<Rightarrow> Inl bad_payload)"

fun res_map :: "('a \<Rightarrow> store_error + 'b) \<Rightarrow> 'a list \<Rightarrow> store_error + 'b list" where
  "res_map f [] = Inr []"
| "res_map f (x # xs) = res_bind (f x) (\<lambda>y. res_bind (res_map f xs) (\<lambda>ys. Inr (y # ys)))"

definition label_names :: "json \<Rightarrow> store_error + string" where
  "label_names v =
     res_bind (as_items v) (\<lambda>ls.
     res_bind (res_map (\<lambda>l. res_bind (jget l ''name'' JNull) as_string) ls) (\<lambda>ns. Inr (join_with '','' ns)))"

section \<open>Repositories\<close>

record dispatch_settings =
  ds_base :: settings
  ds_default_repo :: string
  ds_default_org :: string
  ds_jira_repo_field :: string
  ds_jira_branch_field :: string
  ds_slack_secret :: string
  ds_github_secret :: string
  ds_jira_secret :: string
  ds_api_token :: string
  ds_task_topic :: string
  ds_ci_topic :: string
  ds_embed_topic :: string

definition qualify_repo :: "string \<Rightarrow> string \<Rightarrow> string" where
  "qualify_repo repo org =
     (let n = py_strip repo; owner = py_strip org in
      if n = [] \<or> CHR 0x2F \<in> set n \<or> owner = [] then n else owner @ ''/'' @ n)"

definition is_owner_name :: "string \<Rightarrow> bool" where
  "is_owner_name repo = (let ps = split_on CHR 0x2F repo in length ps = 2 \<and> list_all (\<lambda>p. py_strip p \<noteq> []) ps)"

definition default_repository :: "dispatch_settings \<Rightarrow> string" where
  "default_repository st = qualify_repo (ds_default_repo st) (ds_default_org st)"

definition resolve_repo :: "string \<Rightarrow> dispatch_settings \<Rightarrow> string" where
  "resolve_repo repo st =
     (if repo \<noteq> [] then repo
      else let d = default_repository st in if d \<noteq> [] \<and> \<not> is_owner_name d then [] else d)"

section \<open>The command line\<close>

text \<open>The body of \<open>POST /api/v1/tasks\<close> after validation (\<open>CreateTaskRequest\<close>).\<close>

record create_request =
  cr_heading :: string
  cr_text :: string
  cr_repo :: string
  cr_branch :: "string option"
  cr_priority :: task_priority
  cr_type :: "task_type option"
  cr_by :: string
  cr_id :: "string option"

text \<open>Two fresh identifiers: one for the source when it has none, one for the task.\<close>

type_synonym fresh_ids = "string \<times> string"

definition from_cli :: "fresh_ids \<Rightarrow> dispatch_settings \<Rightarrow> create_request \<Rightarrow> henchmen_task" where
  "from_cli ids st r =
     \<lparr>task_id = snd ids, task_source_of = CLI, source_id = (if str_truthy (cr_id r) then the (cr_id r) else fst ids),
      title = cr_heading r, description = cr_text r,
      task_ctx = \<lparr>ctx_repo = resolve_repo (cr_repo r) st, ctx_branch = cr_branch r, thread_messages = None, issue_fields = None, pr_diff = None\<rparr>,
      priority = cr_priority r, task_type_of = cr_type r, created_by = cr_by r\<rparr>"

section \<open>Slack\<close>

text \<open>\<open><@[A-Z0-9]+(?:\|[^>]*)?>\<close>\<close>

definition mention_char :: "char \<Rightarrow> bool" where
  "mention_char c = (let n = of_char c :: nat in (48 \<le> n \<and> n \<le> 57) \<or> (65 \<le> n \<and> n \<le> 90))"

definition mention_pattern :: regex where
  "mention_pattern =
     seq [literal ''<@'', Cls mention_char, Star (Cls mention_char),
          opt_re (Cat (lit_char CHR 0x7C) (Star (Cls (\<lambda>c. c \<noteq> CHR 0x3E)))), lit_char CHR 0x3E]"

definition strip_slack_mentions :: "string \<Rightarrow> string" where
  "strip_slack_mentions s =
     py_strip (py_replace ''@henchmen'' [] (py_replace ''<@henchmen>'' [] (re_sub mention_pattern (\<lambda>_. []) s)))"

text \<open>The messages of a thread, each once: the text, the messages of the payload, the fetched ones.\<close>

definition add_message :: "string list \<Rightarrow> string \<Rightarrow> string list" where
  "add_message ms m = (if m \<noteq> [] \<and> m \<notin> set ms then ms @ [m] else ms)"

definition texts_of :: "json list \<Rightarrow> string list" where
  "texts_of vs = List.map_filter (\<lambda>v. case v of JStr s \<Rightarrow> Some s | _ \<Rightarrow> None) vs"

definition slack_messages :: "json \<Rightarrow> json \<Rightarrow> string \<Rightarrow> store_error + string list" where
  "slack_messages event inner text =
     res_bind (jget event ''messages'' (JList [])) (\<lambda>ms.
     res_bind (as_items ms) (\<lambda>items.
     res_bind (res_map (\<lambda>m. res_bind (jget m ''text'' (JStr [])) (\<lambda>t. if py_true t then as_string t else Inr [])) items) (\<lambda>posted.
     res_bind (jget inner ''thread_messages'' (JList [])) (\<lambda>fs.
     res_bind (as_items (py_or fs (JList []))) (\<lambda>fetched.
     Inr (fold (\<lambda>m acc. add_message acc m) (texts_of fetched) (fold (\<lambda>m acc. add_message acc m) posted (add_message [] text))))))))"

definition slack_source :: "renderers \<Rightarrow> json \<Rightarrow> json \<Rightarrow> string \<Rightarrow> string" where
  "slack_source f channel ts u = (if py_true channel \<and> py_true ts then py_str f channel @ ''/'' @ py_str f ts else u)"

definition from_slack :: "renderers \<Rightarrow> fresh_ids \<Rightarrow> dispatch_settings \<Rightarrow> json \<Rightarrow> store_error + henchmen_task" where
  "from_slack f ids st event =
     res_bind (jget event ''event'' event) (\<lambda>inner.
     res_bind (string_at inner ''user'' ''unknown'') (\<lambda>user.
     res_bind (jget inner ''channel'' (JStr [])) (\<lambda>channel.
     res_bind (string_at inner ''text'' []) (\<lambda>text.
     res_bind (jget inner ''ts'' (JStr [])) (\<lambda>ts0.
     res_bind (jget inner ''thread_ts'' ts0) (\<lambda>ts.
     res_bind (slack_messages event inner text) (\<lambda>messages.
     res_bind (jget event ''repo'' (JStr [])) (\<lambda>repo0.
     res_bind (as_string (py_or repo0 (JStr []))) (\<lambda>repo.
     res_bind (jget event ''branch'' JNull) (\<lambda>branch0.
     res_bind (as_optional branch0) (\<lambda>branch.
     let heading = (let t = strip_slack_mentions text in if t = [] then ''Slack task'' else t) in
     Inr \<lparr>task_id = snd ids, task_source_of = SLACK, source_id = slack_source f channel ts (fst ids),
          title = take 200 heading, description = text,
          task_ctx = \<lparr>ctx_repo = resolve_repo repo st, ctx_branch = branch, thread_messages = Some messages, issue_fields = None, pr_diff = None\<rparr>,
          priority = NORMAL, task_type_of = None, created_by = user\<rparr>)))))))))))"

section \<open>GitHub\<close>

text \<open>The kinds of an event: a comment on an issue, an issue, a pull request, something else.\<close>

definition has_key :: "json \<Rightarrow> string \<Rightarrow> bool" where
  "has_key v k = (case v of JObj kvs \<Rightarrow> dict_get kvs k \<noteq> None | _ \<Rightarrow> False)"

text \<open>\<open>(a or b or {}).get("login", "github")\<close>\<close>

definition login_of :: "json \<Rightarrow> json \<Rightarrow> store_error + string" where
  "login_of a b = string_at (py_or a (py_or b (JObj []))) ''login'' ''github''"

definition text_or_empty :: "json \<Rightarrow> store_error + string" where
  "text_or_empty v = as_string (py_or v (JStr []))"

definition common_fields :: "renderers \<Rightarrow> json \<Rightarrow> string \<Rightarrow> store_error + (string, string) dict" where
  "common_fields f v action =
     res_bind (jget v ''number'' (JStr [])) (\<lambda>number.
     res_bind (jget v ''labels'' (JList [])) (\<lambda>ls.
     res_bind (label_names ls) (\<lambda>labels.
     res_bind (string_at v ''state'' []) (\<lambda>state.
     Inr [(''number'', py_str f number), (''labels'', labels), (''state'', state), (''action'', action)]))))"

record event_parts =
  ep_source :: string
  ep_heading :: string
  ep_text :: string
  ep_by :: string
  ep_branch :: "string option"
  ep_fields :: "(string, string) dict option"
  ep_diff :: "string option"

definition default_branch_of :: "json \<Rightarrow> store_error + string option" where
  "default_branch_of payload =
     res_bind (jget payload ''repository'' (JObj [])) (\<lambda>r. res_bind (jget r ''default_branch'' (JStr ''main'')) as_optional)"

definition comment_parts :: "renderers \<Rightarrow> string \<Rightarrow> json \<Rightarrow> json \<Rightarrow> string \<Rightarrow> store_error + event_parts" where
  "comment_parts f u payload comment action =
     res_bind (jget payload ''issue'' JNull) (\<lambda>issue.
     res_bind (jget issue ''number'' (JStr [])) (\<lambda>number.
     res_bind (jget issue ''pull_request'' JNull) (\<lambda>pr.
     res_bind (string_at issue ''title'' ''GitHub comment task'') (\<lambda>heading.
     res_bind (jget comment ''body'' (JStr [])) (\<lambda>body0.
     res_bind (text_or_empty body0) (\<lambda>body.
     res_bind (jget comment ''user'' JNull) (\<lambda>cu.
     res_bind (jget issue ''user'' JNull) (\<lambda>iu.
     res_bind (login_of cu iu) (\<lambda>by.
     res_bind (default_branch_of payload) (\<lambda>branch.
     res_bind (common_fields f issue action) (\<lambda>fields.
     Inr \<lparr>ep_source = (if py_true pr then ''pr'' else ''issue'') @ ''-'' @ (if py_true number then py_str f number else u),
          ep_heading = heading, ep_text = body, ep_by = by, ep_branch = branch,
          ep_fields = Some (fields @ [(''is_pull_request'', if py_true pr then ''true'' else ''false'')]), ep_diff = None\<rparr>)))))))))))"

definition issue_parts :: "renderers \<Rightarrow> string \<Rightarrow> json \<Rightarrow> string \<Rightarrow> store_error + event_parts" where
  "issue_parts f u payload action =
     res_bind (jget payload ''issue'' JNull) (\<lambda>issue.
     res_bind (jget issue ''number'' (JStr u)) (\<lambda>number.
     res_bind (string_at issue ''title'' ''GitHub issue task'') (\<lambda>heading.
     res_bind (jget issue ''body'' (JStr [])) (\<lambda>body0.
     res_bind (text_or_empty body0) (\<lambda>body.
     res_bind (jget issue ''user'' JNull) (\<lambda>iu.
     res_bind (login_of iu JNull) (\<lambda>by.
     res_bind (default_branch_of payload) (\<lambda>branch.
     res_bind (common_fields f issue action) (\<lambda>fields.
     Inr \<lparr>ep_source = ''issue-'' @ py_str f number, ep_heading = heading, ep_text = body, ep_by = by, ep_branch = branch,
          ep_fields = Some fields, ep_diff = None\<rparr>)))))))))"

definition pull_parts :: "renderers \<Rightarrow> string \<Rightarrow> json \<Rightarrow> json \<Rightarrow> string \<Rightarrow> store_error + event_parts" where
  "pull_parts f u payload comment action =
     res_bind (jget payload ''pull_request'' JNull) (\<lambda>pr.
     res_bind (jget pr ''number'' (JStr u)) (\<lambda>number.
     res_bind (string_at pr ''title'' ''GitHub PR task'') (\<lambda>heading.
     res_bind (jget pr ''body'' (JStr [])) (\<lambda>pr_body.
     res_bind (jget comment ''body'' (py_or pr_body (JStr []))) (\<lambda>body0.
     res_bind (as_string body0) (\<lambda>body.
     res_bind (jget comment ''user'' JNull) (\<lambda>cu.
     res_bind (jget pr ''user'' JNull) (\<lambda>pu.
     res_bind (login_of cu pu) (\<lambda>by.
     res_bind (jget pr ''head'' (JObj [])) (\<lambda>head.
     res_bind (jget head ''ref'' (JStr [])) (\<lambda>ref.
     res_bind (as_optional ref) (\<lambda>branch.
     res_bind (jget payload ''diff'' (JStr [])) (\<lambda>diff0.
     res_bind (as_optional diff0) (\<lambda>diff.
     res_bind (common_fields f pr action) (\<lambda>fields.
     Inr \<lparr>ep_source = ''pr-'' @ py_str f number, ep_heading = heading, ep_text = body, ep_by = by, ep_branch = branch,
          ep_fields = Some fields, ep_diff = diff\<rparr>)))))))))))))))"

definition other_parts :: "renderers \<Rightarrow> string \<Rightarrow> json \<Rightarrow> event_parts" where
  "other_parts f u action =
     \<lparr>ep_source = u, ep_heading = ''GitHub event: '' @ py_str f action, ep_text = [], ep_by = ''github'', ep_branch = Some ''main'',
      ep_fields = None, ep_diff = None\<rparr>"

definition event_parts_of :: "renderers \<Rightarrow> string \<Rightarrow> json \<Rightarrow> json \<Rightarrow> json \<Rightarrow> store_error + event_parts" where
  "event_parts_of f u payload comment action =
     (if has_key payload ''issue'' \<and> \<not> has_key payload ''pull_request'' \<and> py_true comment
      then res_bind (as_string action) (comment_parts f u payload comment)
      else if has_key payload ''issue'' \<and> \<not> has_key payload ''pull_request''
      then res_bind (as_string action) (issue_parts f u payload)
      else if has_key payload ''pull_request'' then res_bind (as_string action) (pull_parts f u payload comment)
      else Inr (other_parts f u action))"

definition from_github :: "renderers \<Rightarrow> fresh_ids \<Rightarrow> dispatch_settings \<Rightarrow> json \<Rightarrow> store_error + henchmen_task" where
  "from_github f ids st payload =
     res_bind (jget payload ''action'' (JStr [])) (\<lambda>action.
     res_bind (jget payload ''repository'' (JObj [])) (\<lambda>repository.
     res_bind (string_at repository ''full_name'' []) (\<lambda>repo.
     res_bind (jget payload ''comment'' JNull) (\<lambda>comment0.
     res_bind (event_parts_of f (fst ids) payload (py_or comment0 (JObj [])) action) (\<lambda>p.
     Inr \<lparr>task_id = snd ids, task_source_of = GITHUB, source_id = ep_source p, title = take 200 (ep_heading p), description = ep_text p,
          task_ctx = \<lparr>ctx_repo = (if repo = [] then resolve_repo [] st else repo), ctx_branch = ep_branch p, thread_messages = None,
            issue_fields = ep_fields p, pr_diff = ep_diff p\<rparr>,
          priority = NORMAL, task_type_of = None, created_by = ep_by p\<rparr>)))))"

section \<open>Jira\<close>

definition jira_keys :: "string \<Rightarrow> string \<Rightarrow> string list" where
  "jira_keys field fallback = (if field \<noteq> [] then [field, fallback] else [fallback])"

text \<open>The first key with a text: the value itself, or the \<open>value\<close> of an option object.\<close>

definition option_value :: "json \<Rightarrow> json" where
  "option_value v = (case v of JObj kvs \<Rightarrow> doc_get kvs ''value'' | _ \<Rightarrow> v)"

fun first_str :: "json \<Rightarrow> string list \<Rightarrow> store_error + string" where
  "first_str v [] = Inr []"
| "first_str v (k # ks) =
     res_bind (jget v k JNull) (\<lambda>x.
       case option_value x of JStr s \<Rightarrow> if py_strip s \<noteq> [] then Inr (py_strip s) else first_str v ks | _ \<Rightarrow> first_str v ks)"

definition first_in :: "json \<Rightarrow> json \<Rightarrow> string list \<Rightarrow> store_error + string" where
  "first_in flds payload ks =
     res_bind (first_str flds ks) (\<lambda>s. if s \<noteq> [] then Inr s else first_str payload ks)"

definition jira_priorities :: "(string, task_priority) dict" where
  "jira_priorities =
     [(''blocker'', CRITICAL), (''critical'', CRITICAL), (''major'', HIGH), (''high'', HIGH), (''normal'', NORMAL), (''medium'', NORMAL),
      (''minor'', LOW), (''low'', LOW), (''trivial'', LOW)]"

text \<open>\<open>(flds.get(k) or {}).get("name", d)\<close>\<close>

definition name_at :: "json \<Rightarrow> string \<Rightarrow> string \<Rightarrow> store_error + string" where
  "name_at flds k d = res_bind (jget flds k JNull) (\<lambda>v. string_at (py_or v (JObj [])) ''name'' d)"

definition jira_labels :: "json \<Rightarrow> store_error + string" where
  "jira_labels flds =
     res_bind (jget flds ''labels'' (JList [])) (\<lambda>v.
     res_bind (as_items v) (\<lambda>ls. res_bind (res_map as_string ls) (\<lambda>ns. Inr (join_with '','' ns))))"

definition from_jira :: "renderers \<Rightarrow> fresh_ids \<Rightarrow> dispatch_settings \<Rightarrow> json \<Rightarrow> store_error + henchmen_task" where
  "from_jira f ids st payload =
     res_bind (jget payload ''issue'' (JObj [])) (\<lambda>issue.
     res_bind (jget issue ''fields'' (JObj [])) (\<lambda>flds.
     res_bind (string_at issue ''key'' (fst ids)) (\<lambda>key.
     res_bind (jget payload ''transition'' (JObj [])) (\<lambda>transition.
     res_bind (jget flds ''summary'' JNull) (\<lambda>summary.
     res_bind (as_string (py_or summary (JStr (''Jira issue '' @ key)))) (\<lambda>heading.
     res_bind (jget flds ''description'' JNull) (\<lambda>text0.
     res_bind (text_or_empty text0) (\<lambda>text.
     res_bind (jget flds ''assignee'' JNull) (\<lambda>assignee.
     res_bind (jget flds ''reporter'' JNull) (\<lambda>reporter.
     res_bind (string_at (py_or assignee (py_or reporter (JObj []))) ''emailAddress'' ''jira'') (\<lambda>by.
     res_bind (first_in flds payload (jira_keys (ds_jira_repo_field st) ''repo'')) (\<lambda>repo.
     res_bind (first_in flds payload (jira_keys (ds_jira_branch_field st) ''branch'')) (\<lambda>branch.
     res_bind (name_at flds ''status'' []) (\<lambda>status.
     res_bind (string_at transition ''transitionName'' []) (\<lambda>move.
     res_bind (name_at flds ''priority'' ''normal'') (\<lambda>prio.
     res_bind (jira_labels flds) (\<lambda>labels.
     Inr \<lparr>task_id = snd ids, task_source_of = JIRA, source_id = key, title = take 200 heading, description = text,
          task_ctx = \<lparr>ctx_repo = resolve_repo repo st, ctx_branch = (if branch = [] then None else Some branch), thread_messages = None,
            issue_fields = Some [(''key'', key), (''status'', status), (''transition'', move), (''priority'', prio), (''labels'', labels)],
            pr_diff = None\<rparr>,
          priority = dict_get_or jira_priorities (py_lower prio) NORMAL, task_type_of = None, created_by = by\<rparr>)))))))))))))))))"

section \<open>What a task keeps\<close>

lemma owner_name_parts:
  assumes "is_owner_name r"
  shows "\<exists>a b. r = a @ CHR 0x2F # b \<and> CHR 0x2F \<notin> set a \<and> CHR 0x2F \<notin> set b \<and> py_strip a \<noteq> [] \<and> py_strip b \<noteq> []"
proof -
  obtain a b where ps: "split_on CHR 0x2F r = [a, b]" "py_strip a \<noteq> []" "py_strip b \<noteq> []"
    using assms by (auto simp: is_owner_name_def Let_def length_Suc_conv numeral_2_eq_2)
  have "r = join_with [CHR 0x2F] [a, b]" using ps(1) by (metis join_split_on)
  moreover have "CHR 0x2F \<notin> set a" "CHR 0x2F \<notin> set b" using split_on_parts [of a "CHR 0x2F" r] split_on_parts [of b "CHR 0x2F" r] ps(1) by simp_all
  ultimately show ?thesis using ps(2,3) by auto
qed

end
