(* ===== verification/Throttle.thy ===== *)
theory Throttle
  imports Prelude
begin

text \<open>
  The two in-process guards of the dispatch service: the set of recent deliveries
  (\<open>dispatch/idempotency.py\<close>) and the rate limiter (\<open>RateLimitMiddleware\<close> of \<open>dispatch/server.py\<close>). Instants
  are those of a monotonic clock.
\<close>

section \<open>Recent deliveries\<close>

record ttl_set =
  tt_ttl :: int
  tt_max :: nat
  tt_seen :: "(string, int) dict"

definition fresh_ttl_set :: ttl_set where
  "fresh_ttl_set = \<lparr>tt_ttl = 600000000, tt_max = 10000, tt_seen = []\<rparr>"

text \<open>\<open>_prune\<close>: what expired, then the oldest beyond the cap.\<close>

definition prune_seen :: "int \<Rightarrow> ttl_set \<Rightarrow> ttl_set" where
  "prune_seen now s =
     (let alive = filter (\<lambda>(k, t). \<not> now - t > tt_ttl s) (tt_seen s);
          oldest = map fst (take (length alive - tt_max s) (sort_key snd alive))
      in s\<lparr>tt_seen := filter (\<lambda>(k, t). k \<notin> set oldest) alive\<rparr>)"

definition add_if_absent :: "string \<Rightarrow> int \<Rightarrow> ttl_set \<Rightarrow> bool \<times> ttl_set" where
  "add_if_absent key now s =
     (if key = [] then (True, s)
      else (let s1 = prune_seen now s in
        if dict_get (tt_seen s1) key \<noteq> None then (False, s1)
        else (True, prune_seen now (s1\<lparr>tt_seen := dict_set (tt_seen s1) key now\<rparr>))))"

definition clear_seen :: "ttl_set \<Rightarrow> ttl_set" where
  "clear_seen s = s\<lparr>tt_seen := []\<rparr>"

section \<open>The set as a queue\<close>

text \<open>
  Under a monotonic clock the set is a queue: keys enter at the end, and both kinds of pruning take them
  from the front.
\<close>

definition ttl_ok :: "int \<Rightarrow> ttl_set \<Rightarrow> bool" where
  "ttl_ok now s \<longleftrightarrow> distinct (dict_keys (tt_seen s)) \<and> sorted (map snd (tt_seen s)) \<and> (\<forall>(k, t) \<in> set (tt_seen s). t \<le> now)"

lemma fresh_ttl_ok: "ttl_ok now fresh_ttl_set"
  by (simp add: ttl_ok_def fresh_ttl_set_def)

lemma sort_key_sorted: "sorted (map f xs) \<Longrightarrow> sort_key f xs = xs"
  by (simp add: sort_key_id_if_sorted)

lemma distinct_filter_drop:
  assumes "distinct (map f xs)" "A = f ` set (take n xs)"
  shows "filter (\<lambda>x. f x \<notin> A) xs = drop n xs"
proof -
  have "filter (\<lambda>x. f x \<notin> A) (take n xs) = []" using assms(2) by (simp add: filter_empty_conv)
  moreover have "filter (\<lambda>x. f x \<notin> A) (drop n xs) = drop n xs"
  proof (rule filter_True, intro ballI)
    fix x assume "x \<in> set (drop n xs)"
    moreover from assms(1) have "distinct (map f (take n xs) @ map f (drop n xs))" by (simp flip: map_append)
    ultimately show "f x \<notin> A" using assms(2) by auto
  qed
  ultimately have "filter (\<lambda>x. f x \<notin> A) (take n xs @ drop n xs) = drop n xs" by (simp only: filter_append append_Nil)
  then show ?thesis by simp
qed

lemma dict_set_new: "dict_get d k = None \<Longrightarrow> dict_set d k v = d @ [(k, v)]"
  by (induction d) (auto split: if_splits)

abbreviation alive_at :: "int \<Rightarrow> ttl_set \<Rightarrow> (string, int) dict" where
  "alive_at now s \<equiv> filter (\<lambda>(k, t). \<not> now - t > tt_ttl s) (tt_seen s)"

lemma prune_queue:
  assumes "ttl_ok now s"
  shows "prune_seen now s = s\<lparr>tt_seen := drop (length (alive_at now s) - tt_max s) (alive_at now s)\<rparr>"
proof -
  define a where "a = alive_at now s"
  have "sorted (map snd a)" "distinct (map fst a)"
    using assms by (auto simp: a_def ttl_ok_def sorted_filter distinct_map_filter)
  then have "filter (\<lambda>x. fst x \<notin> set (map fst (take n (sort_key snd a)))) a = drop n a" for n
    by (simp add: sort_key_sorted distinct_filter_drop)
  then show ?thesis unfolding prune_seen_def Let_def a_def [symmetric] by (simp add: case_prod_unfold)
qed

lemma ttl_ok_sub:
  assumes "ttl_ok now s"
  shows "ttl_ok now (s\<lparr>tt_seen := drop n (filter P (tt_seen s))\<rparr>)"
proof -
  have "sorted (map snd (filter P (tt_seen s)))" "distinct (map fst (filter P (tt_seen s)))"
    using assms by (auto simp: ttl_ok_def sorted_filter distinct_map_filter)
  moreover have "set (drop n (filter P (tt_seen s))) \<subseteq> set (tt_seen s)" by (meson filter_is_subset set_drop_subset subset_trans)
  ultimately show ?thesis using assms by (auto simp: ttl_ok_def drop_map [symmetric] sorted_wrt_drop)
qed

lemma prune_ok: "ttl_ok now s \<Longrightarrow> ttl_ok now (prune_seen now s)"
  using ttl_ok_sub by (simp add: prune_queue)

lemma prune_fits: "ttl_ok now s \<Longrightarrow> length (tt_seen (prune_seen now s)) \<le> tt_max s"
  by (simp add: prune_queue)

lemma add_ok:
  assumes "ttl_ok t s" "t \<le> now"
  shows "ttl_ok now (snd (add_if_absent key now s))"
proof -
  have s: "ttl_ok now s" using assms by (force simp: ttl_ok_def)
  note p = prune_ok [OF s]
  have "ttl_ok now (prune_seen now s\<lparr>tt_seen := dict_set (tt_seen (prune_seen now s)) key now\<rparr>)"
    if "dict_get (tt_seen (prune_seen now s)) key = None"
  proof -
    have "dict_set (tt_seen (prune_seen now s)) key now = tt_seen (prune_seen now s) @ [(key, now)]"
      using that by (rule dict_set_new)
    then show ?thesis using p that by (auto simp: ttl_ok_def sorted_append map_of_eq_None_iff)
  qed
  from prune_ok [OF this] s p show ?thesis unfolding add_if_absent_def Let_def by (cases "key = []") auto
qed

lemma prune_ttl [simp]: "tt_ttl (prune_seen now s) = tt_ttl s" "tt_max (prune_seen now s) = tt_max s"
  by (simp_all add: prune_seen_def Let_def)

lemma add_ttl [simp]: "tt_ttl (snd (add_if_absent key now s)) = tt_ttl s" "tt_max (snd (add_if_absent key now s)) = tt_max s"
  by (simp_all add: add_if_absent_def Let_def)

text \<open>A key entered at an instant with at most so many keys behind it.\<close>

definition recent :: "string \<Rightarrow> int \<Rightarrow> nat \<Rightarrow> ttl_set \<Rightarrow> bool" where
  "recent k t m s \<longleftrightarrow> (\<exists>pre post. tt_seen s = pre @ (k, t) # post \<and> length post \<le> m)"

lemma recent_get: "recent k t m s \<Longrightarrow> dict_get (tt_seen s) k \<noteq> None"
  by (auto simp: recent_def map_of_eq_None_iff)

lemma prune_recent:
  assumes "ttl_ok now s" "recent k t m s" "now - t \<le> tt_ttl s" "m < tt_max s"
  shows "recent k t m (prune_seen now s)"
proof -
  from assms(2) obtain pre post where s: "tt_seen s = pre @ (k, t) # post" "length post \<le> m" by (auto simp: recent_def)
  let ?P = "\<lambda>(k, t). \<not> now - t > tt_ttl s"
  have alive: "alive_at now s = filter ?P pre @ (k, t) # filter ?P post" using s(1) assms(3) by simp
  have "length (filter ?P post) \<le> m" using s(2) length_filter_le [of ?P post] by linarith
  moreover from this assms(4) have "length (alive_at now s) - tt_max s \<le> length (filter ?P pre)" unfolding alive by simp
  ultimately show ?thesis unfolding prune_queue [OF assms(1)] recent_def
    by (intro exI [of _ "drop (length (alive_at now s) - tt_max s) (filter ?P pre)"] exI [of _ "filter ?P post"]) (simp add: alive)
qed

lemma add_enters:
  assumes "ttl_ok now s" "add_if_absent k now s = (True, s')" "k \<noteq> []" "0 < tt_max s" "0 \<le> tt_ttl s"
  shows "recent k now 0 s'"
proof -
  let ?s = "prune_seen now s"
  let ?u = "?s\<lparr>tt_seen := tt_seen ?s @ [(k, now)]\<rparr>"
  from assms(2,3) have new: "dict_get (tt_seen ?s) k = None" and s': "s' = prune_seen now (?s\<lparr>tt_seen := dict_set (tt_seen ?s) k now\<rparr>)"
    by (auto simp: add_if_absent_def Let_def split: if_splits)
  have "ttl_ok now ?u" using prune_ok [OF assms(1)] new by (auto simp: ttl_ok_def sorted_append map_of_eq_None_iff)
  moreover have "recent k now 0 ?u" by (simp add: recent_def)
  ultimately have "recent k now 0 (prune_seen now ?u)" using assms(4,5) by (intro prune_recent) simp_all
  then show ?thesis unfolding s' dict_set_new [OF new] .
qed

lemma add_recent:
  assumes "ttl_ok now s" "recent k t m s" "now - t \<le> tt_ttl s" "Suc m < tt_max s"
  shows "recent k t (Suc m) (snd (add_if_absent key now s))"
proof -
  let ?s = "prune_seen now s"
  have r: "recent k t m ?s" using assms by (intro prune_recent) simp_all
  have weaker: "recent k t (Suc m) u" if "recent k t m u" for u using that by (force simp: recent_def)
  consider "key = []" | "key \<noteq> []" "dict_get (tt_seen ?s) key \<noteq> None" | "key \<noteq> []" "dict_get (tt_seen ?s) key = None" by blast
  then show ?thesis
  proof cases
    case 3
    let ?u = "?s\<lparr>tt_seen := tt_seen ?s @ [(key, now)]\<rparr>"
    have "ttl_ok now ?u" using prune_ok [OF assms(1)] 3(2) by (auto simp: ttl_ok_def sorted_append map_of_eq_None_iff)
    moreover have "recent k t (Suc m) ?u"
    proof -
      from r obtain pre post where "tt_seen ?s = pre @ (k, t) # post" "length post \<le> m" by (auto simp: recent_def)
      then show ?thesis unfolding recent_def by (intro exI [of _ pre] exI [of _ "post @ [(key, now)]"]) simp
    qed
    ultimately have "recent k t (Suc m) (prune_seen now ?u)" using assms(3,4) by (intro prune_recent) simp_all
    with 3 show ?thesis by (simp add: add_if_absent_def Let_def dict_set_new)
  qed (use r weaker assms(2) in \<open>simp_all add: add_if_absent_def Let_def\<close>)
qed

definition add_all :: "(string \<times> int) list \<Rightarrow> ttl_set \<Rightarrow> ttl_set" where
  "add_all es s = fold (\<lambda>(k, t) s. snd (add_if_absent k t s)) es s"

lemma add_all_recent:
  assumes "ttl_ok t0 s" "recent k t m s" "sorted (map snd es)" "\<forall>e\<in>set es. t0 \<le> snd e \<and> snd e \<le> t'" "t0 \<le> t'"
    "t' - t \<le> tt_ttl s" "m + length es < tt_max s"
  shows "\<exists>t1 \<le> t'. ttl_ok t1 (add_all es s) \<and> recent k t (m + length es) (add_all es s) \<and> tt_ttl (add_all es s) = tt_ttl s \<and>
    tt_max (add_all es s) = tt_max s"
  using assms
proof (induction es arbitrary: s m t0)
  case (Cons e es)
  let ?s = "snd (add_if_absent (fst e) (snd e) s)"
  have e: "t0 \<le> snd e" "snd e \<le> t'" using Cons.prems by simp_all
  have ok: "ttl_ok (snd e) s" using Cons.prems(1) e(1) by (force simp: ttl_ok_def)
  have "recent k t (Suc m) ?s" using ok Cons.prems e by (intro add_recent) simp_all
  moreover have "ttl_ok (snd e) ?s" using add_ok [OF ok] by simp
  ultimately have "\<exists>t1 \<le> t'. ttl_ok t1 (add_all es ?s) \<and> recent k t (Suc m + length es) (add_all es ?s) \<and>
      tt_ttl (add_all es ?s) = tt_ttl ?s \<and> tt_max (add_all es ?s) = tt_max ?s"
    using Cons.prems e by (intro Cons.IH [of "snd e"]) simp_all
  then show ?case by (simp add: add_all_def case_prod_unfold)
qed (auto simp: add_all_def)

text \<open>
  C39: A delivery that was let in is refused when it comes again within the time to live, as long as fewer
  other deliveries than the cap came in between.
\<close>

theorem replay_refused:
  assumes "ttl_ok t0 s" "t0 \<le> t" "add_if_absent key t s = (True, s')" "key \<noteq> []"
    and "sorted (map snd es)" "\<forall>e\<in>set es. t \<le> snd e \<and> snd e \<le> t'" "t \<le> t'" "t' - t \<le> tt_ttl s" "length es < tt_max s"
  shows "fst (add_if_absent key t' (add_all es s')) = False"
proof -
  have ok: "ttl_ok t s" using assms(1,2) by (force simp: ttl_ok_def)
  have s': "ttl_ok t s'" "tt_ttl s' = tt_ttl s" "tt_max s' = tt_max s"
    using add_ok [OF ok, of t key] add_ttl [of key t s] assms(3) by simp_all
  have "recent key t 0 s'" using assms(3,4,7,8,9) by (intro add_enters [OF ok]) simp_all
  from add_all_recent [OF s'(1) this assms(5,6,7)] assms(8,9) s' obtain t1 where
    r: "t1 \<le> t'" "ttl_ok t1 (add_all es s')" "recent key t (length es) (add_all es s')" "tt_ttl (add_all es s') = tt_ttl s"
      "tt_max (add_all es s') = tt_max s" by auto
  have "ttl_ok t' (add_all es s')" using r(1,2) by (force simp: ttl_ok_def)
  with r assms(8,9) have "recent key t (length es) (prune_seen t' (add_all es s'))" by (intro prune_recent) simp_all
  from recent_get [OF this] assms(4) show ?thesis by (simp add: add_if_absent_def Let_def)
qed

lemma replay_refused_witness:
  "fst (add_if_absent ''a'' 3 (add_all [(''b'', 2)] (snd (add_if_absent ''a'' 1 fresh_ttl_set)))) = False"
proof (rule replay_refused [OF fresh_ttl_ok [of 0]])
  show "add_if_absent ''a'' 1 fresh_ttl_set = (True, snd (add_if_absent ''a'' 1 fresh_ttl_set))"
    by (simp add: prod_eq_iff) (simp add: add_if_absent_def fresh_ttl_set_def prune_seen_def Let_def)
qed (simp_all add: fresh_ttl_set_def)

section \<open>The rate limiter\<close>

record limiter =
  lm_limit :: nat
  lm_window :: int
  lm_requests :: "(string, int list) dict"

definition new_limiter :: "nat \<Rightarrow> int \<Rightarrow> limiter" where
  "new_limiter n window = \<lparr>lm_limit = n, lm_window = window, lm_requests = []\<rparr>"

definition evict_idle :: "int \<Rightarrow> limiter \<Rightarrow> limiter" where
  "evict_idle start l = l\<lparr>lm_requests := filter (\<lambda>(k, ts). \<not> (ts = [] \<or> last ts \<le> start)) (lm_requests l)\<rparr>"

text \<open>Whether a request of a client is let through.\<close>

definition rate_limit :: "string \<Rightarrow> int \<Rightarrow> limiter \<Rightarrow> bool \<times> limiter" where
  "rate_limit client now l =
     (let start = now - lm_window l; ts = filter (\<lambda>t. start < t) (dict_get_or (lm_requests l) client []) in
      if lm_limit l \<le> length ts then (False, l\<lparr>lm_requests := dict_set (lm_requests l) client ts\<rparr>)
      else (True, evict_idle start (l\<lparr>lm_requests := dict_set (lm_requests l) client (ts @ [now])\<rparr>)))"

text \<open>The requests that are let through, in their order, and the limiter after them.\<close>

fun admit :: "(string \<times> int) list \<Rightarrow> (string \<times> int) list \<times> limiter \<Rightarrow> (string \<times> int) list \<times> limiter" where
  "admit [] s = s"
| "admit ((c, t) # es) (acc, l) = (let (ok, l') = rate_limit c t l in admit es (if ok then acc @ [(c, t)] else acc, l'))"

definition admitted :: "nat \<Rightarrow> int \<Rightarrow> (string \<times> int) list \<Rightarrow> (string \<times> int) list" where
  "admitted n window es = fst (admit es ([], new_limiter n window))"

definition times_of :: "string \<Rightarrow> (string \<times> int) list \<Rightarrow> int list" where
  "times_of c acc = map snd (filter (\<lambda>e. fst e = c) acc)"

text \<open>How many requests of a client a window that ends at an instant lets through.\<close>

definition in_window :: "string \<Rightarrow> int \<Rightarrow> int \<Rightarrow> (string \<times> int) list \<Rightarrow> nat" where
  "in_window c window t acc = length (filter (\<lambda>x. t - window < x \<and> x \<le> t) (times_of c acc))"

text \<open>
  The bucket of a client holds the end of its admitted instants, and those before it are outside of every
  window that is still to come.
\<close>

definition limiter_ok :: "int \<Rightarrow> (string \<times> int) list \<times> limiter \<Rightarrow> bool" where
  "limiter_ok now s \<longleftrightarrow>
     (\<forall>c. sorted (times_of c (fst s)) \<and> (\<forall>x\<in>set (times_of c (fst s)). x \<le> now) \<and>
       (\<exists>old. times_of c (fst s) = old @ dict_get_or (lm_requests (snd s)) c [] \<and> (\<forall>x\<in>set old. x \<le> now - lm_window (snd s)))) \<and>
     (\<forall>c t. in_window c (lm_window (snd s)) t (fst s) \<le> lm_limit (snd s)) \<and> distinct (dict_keys (lm_requests (snd s)))"

lemma new_limiter_ok: "limiter_ok now ([], new_limiter n window)"
  by (simp add: limiter_ok_def new_limiter_def times_of_def in_window_def)

lemma times_of_append [simp]: "times_of c (acc @ [(d, t)]) = times_of c acc @ (if d = c then [t] else [])"
  by (simp add: times_of_def)

lemma rate_limit_fixed [simp]: "lm_limit (snd (rate_limit c t l)) = lm_limit l" "lm_window (snd (rate_limit c t l)) = lm_window l"
  by (simp_all add: rate_limit_def Let_def evict_idle_def)

lemma sorted_split: "sorted xs \<Longrightarrow> xs = filter (\<lambda>x. x \<le> (a::int)) xs @ filter (\<lambda>x. a < x) xs"
proof (induction xs)
  case (Cons x xs)
  show ?case
  proof (cases "x \<le> a")
    case False
    with Cons.prems have "filter (\<lambda>x. x \<le> a) xs = []" "filter (\<lambda>x. a < x) xs = xs"
      by (auto simp: filter_empty_conv intro!: filter_True)
    with False show ?thesis by simp
  qed (use Cons in simp)
qed simp

lemma dict_get_filter:
  assumes "distinct (dict_keys d)"
  shows "dict_get_or (filter (\<lambda>(k, v). P v) d) c [] = (let v = dict_get_or d c [] in if P v then v else [])"
  using assms
proof (induction d)
  case (Cons e d)
  obtain k v where e: "e = (k, v)" by (cases e)
  show ?case
  proof (cases "k = c")
    case True
    with Cons.prems e have "dict_get d c = None" by (auto simp: map_of_eq_None_iff)
    moreover from this have "dict_get (filter (\<lambda>(k, v). P v) d) c = None" by (auto simp: map_of_eq_None_iff)
    ultimately show ?thesis using e True by (simp add: dict_get_or_def Let_def)
  qed (use Cons e in \<open>simp add: dict_get_or_def Let_def\<close>)
qed (simp add: dict_get_or_def)

lemma length_filter_mono: "(\<And>x. x \<in> set xs \<Longrightarrow> P x \<Longrightarrow> Q x) \<Longrightarrow> length (filter P xs) \<le> length (filter Q xs)"
  by (induction xs) (auto simp: le_SucI)

text \<open>A bucket that is cut or dropped leaves only instants outside of the window.\<close>

lemma bucket_cut:
  assumes "ts = old @ b" "sorted ts" "\<forall>x\<in>set old. x \<le> a" "a \<le> (start::int)"
  shows "\<exists>old'. ts = old' @ filter (\<lambda>x. start < x) b \<and> (\<forall>x\<in>set old'. x \<le> start)"
proof -
  have "b = filter (\<lambda>x. x \<le> start) b @ filter (\<lambda>x. start < x) b" proof -
    have "sorted b" using assms(1,2) by (simp add: sorted_append)
    then show ?thesis by (rule sorted_split)
  qed
  with assms show ?thesis by (intro exI [of _ "old @ filter (\<lambda>x. x \<le> start) b"]) auto
qed

lemma bucket_dropped:
  assumes "ts = old @ b" "sorted ts" "\<forall>x\<in>set old. x \<le> start" "b = [] \<or> last b \<le> start"
  shows "\<forall>x\<in>set ts. x \<le> (start::int)"
proof -
  have "x \<le> last b" if "x \<in> set b" for x
  proof -
    from that obtain ys z where "b = ys @ [z]" by (cases b rule: rev_cases) auto
    with that assms(1,2) show ?thesis by (auto simp: sorted_append)
  qed
  with assms show ?thesis by force
qed

lemma limiter_bucketE:
  assumes "limiter_ok now (acc, l)"
  obtains old where "times_of d acc = old @ dict_get_or (lm_requests l) d []" "\<forall>x\<in>set old. x \<le> now - lm_window l"
    "sorted (times_of d acc)"
proof -
  from assms have "sorted (times_of d acc)" "\<exists>old. times_of d acc = old @ dict_get_or (lm_requests l) d [] \<and> (\<forall>x\<in>set old. x \<le> now - lm_window l)"
    unfolding limiter_ok_def fst_conv snd_conv by blast+
  with that show ?thesis by blast
qed

lemma rate_limit_refused:
  assumes ok: "limiter_ok now (acc, l)" and le: "now \<le> t" and r: "rate_limit c t l = (False, l')"
  shows "limiter_ok t (acc, l')"
proof -
  let ?b = "filter (\<lambda>x. t - lm_window l < x) (dict_get_or (lm_requests l) c [])"
  have l': "l' = l\<lparr>lm_requests := dict_set (lm_requests l) c ?b\<rparr>"
    using r by (auto simp: rate_limit_def Let_def split: if_splits)
  have bucket: "\<exists>old. times_of d acc = old @ dict_get_or (lm_requests l') d [] \<and> (\<forall>x\<in>set old. x \<le> t - lm_window l)" for d
  proof -
    from ok obtain old where old: "times_of d acc = old @ dict_get_or (lm_requests l) d []" "\<forall>x\<in>set old. x \<le> now - lm_window l"
      "sorted (times_of d acc)" by (rule limiter_bucketE)
    show ?thesis
    proof (cases "d = c")
      case True
      with bucket_cut [OF old(1,3,2), of "t - lm_window l"] le l' show ?thesis by simp
    next
      case False
      with old le l' show ?thesis by (force intro: exI [of _ old])
    qed
  qed
  have "\<forall>x\<in>set (times_of d acc). x \<le> t" for d using ok le by (force simp: limiter_ok_def)
  with ok bucket l' show ?thesis by (simp add: limiter_ok_def distinct_update)
qed

lemma rate_limit_admitted:
  assumes ok: "limiter_ok now (acc, l)" and le: "now \<le> t" and r: "rate_limit c t l = (True, l')"
  shows "limiter_ok t (acc @ [(c, t)], l')"
proof -
  let ?start = "t - lm_window l"
  let ?b = "filter (\<lambda>x. ?start < x) (dict_get_or (lm_requests l) c [])"
  let ?reqs = "dict_set (lm_requests l) c (?b @ [t])"
  have room: "length ?b < lm_limit l" and l': "l' = evict_idle ?start (l\<lparr>lm_requests := ?reqs\<rparr>)"
    using r by (auto simp: rate_limit_def Let_def split: if_splits)
  have dist: "distinct (dict_keys ?reqs)" using ok by (simp add: limiter_ok_def distinct_update)
  have times: "sorted (times_of d (acc @ [(c, t)]))" "\<forall>x\<in>set (times_of d (acc @ [(c, t)])). x \<le> t" for d
    using ok le by (force simp: limiter_ok_def sorted_append)+
  have before: "\<exists>old. times_of d (acc @ [(c, t)]) = old @ dict_get_or ?reqs d [] \<and> (\<forall>x\<in>set old. x \<le> ?start)" for d
  proof -
    from ok obtain old where old: "times_of d acc = old @ dict_get_or (lm_requests l) d []" "\<forall>x\<in>set old. x \<le> now - lm_window l"
      "sorted (times_of d acc)" by (rule limiter_bucketE)
    show ?thesis
    proof (cases "d = c")
      case True
      with bucket_cut [OF old(1,3,2), of ?start] le show ?thesis by auto
    next
      case False
      with old le show ?thesis by (force intro: exI [of _ old])
    qed
  qed
  have bucket: "\<exists>old. times_of d (acc @ [(c, t)]) = old @ dict_get_or (lm_requests l') d [] \<and> (\<forall>x\<in>set old. x \<le> ?start)" for d
  proof -
    from before obtain old where old: "times_of d (acc @ [(c, t)]) = old @ dict_get_or ?reqs d []" "\<forall>x\<in>set old. x \<le> ?start" by blast
    have get: "dict_get_or (lm_requests l') d [] =
        (let v = dict_get_or ?reqs d [] in if \<not> (v = [] \<or> last v \<le> ?start) then v else [])"
      unfolding l' evict_idle_def using dict_get_filter [OF dist, of "\<lambda>ts. \<not> (ts = [] \<or> last ts \<le> ?start)" d] by simp
    show ?thesis
    proof (cases "dict_get_or ?reqs d [] = [] \<or> last (dict_get_or ?reqs d []) \<le> ?start")
      case True
      then have "dict_get_or (lm_requests l') d [] = []" unfolding get Let_def by (intro if_not_P) simp
      with bucket_dropped [OF old(1) times(1) old(2) True] show ?thesis by (intro exI [of _ "times_of d (acc @ [(c, t)])"]) simp
    next
      case False
      then have "dict_get_or (lm_requests l') d [] = dict_get_or ?reqs d []" unfolding get Let_def by (rule if_P)
      with old show ?thesis by (intro exI [of _ old]) simp
    qed
  qed
  have window: "in_window d (lm_window l) u (acc @ [(c, t)]) \<le> lm_limit l" for d u
  proof (cases "d = c \<and> t \<le> u \<and> u - lm_window l < t")
    case True
    from ok obtain old where old: "times_of c acc = old @ dict_get_or (lm_requests l) c []" "\<forall>x\<in>set old. x \<le> now - lm_window l"
      by (rule limiter_bucketE)
    have "filter (\<lambda>x. ?start < x) old = []" using old(2) le by (force simp: filter_empty_conv)
    then have b: "filter (\<lambda>x. ?start < x) (times_of c acc) = ?b" by (simp add: old(1))
    have "length (filter (\<lambda>x. u - lm_window l < x \<and> x \<le> u) (times_of c acc)) \<le> length (filter (\<lambda>x. ?start < x) (times_of c acc))"
      using True by (intro length_filter_mono) simp
    with room True show ?thesis by (simp add: in_window_def b)
  next
    case False
    then have "in_window d (lm_window l) u (acc @ [(c, t)]) = in_window d (lm_window l) u acc" by (auto simp: in_window_def)
    with ok show ?thesis by (simp add: limiter_ok_def)
  qed
  have "distinct (dict_keys (lm_requests l'))" using dist by (simp add: l' evict_idle_def distinct_map_filter)
  with times bucket window show ?thesis by (simp add: limiter_ok_def l' evict_idle_def)
qed

lemma admit_ok:
  "limiter_ok now s \<Longrightarrow> sorted (map snd es) \<Longrightarrow> \<forall>e\<in>set es. now \<le> snd e \<Longrightarrow>
     \<exists>t. limiter_ok t (admit es s) \<and> lm_limit (snd (admit es s)) = lm_limit (snd s) \<and> lm_window (snd (admit es s)) = lm_window (snd s)"
proof (induction es s arbitrary: now rule: admit.induct)
  case (2 c t es acc l)
  obtain ok l' where r: "rate_limit c t l = (ok, l')" by fastforce
  have "limiter_ok t (if ok then acc @ [(c, t)] else acc, l')"
    using rate_limit_refused [OF "2.prems"(1)] rate_limit_admitted [OF "2.prems"(1)] "2.prems"(3) r by (cases ok) simp_all
  moreover have "lm_limit l' = lm_limit l" "lm_window l' = lm_window l" using rate_limit_fixed [of c t l] r by simp_all
  ultimately show ?case using "2.IH" [OF refl r [symmetric], of t] "2.prems"(2) r by simp
qed auto

text \<open>
  C38: Whatever the requests are, no window of time lets more requests of one client through than the limit.
\<close>

theorem rate_is_limited:
  assumes "sorted (map snd es)"
  shows "in_window c window t (admitted n window es) \<le> n"
proof -
  have "\<forall>e\<in>set es. (case es of [] \<Rightarrow> 0 | e # _ \<Rightarrow> snd e) \<le> snd e" using assms by (cases es) auto
  from admit_ok [OF new_limiter_ok assms this, of n window] obtain u where "limiter_ok u (admit es ([], new_limiter n window))"
    "lm_limit (snd (admit es ([], new_limiter n window))) = n" "lm_window (snd (admit es ([], new_limiter n window))) = window"
    by (auto simp: new_limiter_def)
  then show ?thesis by (auto simp: limiter_ok_def admitted_def)
qed

lemma rate_is_limited_witness: "in_window ''a'' 10 5 (admitted 2 10 [(''a'', 1), (''b'', 2), (''a'', 3), (''a'', 4), (''a'', 12)]) \<le> 2"
  by (rule rate_is_limited) simp

end
