(* ===== verification/Credentials.thy ===== *)
theory Credentials
  imports Settings PyText Tracker
begin

text \<open>
  GitHub credentials (\<open>utils/github_auth.py\<close>): repository references, the three settings of a GitHub App, and the
  provider that hands out installation tokens or the personal access token. The cache of a provider is state; the
  clock, the key file, the signature and GitHub itself are operations of the outside. Instants are exact
  numbers of seconds. A process keeps one provider per configuration, so that calls share its cache.
\<close>

section \<open>Errors\<close>

text \<open>The exceptions by their class; the status is GitHub's when GitHub refused the request.\<close>

datatype auth_error =
    AuthPlain string "int option"
  | AuthConfiguration string
  | AuthAccess string "int option"
  | AuthKey string
  | AuthReference string

type_synonym ('s, 'a) auth_op = "'s \<Rightarrow> (auth_error + 'a) \<times> 's"

definition au_bind :: "('s, 'a) auth_op \<Rightarrow> ('a \<Rightarrow> ('s, 'b) auth_op) \<Rightarrow> ('s, 'b) auth_op" where
  "au_bind m f s = (case m s of (Inl e, s') \<Rightarrow> (Inl e, s') | (Inr a, s') \<Rightarrow> f a s')"

definition au_lift :: "auth_error + 'a \<Rightarrow> ('s, 'a) auth_op" where
  "au_lift r s = (r, s)"

lemma au_bind_Inr_iff: "au_bind m f s = (Inr b, t) \<longleftrightarrow> (\<exists>a s'. m s = (Inr a, s') \<and> f a s' = (Inr b, t))"
  by (auto simp: au_bind_def split: prod.splits sum.splits)

lemma au_lift_simp [simp]: "au_lift r s = (r, s)"
  by (simp add: au_lift_def)

section \<open>Repository references\<close>

text \<open>\<open>[A-Za-z0-9][A-Za-z0-9-]{0,38}\<close> and \<open>[A-Za-z0-9._-]{1,100}\<close>\<close>

definition owner_ok :: "string \<Rightarrow> bool" where
  "owner_ok s \<longleftrightarrow> (case s of [] \<Rightarrow> False | c # r \<Rightarrow> is_alnum c \<and> length r \<le> 38 \<and> list_all (\<lambda>d. is_alnum d \<or> d = CHR 0x2D) r)"

definition name_char :: "char \<Rightarrow> bool" where
  "name_char c \<longleftrightarrow> is_alnum c \<or> c \<in> set ''._-''"

definition name_ok :: "string \<Rightarrow> bool" where
  "name_ok s \<longleftrightarrow> s \<noteq> [] \<and> length s \<le> 100 \<and> list_all name_char s"

definition host_ok :: "string \<Rightarrow> bool" where
  "host_ok s \<longleftrightarrow> s \<noteq> [] \<and> list_all (\<lambda>c. is_alnum c \<or> c \<in> set ''.-'') s"

text \<open>A host with the port \<open>:\d{1,5}\<close> or without one.\<close>

definition host_port_ok :: "string \<Rightarrow> bool" where
  "host_port_ok s =
     (case split_on CHR 0x3A s of
        [h] \<Rightarrow> host_ok h
      | [h, p] \<Rightarrow> host_ok h \<and> p \<noteq> [] \<and> length p \<le> 5 \<and> list_all is_digit p
      | _ \<Rightarrow> False)"

definition repo_pair :: "string list \<Rightarrow> (string \<times> string) option" where
  "repo_pair ps = (case ps of [ow, n] \<Rightarrow> if owner_ok ow \<and> name_ok n then Some (ow, n) else None | _ \<Rightarrow> None)"

definition match_short :: "string \<Rightarrow> (string \<times> string) option" where
  "match_short s = repo_pair (split_on CHR 0x2F s)"

definition match_https :: "string \<Rightarrow> (string \<times> string) option" where
  "match_https s =
     (if \<not> prefix ''https://'' s then None
      else (case split_on CHR 0x2F (drop 8 s) of
              h # ps \<Rightarrow> if host_port_ok h then repo_pair ps else None
            | [] \<Rightarrow> None))"

definition match_ssh :: "string \<Rightarrow> (string \<times> string) option" where
  "match_ssh s =
     (if \<not> prefix ''git@'' s then None
      else (case split_first '':'' (drop 4 s) of
              Some (h, path) \<Rightarrow> if host_ok h then match_short path else None
            | None \<Rightarrow> None))"

definition without_suffix :: "string \<Rightarrow> string \<Rightarrow> string" where
  "without_suffix x s = (if suffix x s then take (length s - length x) s else s)"

definition bad_reference :: auth_error where
  "bad_reference = AuthReference ''The repository for a GitHub installation token must be owner/name or a GitHub clone URL''"

text \<open>The first pattern that matches decides; \<open>None\<close> is no repository.\<close>

definition parse_repository :: "string option \<Rightarrow> auth_error + (string \<times> string) option" where
  "parse_repository repo =
     (if blank repo then Inr None
      else (let text = py_strip (the repo); bare = without_suffix ''.git'' text in
        case List.map_filter id [match_short text, match_https bare, match_ssh bare] of
          [] \<Rightarrow> Inl bad_reference
        | (ow, n) # _ \<Rightarrow> if n \<in> {''.'', ''..''} \<or> suffix ''.git'' n then Inl bad_reference else Inr (Some (ow, n))))"

definition slug_text :: "string \<times> string \<Rightarrow> string" where
  "slug_text r = fst r @ ''/'' @ snd r"

section \<open>The settings of a GitHub App\<close>

record app_config =
  app_identifier :: string
  app_key_path :: string
  app_installation :: string

text \<open>A value that is no string is \<open>None\<close>.\<close>

definition setting_text :: "string option \<Rightarrow> string" where
  "setting_text v = (case v of None \<Rightarrow> [] | Some s \<Rightarrow> py_strip s)"

definition app_from_values :: "string option \<Rightarrow> string option \<Rightarrow> string option \<Rightarrow> app_config option" where
  "app_from_values a k i =
     (if setting_text a = [] \<or> setting_text k = [] \<or> setting_text i = [] then None
      else Some \<lparr>app_identifier = setting_text a, app_key_path = setting_text k, app_installation = setting_text i\<rparr>)"

definition app_setting_names :: "string list" where
  "app_setting_names = [''HENCHMEN_GITHUB_APP_ID'', ''HENCHMEN_GITHUB_APP_PRIVATE_KEY_PATH'', ''HENCHMEN_GITHUB_APP_INSTALLATION_ID'']"

definition partial_app_message :: "string option \<Rightarrow> string option \<Rightarrow> string option \<Rightarrow> string option" where
  "partial_app_message a k i =
     (let present = map (\<lambda>v. setting_text v \<noteq> []) [a, k, i] in
      if list_all id present \<or> \<not> list_ex id present then None
      else Some (''The GitHub App is only partly configured: set '' @
                 join_with '', '' (map fst (filter (\<lambda>p. \<not> snd p) (zip app_setting_names present))) @ ''.''))"

definition app_awaiting_installation :: "string option \<Rightarrow> string option \<Rightarrow> string option \<Rightarrow> bool" where
  "app_awaiting_installation a k i \<longleftrightarrow> setting_text a \<noteq> [] \<and> setting_text k \<noteq> [] \<and> setting_text i = []"

section \<open>A provider\<close>

record issued_token =
  it_token :: string
  it_expires :: rat

type_synonym token_cache = "(string, issued_token) dict"

record gh_provider =
  pv_app :: "app_config option"
  pv_pat :: string
  pv_api :: string
  pv_partial :: "string option"

record github_settings =
  gh_app_id :: "string option"
  gh_key_path :: "string option"
  gh_installation :: "string option"
  gh_pat :: "string option"
  gh_api :: "string option"

definition github_api_url :: string where
  "github_api_url = ''https://api.github.com''"

text \<open>The provider \<open>get_credentials_provider\<close> makes; the API URL has passed the validation of the settings.\<close>

definition provider_of :: "github_settings \<Rightarrow> gh_provider" where
  "provider_of gs =
     \<lparr>pv_app = app_from_values (gh_app_id gs) (gh_key_path gs) (gh_installation gs),
      pv_pat = (case gh_pat gs of None \<Rightarrow> [] | Some t \<Rightarrow> t),
      pv_api = (let u = (case gh_api gs of None \<Rightarrow> github_api_url | Some t \<Rightarrow> if t = [] then github_api_url else t)
                in rev (dropWhile (\<lambda>c. c = CHR 0x2F) (rev (py_strip u)))),
      pv_partial = partial_app_message (gh_app_id gs) (gh_key_path gs) (gh_installation gs)\<rparr>"

definition uses_app :: "gh_provider \<Rightarrow> bool" where
  "uses_app p \<longleftrightarrow> pv_app p \<noteq> None \<and> pv_partial p = None"

text \<open>
  The outside: the time, the private key file, the signature of the claims of a token (\<open>iat\<close>, \<open>exp\<close>, \<open>iss\<close>),
  the answer of GitHub to a POST (\<open>Inl\<close>: the name of the exception when there is none), and the
  wait for the lock of a cache key, during which other calls run.
\<close>

record github_answer =
  ga_status :: int
  ga_body :: "json option"

record 'w auth_env =
  au_now :: "'w \<Rightarrow> rat"
  au_key :: "string \<Rightarrow> 'w \<Rightarrow> string option \<times> 'w"
  au_sign :: "int \<Rightarrow> int \<Rightarrow> string \<Rightarrow> string \<Rightarrow> string option"
  au_post :: "string \<Rightarrow> string list \<Rightarrow> string \<Rightarrow> 'w \<Rightarrow> (string + github_answer) \<times> 'w"
  au_wait :: "string \<Rightarrow> token_cache \<times> 'w \<Rightarrow> token_cache \<times> 'w"
  au_redact :: "string \<Rightarrow> string"
  au_render :: renderers

definition refresh_margin :: int where "refresh_margin = 300"
definition max_min_ttl :: int where "max_min_ttl = 3000"
definition token_sweep_after :: int where "token_sweep_after = 3600"

definition required_lifetime :: "int \<Rightarrow> int" where
  "required_lifetime ttl = min (max ttl refresh_margin) max_min_ttl"

definition auth_cache_key :: "(string \<times> string) option \<Rightarrow> string" where
  "auth_cache_key r = (case r of None \<Rightarrow> ''*'' | Some p \<Rightarrow> py_lower (slug_text p))"

definition cached_token :: "'w auth_env \<Rightarrow> string \<Rightarrow> int \<Rightarrow> token_cache \<times> 'w \<Rightarrow> issued_token option" where
  "cached_token env key margin s =
     (case dict_get (fst s) key of
        Some t \<Rightarrow> if it_expires t - au_now env (snd s) > of_int margin then Some t else None
      | None \<Rightarrow> None)"

definition sweep_tokens :: "rat \<Rightarrow> token_cache \<Rightarrow> token_cache" where
  "sweep_tokens now ts = filter (\<lambda>(k, t). \<not> it_expires t + of_int token_sweep_after < now) ts"

definition require_app :: "gh_provider \<Rightarrow> auth_error + app_config" where
  "require_app p =
     (case pv_partial p of
        Some m \<Rightarrow> Inl (AuthConfiguration m)
      | None \<Rightarrow> (case pv_app p of None \<Rightarrow> Inl (AuthPlain ''No GitHub App is configured'' None) | Some a \<Rightarrow> Inr a))"

text \<open>\<open>app_jwt_for\<close>: the key is read, then the claims are signed; times are after the epoch.\<close>

definition app_jwt :: "'w auth_env \<Rightarrow> app_config \<Rightarrow> (token_cache \<times> 'w, string) auth_op" where
  "app_jwt env app s =
     (let issued = \<lfloor>au_now env (snd s)\<rfloor> in
      case au_key env (app_key_path app) (snd s) of
        (None, w) \<Rightarrow> (Inl (AuthKey (''The GitHub App private key at '' @ app_key_path app @ '' is missing or unreadable'')), (fst s, w))
      | (Some key, w) \<Rightarrow>
          (case au_sign env (issued - 60) (issued + 540) (app_identifier app) key of
             None \<Rightarrow> (Inl (AuthKey ''The GitHub App private key could not sign a token; reconnect GitHub''), (fst s, w))
           | Some j \<Rightarrow> (Inr j, (fst s, w))))"

definition github_error_detail :: "'w auth_env \<Rightarrow> github_answer \<Rightarrow> string" where
  "github_error_detail env r =
     (let status = ''HTTP '' @ show_int (ga_status r);
          message = (case ga_body r of Some (JObj d) \<Rightarrow> dict_get_or d ''message'' JNull | _ \<Rightarrow> JNull)
      in if \<not> py_true message then status
         else au_redact env (status @ '': '' @ take 200 (au_redact env (py_str (au_render env) message))))"

text \<open>A stored time is the instant its text renders; no other text is readable.\<close>

definition parse_expiry :: "json \<Rightarrow> auth_error + rat" where
  "parse_expiry v =
     (case v of
        JTime t \<Rightarrow> Inr (of_int t / 1000000)
      | JStr s \<Rightarrow> if py_strip s = [] then Inl (AuthPlain ''GitHub returned an installation token without an expiry time'' None)
                   else Inl (AuthPlain ''GitHub returned an unreadable installation token expiry time'' None)
      | _ \<Rightarrow> Inl (AuthPlain ''GitHub returned an installation token without an expiry time'' None))"

definition text_field :: "json \<Rightarrow> string \<Rightarrow> string option" where
  "text_field v k = (case v of JObj d \<Rightarrow> (case dict_get d k of Some (JStr s) \<Rightarrow> Some s | _ \<Rightarrow> None) | _ \<Rightarrow> None)"

definition other_name :: "string option \<Rightarrow> string \<Rightarrow> bool" where
  "other_name v wanted = (case v of None \<Rightarrow> False | Some s \<Rightarrow> py_lower s \<noteq> wanted)"

definition check_entry :: "string \<times> string \<Rightarrow> json \<Rightarrow> auth_error + unit" where
  "check_entry r entry =
     (let unreadable = AuthPlain ''GitHub returned an unreadable repository list for the installation token'' None;
          owner = py_lower (fst r); nm = py_lower (snd r) in
      case entry of
        JObj d \<Rightarrow>
          (let full = text_field entry ''full_name''; login = text_field (doc_get d ''owner'') ''login''; own = text_field entry ''name'' in
           if full = None \<and> login = None \<and> own = None then Inl unreadable
           else if other_name full (owner @ ''/'' @ nm) \<or> other_name login owner \<or> other_name own nm
           then Inl (AuthAccess (''GitHub scoped the installation token to a different repository than '' @ slug_text r @
                  ''; check that the App is installed on that account'') None)
           else Inr ())
      | _ \<Rightarrow> Inl unreadable)"

fun check_entries :: "string \<times> string \<Rightarrow> json list \<Rightarrow> auth_error + unit" where
  "check_entries r [] = Inr ()"
| "check_entries r (e # es) = res_bind (check_entry r e) (\<lambda>_. check_entries r es)"

definition check_token_repositories :: "json \<Rightarrow> string \<times> string \<Rightarrow> auth_error + unit" where
  "check_token_repositories listed r =
     (case listed of
        JNull \<Rightarrow> Inr ()
      | JList (e # es) \<Rightarrow> check_entries r (e # es)
      | _ \<Rightarrow> Inl (AuthPlain (''GitHub did not scope the installation token to '' @ slug_text r) None))"

text \<open>What an answer is worth: the token, or the refusal.\<close>

definition accepted_token ::
  "'w auth_env \<Rightarrow> (string \<times> string) option \<Rightarrow> github_answer \<Rightarrow> auth_error + issued_token" where
  "accepted_token env repo r =
     (if ga_status r \<noteq> 201
      then (let message = ''GitHub refused to issue an installation token ('' @ github_error_detail env r @ '')'' in
            Inl (if ga_status r = 422 \<and> repo \<noteq> None then AuthAccess message (Some 422) else AuthPlain message (Some (ga_status r))))
      else (case ga_body r of
              Some (JObj d) \<Rightarrow>
                (case doc_get d ''token'' of
                   JStr (c # cs) \<Rightarrow>
                     res_bind (case repo of None \<Rightarrow> Inr () | Some p \<Rightarrow> check_token_repositories (doc_get d ''repositories'') p) (\<lambda>_.
                     res_bind (parse_expiry (doc_get d ''expires_at'')) (\<lambda>t. Inr \<lparr>it_token = c # cs, it_expires = t\<rparr>))
                 | _ \<Rightarrow> Inl (AuthPlain ''GitHub returned no installation token'' None))
            | _ \<Rightarrow> Inl (AuthPlain ''GitHub returned an unreadable installation token response'' None)))"

definition whole_seconds :: "rat \<Rightarrow> int" where
  "whole_seconds q = (if q < 0 then - \<lfloor>- q\<rfloor> else \<lfloor>q\<rfloor>)"

definition remember_token ::
  "'w auth_env \<Rightarrow> (string \<times> string) option \<Rightarrow> github_answer \<Rightarrow> int \<Rightarrow> (token_cache \<times> 'w, issued_token) auth_op" where
  "remember_token env repo r ttl s =
     (case accepted_token env repo r of
        Inl e \<Rightarrow> (Inl e, s)
      | Inr t \<Rightarrow>
          (let remaining = it_expires t - au_now env (snd s); wanted = min (max ttl 0) max_min_ttl in
           if remaining \<le> of_int wanted
           then (Inl (AuthPlain (''GitHub issued an installation token that expires in '' @ show_int (whole_seconds remaining) @
                   ''s, less than the '' @ show_int wanted @ ''s required; check the server clock'') None), s)
           else (Inr t, (dict_set (sweep_tokens (au_now env (snd s)) (fst s)) (auth_cache_key repo) t, snd s))))"

text \<open>The request: the URL, and the names of the repositories the token is limited to.\<close>

definition token_request :: "gh_provider \<Rightarrow> app_config \<Rightarrow> (string \<times> string) option \<Rightarrow> string \<times> string list" where
  "token_request p app repo =
     (pv_api p @ ''/app/installations/'' @ app_installation app @ ''/access_tokens'', case repo of None \<Rightarrow> [] | Some r \<Rightarrow> [snd r])"

definition mint_token ::
  "'w auth_env \<Rightarrow> gh_provider \<Rightarrow> app_config \<Rightarrow> (string \<times> string) option \<Rightarrow> int \<Rightarrow> (token_cache \<times> 'w, issued_token) auth_op" where
  "mint_token env p app repo ttl =
     au_bind (app_jwt env app) (\<lambda>j s.
       case au_post env (fst (token_request p app repo)) (snd (token_request p app repo)) j (snd s) of
         (Inl name, w) \<Rightarrow> (Inl (AuthPlain (''Could not reach GitHub for an installation token ('' @ name @ '')'') None), (fst s, w))
       | (Inr r, w) \<Rightarrow> remember_token env repo r ttl (fst s, w))"

text \<open>The cache is asked before the lock is waited for and again once it is held.\<close>

definition installation_token ::
  "'w auth_env \<Rightarrow> gh_provider \<Rightarrow> string option \<Rightarrow> int \<Rightarrow> (token_cache \<times> 'w, issued_token) auth_op" where
  "installation_token env p repo ttl =
     au_bind (au_lift (require_app p)) (\<lambda>app.
     au_bind (au_lift (parse_repository repo)) (\<lambda>r s.
       let key = auth_cache_key r; margin = required_lifetime ttl in
       case cached_token env key margin s of
         Some t \<Rightarrow> (Inr t, s)
       | None \<Rightarrow>
           (let s1 = au_wait env key s in
            case cached_token env key margin s1 of
              Some t \<Rightarrow> (Inr t, s1)
            | None \<Rightarrow> mint_token env p app r ttl s1)))"

definition github_token :: "'w auth_env \<Rightarrow> gh_provider \<Rightarrow> string option \<Rightarrow> int \<Rightarrow> (token_cache \<times> 'w, string) auth_op" where
  "github_token env p repo ttl =
     (if pv_app p = None \<and> pv_partial p = None then au_lift (Inr (pv_pat p))
      else au_bind (installation_token env p repo ttl) (\<lambda>t. au_lift (Inr (it_token t))))"

definition invalidate_tokens :: "token_cache \<times> 'w \<Rightarrow> token_cache \<times> 'w" where
  "invalidate_tokens s = ([], snd s)"

section \<open>References\<close>

lemma is_alnum_no_sep: "is_alnum c \<Longrightarrow> c \<noteq> CHR 0x2F \<and> c \<noteq> CHR 0x3A \<and> \<not> is_space c"
  by (auto simp: is_alnum_def is_space_def Let_def)

lemma name_char_no_sep: "name_char c \<Longrightarrow> c \<noteq> CHR 0x2F \<and> c \<noteq> CHR 0x3A \<and> \<not> is_space c"
  by (auto simp: name_char_def is_space_def dest: is_alnum_no_sep)

lemma owner_chars: "owner_ok s \<Longrightarrow> c \<in> set s \<Longrightarrow> name_char c"
  by (auto simp: owner_ok_def name_char_def list_all_iff split: list.splits)

lemma name_chars: "name_ok s \<Longrightarrow> c \<in> set s \<Longrightarrow> name_char c"
  by (simp add: name_ok_def list_all_iff)

lemma owner_nonempty: "owner_ok s \<Longrightarrow> s \<noteq> []"
  by (auto simp: owner_ok_def)

lemma name_nonempty: "name_ok s \<Longrightarrow> s \<noteq> []"
  by (simp add: name_ok_def)

definition usable_name :: "string \<Rightarrow> bool" where
  "usable_name n \<longleftrightarrow> name_ok n \<and> n \<notin> {''.'', ''..''} \<and> \<not> suffix ''.git'' n"

lemma match_short_slug:
  assumes "owner_ok ow" "name_ok n"
  shows "match_short (slug_text (ow, n)) = Some (ow, n)"
proof -
  have "CHR 0x2F \<notin> set ow" "CHR 0x2F \<notin> set n"
    using owner_chars [OF assms(1)] name_chars [OF assms(2)] name_char_no_sep by blast+
  with assms show ?thesis
    by (simp add: match_short_def repo_pair_def slug_text_def split_on_append split_on_no_sep)
qed

lemma repo_pair_ok: "repo_pair ps = Some (ow, n) \<Longrightarrow> owner_ok ow \<and> name_ok n"
  by (auto simp: repo_pair_def split: list.splits if_splits)

lemma match_short_ok: "match_short s = Some (ow, n) \<Longrightarrow> owner_ok ow \<and> name_ok n"
  by (auto simp: match_short_def dest: repo_pair_ok)

lemma match_https_ok: "match_https s = Some (ow, n) \<Longrightarrow> owner_ok ow \<and> name_ok n"
  by (auto simp: match_https_def dest: repo_pair_ok split: list.splits if_splits)

lemma match_ssh_ok: "match_ssh s = Some (ow, n) \<Longrightarrow> owner_ok ow \<and> name_ok n"
  by (auto simp: match_ssh_def dest: match_short_ok split: option.splits if_splits)

lemma parsed_ok:
  assumes "parse_repository r = Inr (Some (ow, n))"
  shows "owner_ok ow \<and> usable_name n"
proof -
  from assms obtain rest where
    m: "List.map_filter id [match_short (py_strip (the r)), match_https (without_suffix ''.git'' (py_strip (the r))),
          match_ssh (without_suffix ''.git'' (py_strip (the r)))] = (ow, n) # rest"
      "n \<notin> {''.'', ''..''}" "\<not> suffix ''.git'' n"
    by (auto simp: parse_repository_def Let_def split: if_splits list.splits)
  then have "(ow, n) \<in> set (List.map_filter id [match_short (py_strip (the r)),
      match_https (without_suffix ''.git'' (py_strip (the r))), match_ssh (without_suffix ''.git'' (py_strip (the r)))])"
    by simp
  then have "owner_ok ow \<and> name_ok n"
    by (auto simp: map_filter_def split: if_splits dest: match_short_ok match_https_ok match_ssh_ok)
  with m show ?thesis by (simp add: usable_name_def)
qed

lemma py_strip_no_space: "\<forall>c\<in>set s. \<not> is_space c \<Longrightarrow> py_strip s = s"
proof -
  assume s: "\<forall>c\<in>set s. \<not> is_space c"
  have "dropWhile is_space t = t" if "\<forall>c\<in>set t. \<not> is_space c" for t using that by (cases t) auto
  from this [of s] this [of "rev s"] s show ?thesis by (simp add: py_strip_def py_lstrip_def py_rstrip_def)
qed

lemma slug_no_space: "owner_ok ow \<Longrightarrow> name_ok n \<Longrightarrow> \<forall>c\<in>set (slug_text (ow, n)). \<not> is_space c"
  by (auto simp: slug_text_def is_space_def [of "CHR 0x2F"] dest: owner_chars name_chars dest!: name_char_no_sep)

lemma parse_short:
  assumes "owner_ok ow" "usable_name n"
  shows "parse_repository (Some (slug_text (ow, n))) = Inr (Some (ow, n))"
proof -
  have n: "name_ok n" using assms(2) by (simp add: usable_name_def)
  have "py_strip (slug_text (ow, n)) = slug_text (ow, n)"
    by (rule py_strip_no_space [OF slug_no_space [OF assms(1) n]])
  moreover have "slug_text (ow, n) \<noteq> []" by (simp add: slug_text_def)
  ultimately show ?thesis
    using match_short_slug [OF assms(1) n] assms(2)
    by (simp add: parse_repository_def blank_def Let_def map_filter_simps usable_name_def)
qed

lemma without_suffix_append [simp]: "without_suffix x (s @ x) = s"
  by (simp add: without_suffix_def suffix_def)

lemma without_suffix_id: "\<not> suffix x s \<Longrightarrow> without_suffix x s = s"
  by (simp add: without_suffix_def)

text \<open>The optional suffix of a clone URL.\<close>

definition git_suffix :: "bool \<Rightarrow> string" where
  "git_suffix b = (if b then ''.git'' else [])"

lemma no_git_suffix:
  assumes "usable_name n"
  shows "\<not> suffix ''.git'' (u @ CHR 0x2F # n)"
proof
  assume "suffix ''.git'' (u @ CHR 0x2F # n)"
  then have "suffix ''.git'' ((u @ [CHR 0x2F]) @ n)" by simp
  then obtain v where v: "''.git'' = v @ n" "suffix v (u @ [CHR 0x2F])"
    using assms unfolding suffix_append usable_name_def by blast
  show False
  proof (cases v rule: rev_cases)
    case Nil
    with v(1) assms show False by (simp add: usable_name_def)
  next
    case (snoc w c)
    with v(2) have "c = CHR 0x2F" by simp
    with snoc v(1) have "CHR 0x2F \<in> set ''.git''" by simp
    then show False by simp
  qed
qed

lemma bare_url:
  assumes "usable_name n"
  shows "without_suffix ''.git'' (u @ CHR 0x2F # n @ git_suffix b) = u @ CHR 0x2F # n"
proof (cases b)
  case True
  then show ?thesis using without_suffix_append [of "''.git''" "u @ CHR 0x2F # n"] by (simp add: git_suffix_def)
next
  case False
  then show ?thesis by (simp add: git_suffix_def without_suffix_id no_git_suffix [OF assms])
qed

definition https_url :: "string \<Rightarrow> string \<times> string \<Rightarrow> bool \<Rightarrow> string" where
  "https_url h r b = ''https://'' @ h @ CHR 0x2F # fst r @ CHR 0x2F # snd r @ git_suffix b"

definition ssh_url :: "string \<Rightarrow> string \<times> string \<Rightarrow> bool \<Rightarrow> string" where
  "ssh_url h r b = ''git@'' @ h @ CHR 0x3A # fst r @ CHR 0x2F # snd r @ git_suffix b"

lemma host_chars: "host_ok h \<Longrightarrow> c \<in> set h \<Longrightarrow> name_char c"
  by (auto simp: host_ok_def list_all_iff name_char_def)

lemma is_digit_name_char: "is_digit c \<Longrightarrow> name_char c"
  by (simp add: is_digit_def name_char_def is_alnum_def Let_def)

lemma host_port_chars:
  assumes "host_port_ok h" "c \<in> set h"
  shows "c \<noteq> CHR 0x2F \<and> \<not> is_space c"
proof -
  have j: "h = join_with '':'' (split_on CHR 0x3A h)"
    by (simp add: join_split_on)
  consider "split_on CHR 0x3A h = [h]" | a b where "split_on CHR 0x3A h = [a, b]" "h = a @ CHR 0x3A # b"
    using assms(1) j by (auto simp: host_port_ok_def split: list.splits)
  then have "name_char c \<or> c = CHR 0x3A"
  proof cases
    case 1
    with assms show ?thesis by (auto simp: host_port_ok_def dest: host_chars)
  next
    case (2 a b)
    with assms show ?thesis by (auto simp: host_port_ok_def list_all_iff dest: host_chars is_digit_name_char)
  qed
  then show ?thesis
  proof
    assume "name_char c"
    then show ?thesis using name_char_no_sep by blast
  next
    assume "c = CHR 0x3A"
    then show ?thesis by (simp add: is_space_def)
  qed
qed

lemma parse_first:
  assumes "py_strip u = u" "u \<noteq> []" "match_short u = None" "without_suffix ''.git'' u = v"
    "match_https v = Some (ow, n) \<or> match_https v = None \<and> match_ssh v = Some (ow, n)" "usable_name n"
  shows "parse_repository (Some u) = Inr (Some (ow, n))"
  using assms by (auto simp: parse_repository_def blank_def Let_def map_filter_simps usable_name_def)

lemma url_no_sep:
  assumes "owner_ok ow" "usable_name n"
  shows "CHR 0x2F \<notin> set ow" "CHR 0x2F \<notin> set n"
  using assms owner_chars name_chars name_char_no_sep unfolding usable_name_def by blast+

lemma git_suffix_chars: "c \<in> set (git_suffix b) \<Longrightarrow> name_char c"
  by (auto simp: git_suffix_def name_char_def is_alnum_def split: if_splits)

lemma slug_parts_no_space:
  assumes "owner_ok ow" "usable_name n"
  shows "\<forall>c\<in>set ow. \<not> is_space c" "\<forall>c\<in>set n. \<not> is_space c" "\<forall>c\<in>set (git_suffix b). \<not> is_space c"
  using assms owner_chars name_chars git_suffix_chars name_char_no_sep unfolding usable_name_def by blast+

lemma url_chars_no_space: "\<forall>c\<in>set ''https://''. \<not> is_space c" "\<forall>c\<in>set ''git@:''. \<not> is_space c"
  by (simp_all add: is_space_def)

lemma parse_https:
  assumes "owner_ok ow" "usable_name n" "host_port_ok h"
  shows "parse_repository (Some (https_url h (ow, n) b)) = Inr (Some (ow, n))"
proof (rule parse_first)
  have n: "name_ok n" using assms(2) by (simp add: usable_name_def)
  have h: "CHR 0x2F \<notin> set h" using host_port_chars [OF assms(3)] by blast
  note sep = h url_no_sep [OF assms(1,2)]
  show "py_strip (https_url h (ow, n) b) = https_url h (ow, n) b"
  proof (rule py_strip_no_space)
    show "\<forall>c\<in>set (https_url h (ow, n) b). \<not> is_space c"
      using host_port_chars [OF assms(3)] slug_parts_no_space [OF assms(1,2)] url_chars_no_space
      by (simp add: https_url_def ball_Un)
  qed
  show "https_url h (ow, n) b \<noteq> []" by (simp add: https_url_def)
  have "split_on CHR 0x2F (https_url h (ow, n) b) = ''https:'' # [] # split_on CHR 0x2F (h @ CHR 0x2F # ow @ CHR 0x2F # n @ git_suffix b)"
    by (simp add: https_url_def)
  then show "match_short (https_url h (ow, n) b) = None"
    using sep by (simp add: match_short_def repo_pair_def split_on_append)
  show "without_suffix ''.git'' (https_url h (ow, n) b) = https_url h (ow, n) False"
    using bare_url [OF assms(2), of "''https://'' @ h @ CHR 0x2F # ow" b] by (simp add: https_url_def git_suffix_def)
  have "split_on CHR 0x2F (h @ CHR 0x2F # ow @ CHR 0x2F # n) = [h, ow, n]"
    using sep by (simp add: split_on_append split_on_no_sep)
  then show "match_https (https_url h (ow, n) False) = Some (ow, n) \<or>
      match_https (https_url h (ow, n) False) = None \<and> match_ssh (https_url h (ow, n) False) = Some (ow, n)"
    using assms n by (simp add: match_https_def https_url_def git_suffix_def repo_pair_def)
qed (rule assms(2))

lemma parse_ssh:
  assumes "owner_ok ow" "usable_name n" "host_ok h"
  shows "parse_repository (Some (ssh_url h (ow, n) b)) = Inr (Some (ow, n))"
proof (rule parse_first)
  have n: "name_ok n" using assms(2) by (simp add: usable_name_def)
  have h: "\<forall>c\<in>set h. c \<noteq> CHR 0x2F \<and> c \<noteq> CHR 0x3A \<and> \<not> is_space c" using host_chars [OF assms(3)] name_char_no_sep by blast
  note sep = url_no_sep [OF assms(1,2)]
  show "py_strip (ssh_url h (ow, n) b) = ssh_url h (ow, n) b"
  proof (rule py_strip_no_space)
    show "\<forall>c\<in>set (ssh_url h (ow, n) b). \<not> is_space c"
      using h slug_parts_no_space [OF assms(1,2)] url_chars_no_space
      by (simp add: ssh_url_def ball_Un)
  qed
  show "ssh_url h (ow, n) b \<noteq> []" by (simp add: ssh_url_def)
  have "split_on CHR 0x2F (ssh_url h (ow, n) b) = (''git@'' @ h @ CHR 0x3A # ow) # split_on CHR 0x2F (n @ git_suffix b)"
    using h sep split_on_append [of "CHR 0x2F" "''git@'' @ h @ CHR 0x3A # ow" "n @ git_suffix b"] by (auto simp: ssh_url_def)
  moreover have "\<not> owner_ok (''git@'' @ h @ CHR 0x3A # ow)" by (simp add: owner_ok_def is_alnum_def)
  ultimately show "match_short (ssh_url h (ow, n) b) = None"
    by (auto simp: match_short_def repo_pair_def split: list.splits)
  show "without_suffix ''.git'' (ssh_url h (ow, n) b) = ssh_url h (ow, n) False"
    using bare_url [OF assms(2), of "''git@'' @ h @ CHR 0x3A # ow" b] by (simp add: ssh_url_def git_suffix_def)
  have "split_first '':'' (h @ CHR 0x3A # slug_text (ow, n)) = Some (h, slug_text (ow, n))"
    using h by (intro split_first_char) blast
  then have "match_ssh (ssh_url h (ow, n) False) = Some (ow, n)"
    using assms(3) match_short_slug [OF assms(1) n] by (simp add: match_ssh_def ssh_url_def git_suffix_def slug_text_def)
  moreover have "match_https (ssh_url h (ow, n) False) = None" by (simp add: match_https_def ssh_url_def)
  ultimately show "match_https (ssh_url h (ow, n) False) = Some (ow, n) \<or>
      match_https (ssh_url h (ow, n) False) = None \<and> match_ssh (ssh_url h (ow, n) False) = Some (ow, n)" by simp
qed (rule assms(2))

text \<open>
  C3: Every spelling of a repository (owner and name, a clone URL of any host, with or without \<open>.git\<close>) is read as the
  owner and name that one of them was read as.
\<close>

theorem repository_spellings_agree:
  assumes "parse_repository r = Inr (Some p)" "host_port_ok h" "host_ok g"
  shows "parse_repository (Some (slug_text p)) = Inr (Some p) \<and> parse_repository (Some (https_url h p b)) = Inr (Some p) \<and>
    parse_repository (Some (ssh_url g p b)) = Inr (Some p)"
proof -
  obtain ow n where p: "p = (ow, n)" by (cases p)
  from parsed_ok [of r ow n] assms(1) p have ok: "owner_ok ow" "usable_name n" by simp_all
  show ?thesis using parse_short [OF ok] parse_https [OF ok assms(2)] parse_ssh [OF ok assms(3)] p by simp
qed

lemma repository_spellings_agree_witness:
  "parse_repository (Some (https_url ''github.com'' (''acme'', ''api'') True)) = Inr (Some (''acme'', ''api''))"
proof -
  have "parse_repository (Some '' acme/api '') = Inr (Some (''acme'', ''api''))" "host_port_ok ''github.com''" "host_ok ''github.com''"
    by code_simp+
  then show ?thesis using repository_spellings_agree by blast
qed

section \<open>Which token is handed out\<close>

text \<open>
  C1: The personal access token is handed out only when none of the three settings of a GitHub App is set. A partly
  configured App refuses every request, and with an App every token is an installation token.
\<close>

theorem pat_only_without_app:
  "github_token env (provider_of gs) repo ttl s =
     (let present = map (\<lambda>v. setting_text v \<noteq> []) [gh_app_id gs, gh_key_path gs, gh_installation gs] in
      if \<not> list_ex id present then (Inr (case gh_pat gs of None \<Rightarrow> [] | Some t \<Rightarrow> t), s)
      else if \<not> list_all id present
      then (Inl (AuthConfiguration (the (partial_app_message (gh_app_id gs) (gh_key_path gs) (gh_installation gs)))), s)
      else (case installation_token env (provider_of gs) repo ttl s of (Inl e, s') \<Rightarrow> (Inl e, s') | (Inr t, s') \<Rightarrow> (Inr (it_token t), s')))"
  by (simp add: github_token_def provider_of_def app_from_values_def partial_app_message_def installation_token_def require_app_def
      au_bind_def Let_def split: prod.split sum.split)

section \<open>What a token is good for\<close>

definition cache_ok :: "(string \<Rightarrow> issued_token \<Rightarrow> bool) \<Rightarrow> token_cache \<Rightarrow> bool" where
  "cache_ok G ts \<longleftrightarrow> (\<forall>(k, t)\<in>set ts. G k t)"

lemma cache_ok_get: "cache_ok G ts \<Longrightarrow> dict_get ts k = Some t \<Longrightarrow> G k t"
  by (auto simp: cache_ok_def dest: map_of_SomeD)

lemma set_dict_set_subset: "set (dict_set d k v) \<subseteq> insert (k, v) (set d)"
  by (induction d) auto

lemma cache_ok_remember: "cache_ok G ts \<Longrightarrow> G k t \<Longrightarrow> cache_ok G (dict_set (sweep_tokens now ts) k t)"
  using set_dict_set_subset [of k t "sweep_tokens now ts"] by (fastforce simp: cache_ok_def sweep_tokens_def)

text \<open>Whatever GitHub grants in an answer to a request for a repository has a property \<open>G\<close> of the repository's cache key.\<close>

definition answers_have :: "'w auth_env \<Rightarrow> gh_provider \<Rightarrow> (string \<Rightarrow> issued_token \<Rightarrow> bool) \<Rightarrow> bool" where
  "answers_have env p G \<longleftrightarrow>
     (\<forall>app repo j w r w' t.
        au_post env (fst (token_request p app repo)) (snd (token_request p app repo)) j w = (Inr r, w') \<longrightarrow>
        accepted_token env repo r = Inr t \<longrightarrow> G (auth_cache_key repo) t)"

definition waits_keep :: "'w auth_env \<Rightarrow> (string \<Rightarrow> issued_token \<Rightarrow> bool) \<Rightarrow> bool" where
  "waits_keep env G \<longleftrightarrow> (\<forall>k s. cache_ok G (fst s) \<longrightarrow> cache_ok G (fst (au_wait env k s)))"

definition lasting :: "'w auth_env \<Rightarrow> 'w \<Rightarrow> issued_token \<Rightarrow> int \<Rightarrow> bool" where
  "lasting env w t ttl \<longleftrightarrow> of_int (min (max ttl 0) max_min_ttl) < it_expires t - au_now env w"

lemma cached_lasting: "cached_token env k (required_lifetime ttl) s = Some t \<Longrightarrow> lasting env (snd s) t ttl"
proof -
  assume c: "cached_token env k (required_lifetime ttl) s = Some t"
  then have "(of_int (required_lifetime ttl) :: rat) < it_expires t - au_now env (snd s)"
    by (auto simp: cached_token_def split: option.splits if_splits)
  moreover have "min (max ttl 0) max_min_ttl \<le> required_lifetime ttl"
    by (simp add: required_lifetime_def refresh_margin_def max_min_ttl_def)
  then have "(of_int (min (max ttl 0) max_min_ttl) :: rat) \<le> of_int (required_lifetime ttl)" by (simp only: of_int_le_iff)
  ultimately show ?thesis by (simp add: lasting_def)
qed

lemma cached_ok: "cached_token env k m s = Some t \<Longrightarrow> cache_ok G (fst s) \<Longrightarrow> G k t"
  by (auto simp: cached_token_def dest: cache_ok_get split: option.splits if_splits)

lemma app_jwt_cache: "app_jwt env app s = (r, s') \<Longrightarrow> fst s' = fst s"
  by (auto simp: app_jwt_def Let_def split: prod.splits option.splits)

lemma remember_lasting:
  assumes "remember_token env repo r ttl s = (Inr t, s')"
  shows "accepted_token env repo r = Inr t" "lasting env (snd s') t ttl"
    "fst s' = dict_set (sweep_tokens (au_now env (snd s)) (fst s)) (auth_cache_key repo) t"
  using assms by (auto simp: remember_token_def lasting_def Let_def split: sum.splits if_splits)

lemma mint_good:
  assumes "mint_token env p app repo ttl s = (Inr t, s')" "answers_have env p G" "cache_ok G (fst s)"
  shows "G (auth_cache_key repo) t \<and> cache_ok G (fst s') \<and> lasting env (snd s') t ttl"
proof -
  from assms(1) obtain j s1 where j: "app_jwt env app s = (Inr j, s1)"
      "(case au_post env (fst (token_request p app repo)) (snd (token_request p app repo)) j (snd s1) of
          (Inl name, w) \<Rightarrow> (Inl (AuthPlain (''Could not reach GitHub for an installation token ('' @ name @ '')'') None), (fst s1, w))
        | (Inr r, w) \<Rightarrow> remember_token env repo r ttl (fst s1, w)) = (Inr t, s')"
    unfolding mint_token_def au_bind_Inr_iff by blast
  obtain x w where x: "au_post env (fst (token_request p app repo)) (snd (token_request p app repo)) j (snd s1) = (x, w)"
    by (cases "au_post env (fst (token_request p app repo)) (snd (token_request p app repo)) j (snd s1)")
  with j obtain r where m: "app_jwt env app s = (Inr j, s1)"
      "au_post env (fst (token_request p app repo)) (snd (token_request p app repo)) j (snd s1) = (Inr r, w)"
      "remember_token env repo r ttl (fst s1, w) = (Inr t, s')"
    by (cases x) simp_all
  note k = remember_lasting [OF m(3)]
  have "G (auth_cache_key repo) t" using assms(2) m(2) k(1) unfolding answers_have_def by blast
  moreover have "fst s1 = fst s" using m(1) by (rule app_jwt_cache)
  ultimately show ?thesis using k assms(3) by (simp add: cache_ok_remember)
qed

text \<open>
  C2: A token handed out for a repository was granted by GitHub in an answer about that repository, and it is still
  valid for longer than the caller asked for (at most 50 minutes), whichever calls run while the lock is awaited.
\<close>

theorem token_scoped_and_lasting:
  assumes "installation_token env p repo ttl s = (Inr t, s')" "parse_repository repo = Inr r"
    "answers_have env p G" "waits_keep env G" "cache_ok G (fst s)"
  shows "G (auth_cache_key r) t \<and> cache_ok G (fst s') \<and> lasting env (snd s') t ttl"
proof -
  let ?k = "auth_cache_key r" and ?m = "required_lifetime ttl"
  obtain app where app: "require_app p = Inr app"
    using assms(1) by (auto simp: installation_token_def au_bind_Inr_iff)
  have run: "(case cached_token env ?k ?m s of Some t \<Rightarrow> (Inr t, s)
      | None \<Rightarrow> case cached_token env ?k ?m (au_wait env ?k s) of Some t \<Rightarrow> (Inr t, au_wait env ?k s)
          | None \<Rightarrow> mint_token env p app r ttl (au_wait env ?k s)) = (Inr t, s')"
    using assms(1,2) app unfolding installation_token_def au_bind_def Let_def by simp
  have w: "cache_ok G (fst (au_wait env ?k s))" using assms(4,5) unfolding waits_keep_def by blast
  show ?thesis
  proof (cases "cached_token env ?k ?m s")
    case (Some u)
    with run show ?thesis using assms(5) cached_lasting [OF Some] cached_ok [OF Some] by auto
  next
    case none: None
    show ?thesis
    proof (cases "cached_token env ?k ?m (au_wait env ?k s)")
      case (Some u)
      with run none show ?thesis using w cached_lasting [OF Some] cached_ok [OF Some] by auto
    next
      case None
      with run none show ?thesis using mint_good [OF _ assms(3) w] by simp
    qed
  qed
qed

text \<open>What the answer says of the repositories of a granted token.\<close>

lemma py_lower_slug: "auth_cache_key (Some r) = py_lower (fst r) @ ''/'' @ py_lower (snd r)"
  by (simp add: auth_cache_key_def slug_text_def py_lower_def lower_char_def)

lemma check_entry_names:
  assumes "check_entry r e = Inr ()"
  shows "text_field e ''full_name'' = Some f \<Longrightarrow> py_lower f = auth_cache_key (Some r)"
    "text_field e ''name'' = Some n \<Longrightarrow> py_lower n = py_lower (snd r)"
  using assms by (auto simp: check_entry_def other_name_def py_lower_slug Let_def split: json.splits if_splits)

lemma check_entries_all: "check_entries r es = Inr () \<Longrightarrow> e \<in> set es \<Longrightarrow> check_entry r e = Inr ()"
  by (induction es) (auto simp: res_bind_Inr_iff)

lemma granted_scope:
  assumes "accepted_token env (Some r) a = Inr t" "ga_body a = Some (JObj d)" "doc_get d ''repositories'' = JList es" "e \<in> set es"
    "text_field e ''full_name'' = Some f"
  shows "py_lower f = auth_cache_key (Some r)"
proof -
  from assms(1,2,3) have "check_token_repositories (JList es) r = Inr ()"
    by (auto simp: accepted_token_def res_bind_Inr_iff Let_def split: if_splits json.splits list.splits)
  with assms(4) have "check_entry r e = Inr ()"
    by (cases es) (simp_all add: check_token_repositories_def check_entries_all del: check_entries.simps)
  then show ?thesis by (rule check_entry_names(1) [OF _ assms(5)])
qed

text \<open>A call that finds the token of another call when it gets the lock asks GitHub nothing.\<close>

lemma shared_mint:
  assumes "require_app p = Inr app" "parse_repository repo = Inr r" "cached_token env (auth_cache_key r) (required_lifetime ttl) s = None"
    "cached_token env (auth_cache_key r) (required_lifetime ttl) (au_wait env (auth_cache_key r) s) = Some t"
  shows "installation_token env p repo ttl s = (Inr t, au_wait env (auth_cache_key r) s)"
  unfolding installation_token_def au_bind_def Let_def using assms by simp

text \<open>A reference that is no repository is refused; it never becomes a token of the whole installation.\<close>

lemma unreadable_reference_refused:
  "require_app p = Inr app \<Longrightarrow> parse_repository repo = Inl e \<Longrightarrow> installation_token env p repo ttl s = (Inl e, s)"
  by (simp add: installation_token_def au_bind_def)

lemma only_blank_is_installation: "parse_repository repo = Inr None \<longleftrightarrow> blank repo"
  by (auto simp: parse_repository_def Let_def split: list.splits)

section \<open>A sample installation\<close>

definition sample_github :: github_settings where
  "sample_github = \<lparr>gh_app_id = Some ''7'', gh_key_path = Some ''/k.pem'', gh_installation = Some ''9'', gh_pat = Some ''pat'', gh_api = None\<rparr>"

definition sample_answer :: github_answer where
  "sample_answer =
     \<lparr>ga_status = 201, ga_body = Some (JObj [(''token'', JStr ''ghs''), (''expires_at'', JTime 4600000000),
        (''repositories'', JList [JObj [(''full_name'', JStr ''Acme/API'')]])])\<rparr>"

definition sample_auth :: "unit auth_env" where
  "sample_auth =
     \<lparr>au_now = (\<lambda>_. 1000), au_key = (\<lambda>_ w. (Some ''pem'', w)), au_sign = (\<lambda>_ _ _ _. Some ''jwt''),
      au_post = (\<lambda>_ names _ w. if names = [] then (Inl ''ConnectError'', w) else (Inr sample_answer, w)), au_wait = (\<lambda>_ s. s),
      au_redact = id, au_render = \<lparr>show_float = (\<lambda>_. []), show_time = (\<lambda>_. []), repr_time = (\<lambda>_. []), show_cents = (\<lambda>_. [])\<rparr>\<rparr>"

lemma sample_body:
  "ga_body sample_answer = Some (JObj [(''token'', JStr ''ghs''), (''expires_at'', JTime 4600000000),
     (''repositories'', JList [JObj [(''full_name'', JStr ''Acme/API'')]])])"
  "doc_get [(''token'', JStr ''ghs''), (''expires_at'', JTime 4600000000),
     (''repositories'', JList [JObj [(''full_name'', JStr ''Acme/API'')]])] ''repositories'' = JList [JObj [(''full_name'', JStr ''Acme/API'')]]"
  "text_field (JObj [(''full_name'', JStr ''Acme/API'')]) ''full_name'' = Some ''Acme/API''"
  by (simp add: sample_answer_def) code_simp+

lemma sample_answers: "answers_have sample_auth p (\<lambda>k t. k = ''acme/api'')"
  unfolding answers_have_def
proof (intro allI impI)
  fix app repo j w r w' t
  assume a: "au_post sample_auth (fst (token_request p app repo)) (snd (token_request p app repo)) j w = (Inr r, w')"
    and t: "accepted_token sample_auth repo r = Inr t"
  obtain q where q: "repo = Some q" "r = sample_answer"
    using a by (cases repo) (simp_all add: sample_auth_def token_request_def)
  have "py_lower ''Acme/API'' = auth_cache_key (Some q)"
    by (rule granted_scope [OF t [unfolded q] sample_body(1,2) _ sample_body(3)]) simp
  moreover have "py_lower ''Acme/API'' = ''acme/api''" by code_simp
  ultimately show "auth_cache_key repo = ''acme/api''" using q by simp
qed

lemma sample_run:
  "installation_token sample_auth (provider_of sample_github) (Some ''acme/api'') 600 ([], ()) =
     (Inr \<lparr>it_token = ''ghs'', it_expires = 4600\<rparr>, ([(''acme/api'', \<lparr>it_token = ''ghs'', it_expires = 4600\<rparr>)], ()))"
  by code_simp

lemma token_scoped_and_lasting_witness:
  "auth_cache_key (Some (''acme'', ''api'')) = ''acme/api'' \<and>
   lasting sample_auth () \<lparr>it_token = ''ghs'', it_expires = 4600\<rparr> 600"
proof -
  have "parse_repository (Some ''acme/api'') = Inr (Some (''acme'', ''api''))" by code_simp
  moreover have "waits_keep sample_auth (\<lambda>k t. k = ''acme/api'')" by (simp add: waits_keep_def sample_auth_def)
  ultimately show ?thesis
    using token_scoped_and_lasting [OF sample_run _ sample_answers, where r = "Some (''acme'', ''api'')"]
    by (simp add: cache_ok_def)
qed

end
