(* ===== verification/PushAuth.thy ===== *)
theory PushAuth
  imports Credentials Intake
begin

text \<open>
  Who may call the internal endpoints: the two secrets of a desktop install (\<open>config/internal_auth.py\<close>), the
  verification of a pushed message and of an operative's report, and the capped reading of a body
  (\<open>dispatch/pubsub_auth.py\<close>). The keyed hash, the verification of a Google token and the decoding of an envelope are
  arguments; the bytes of a body arrive in chunks.
\<close>

section \<open>The secrets of a desktop install\<close>

text \<open>\<open>tokens_match\<close>: an empty side never matches.\<close>

definition tokens_match :: "string option \<Rightarrow> string \<Rightarrow> bool" where
  "tokens_match candidate expected \<longleftrightarrow> str_truthy candidate \<and> expected \<noteq> [] \<and> candidate = Some expected"

record internal_auth =
  ia_push :: string
  ia_key :: string

definition verify_push_token :: "internal_auth \<Rightarrow> string option \<Rightarrow> bool" where
  "verify_push_token ia candidate = tokens_match candidate (ia_push ia)"

definition task_token_context :: string where
  "task_token_context = ''henchmen-operative-task:''"

text \<open>\<open>hmac key message\<close> is the hex digest; \<open>None\<close> is the \<open>ValueError\<close> for an empty task.\<close>

definition task_token :: "(string \<Rightarrow> string \<Rightarrow> string) \<Rightarrow> internal_auth \<Rightarrow> string \<Rightarrow> string option" where
  "task_token hmac ia tid = (if tid = [] then None else Some (hmac (ia_key ia) (task_token_context @ tid)))"

definition verify_task_token :: "(string \<Rightarrow> string \<Rightarrow> string) \<Rightarrow> internal_auth \<Rightarrow> string \<Rightarrow> string option \<Rightarrow> bool" where
  "verify_task_token hmac ia tid candidate =
     (case task_token hmac ia tid of None \<Rightarrow> False | Some t \<Rightarrow> tokens_match candidate t)"

section \<open>Bearers\<close>

text \<open>\<open>header.split(None, 1)\<close> has two parts: the scheme, and the rest after the white space.\<close>

definition split_bearer :: "string option \<Rightarrow> string option" where
  "split_bearer header =
     (let h = py_lstrip (case header of None \<Rightarrow> [] | Some v \<Rightarrow> v);
          scheme = takeWhile (\<lambda>c. \<not> is_space c) h;
          rest = py_lstrip (dropWhile (\<lambda>c. \<not> is_space c) h)
      in if rest = [] \<or> py_lower scheme \<noteq> ''bearer'' \<or> py_strip rest = [] then None else Some (py_strip rest))"

section \<open>Requests\<close>

datatype body_event = Chunk string | Disconnected

record web_request =
  wq_authorization :: "string option"
  wq_length :: "string option"
  wq_stream :: "body_event list"

text \<open>Who a verified caller is.\<close>

datatype caller = InternalPush | OidcCaller string | UncheckedCaller | OperativeOf string

record push_settings =
  ps_base :: settings
  ps_audience :: string
  ps_emails :: string

text \<open>
  The outside: the internal secrets (\<open>None\<close>: an \<open>OSError\<close>; \<open>Some None\<close>: no desktop install), the keyed hash, Google's
  verification for an audience (\<open>None\<close>: the token is refused, otherwise its e-mail claim), whether the library
  for it is there, and the decoded data of an envelope.
\<close>

record auth_outside =
  ao_internal :: "internal_auth option option"
  ao_hmac :: "string \<Rightarrow> string \<Rightarrow> string"
  ao_google :: bool
  ao_oidc :: "string \<Rightarrow> string \<Rightarrow> string option"
  ao_data :: "string \<Rightarrow> json option"

text \<open>Refusals are HTTP status codes.\<close>

definition load_desktop_internal_auth :: "auth_outside \<Rightarrow> nat + internal_auth option" where
  "load_desktop_internal_auth ao = (case ao_internal ao of None \<Rightarrow> Inl 503 | Some i \<Rightarrow> Inr i)"

definition require_internal_caller :: "auth_outside \<Rightarrow> web_request \<Rightarrow> nat + unit" where
  "require_internal_caller ao rq =
     res_bind (load_desktop_internal_auth ao) (\<lambda>i.
       case i of None \<Rightarrow> Inr ()
       | Some ia \<Rightarrow> if verify_push_token ia (split_bearer (wq_authorization rq)) then Inr () else Inl 401)"

definition allowed_emails :: "push_settings \<Rightarrow> string list" where
  "allowed_emails ps = filter (\<lambda>e. e \<noteq> []) (map py_strip (split_on CHR 0x2C (ps_emails ps)))"

definition verify_pubsub_oidc :: "auth_outside \<Rightarrow> push_settings \<Rightarrow> web_request \<Rightarrow> nat + caller" where
  "verify_pubsub_oidc ao ps rq =
     (let token = split_bearer (wq_authorization rq); open = fail_open_allowed (ps_base ps) in
      res_bind (load_desktop_internal_auth ao) (\<lambda>i.
        case i of
          Some ia \<Rightarrow> if verify_push_token ia token then Inr InternalPush else Inl 401
        | None \<Rightarrow>
            if open \<and> ps_audience ps = [] \<and> token = None then Inr UncheckedCaller
            else if ps_audience ps = [] then Inl 401
            else (case token of
                    None \<Rightarrow> Inl 401
                  | Some t \<Rightarrow>
                      if \<not> ao_google ao then (if open then Inr UncheckedCaller else Inl 500)
                      else (case ao_oidc ao t (ps_audience ps) of
                              None \<Rightarrow> Inl 401
                            | Some email \<Rightarrow>
                                if allowed_emails ps \<noteq> [] \<and> email \<notin> set (allowed_emails ps) then Inl 401 else Inr (OidcCaller email)))))"

text \<open>The capped reader: what it buffered, and the body or the refusal.\<close>

fun read_chunks :: "nat \<Rightarrow> string \<Rightarrow> body_event list \<Rightarrow> string \<times> (nat + string)" where
  "read_chunks cap buffered [] = (buffered, Inr buffered)"
| "read_chunks cap buffered (Disconnected # es) = (buffered, Inl 400)"
| "read_chunks cap buffered (Chunk c # es) =
     (if cap < length buffered + length c then (buffered, Inl 413) else read_chunks cap (buffered @ c) es)"

definition read_capped_body :: "web_request \<Rightarrow> nat \<Rightarrow> string \<times> (nat + string)" where
  "read_capped_body rq cap = read_chunks cap [] (wq_stream rq)"

definition max_operative_report :: nat where
  "max_operative_report = 4194304"

definition hex_lower :: "char \<Rightarrow> bool" where
  "hex_lower c = (let n = of_char c :: nat in (48 \<le> n \<and> n \<le> 57) \<or> (97 \<le> n \<and> n \<le> 102))"

definition task_token_format :: "string \<Rightarrow> bool" where
  "task_token_format t \<longleftrightarrow> length t = 64 \<and> list_all hex_lower t"

definition reported_task_id :: "auth_outside \<Rightarrow> string \<Rightarrow> string" where
  "reported_task_id ao body =
     (case ao_data ao body of Some (JObj d) \<Rightarrow> (case doc_get d ''task_id'' of JStr t \<Rightarrow> t | _ \<Rightarrow> []) | _ \<Rightarrow> [])"

text \<open>\<open>int(text)\<close>; \<open>None\<close> is its \<open>ValueError\<close>.\<close>

definition parse_int :: "string \<Rightarrow> int option" where
  "parse_int s = (let (neg, d) = sign_split (py_strip s) in
     if digits_ok d then Some (if neg then - int (digits_value d) else int (digits_value d)) else None)"

definition declared_too_long :: "web_request \<Rightarrow> bool" where
  "declared_too_long rq =
     (case Option.bind (wq_length rq) parse_int of None \<Rightarrow> False | Some n \<Rightarrow> int max_operative_report < n)"

text \<open>The verification of a report: what was buffered of the body, and the caller or the refusal.\<close>

definition verify_operative_report :: "auth_outside \<Rightarrow> push_settings \<Rightarrow> web_request \<Rightarrow> string \<times> (nat + caller)" where
  "verify_operative_report ao ps rq =
     (case load_desktop_internal_auth ao of
        Inl code \<Rightarrow> ([], Inl code)
      | Inr None \<Rightarrow> ([], verify_pubsub_oidc ao ps rq)
      | Inr (Some ia) \<Rightarrow>
          (case split_bearer (wq_authorization rq) of
             None \<Rightarrow> ([], Inl 401)
           | Some t \<Rightarrow>
               if verify_push_token ia (Some t) then ([], Inr InternalPush)
               else if \<not> task_token_format t then ([], Inl 401)
               else if declared_too_long rq then ([], Inl 413)
               else (case read_capped_body rq max_operative_report of
                       (buffered, Inl code) \<Rightarrow> (buffered, Inl code)
                     | (buffered, Inr body) \<Rightarrow>
                         (let tid = reported_task_id ao body in
                          (buffered, if tid \<noteq> [] \<and> verify_task_token (ao_hmac ao) ia tid (Some t) then Inr (OperativeOf tid) else Inl 401)))))"

section \<open>The endpoint for reports\<close>

definition verified_task :: "caller \<Rightarrow> string option" where
  "verified_task c = (case c of OperativeOf t \<Rightarrow> Some t | _ \<Rightarrow> None)"

definition operative_complete_handler ::
  "auth_outside \<Rightarrow> push_settings \<Rightarrow> 's outside \<Rightarrow> 's lair_ops \<Rightarrow> web_request \<Rightarrow> push_message \<Rightarrow> ('s, http_reply) store_op" where
  "operative_complete_handler ao ps env lo rq msg =
     (case snd (verify_operative_report ao ps rq) of
        Inl code \<Rightarrow> st_return (Refused code)
      | Inr c \<Rightarrow> operative_complete env lo (verified_task c) msg)"

section \<open>Callers\<close>

lemma split_bearer_nonempty: "split_bearer h = Some t \<Longrightarrow> t \<noteq> []"
  by (auto simp: split_bearer_def Let_def split: if_splits)

lemma tokens_match_iff: "tokens_match c e \<longleftrightarrow> c = Some e \<and> e \<noteq> []"
  by (auto simp: tokens_match_def)

lemma verify_task_token_iff:
  "verify_task_token hmac ia tid c \<longleftrightarrow> tid \<noteq> [] \<and> c = Some (hmac (ia_key ia) (task_token_context @ tid)) \<and> c \<noteq> Some []"
  by (auto simp: verify_task_token_def task_token_def tokens_match_iff)

text \<open>
  C1: A pushed message is let in only for this install's push token, a token Google verifies for the configured audience
  and an allowed sender, or, under development, when nothing is configured or the verifier is missing. A desktop install
  knows the push token only.
\<close>

theorem push_fails_closed:
  assumes "verify_pubsub_oidc ao ps rq = Inr c"
  shows "\<exists>i. ao_internal ao = Some i \<and>
     (case i of
        Some ia \<Rightarrow> c = InternalPush \<and> split_bearer (wq_authorization rq) = Some (ia_push ia)
      | None \<Rightarrow>
          (\<exists>t email. c = OidcCaller email \<and> split_bearer (wq_authorization rq) = Some t \<and> ps_audience ps \<noteq> [] \<and>
             ao_oidc ao t (ps_audience ps) = Some email \<and> (allowed_emails ps = [] \<or> email \<in> set (allowed_emails ps))) \<or>
          c = UncheckedCaller \<and> environment_of (ps_base ps) = DEV \<and> \<not> is_desktop_install (ps_base ps) \<and>
             (ps_audience ps = [] \<and> split_bearer (wq_authorization rq) = None \<or> \<not> ao_google ao))"
  using assms
  by (auto simp: verify_pubsub_oidc_def load_desktop_internal_auth_def verify_push_token_def tokens_match_iff fail_open_allowed_def
      is_desktop_posture_def Let_def split: option.splits if_splits)

section \<open>Bodies\<close>

lemma read_chunks_bound: "length buffered \<le> cap \<Longrightarrow> length (fst (read_chunks cap buffered es)) \<le> cap"
  by (induction cap buffered es rule: read_chunks.induct) auto

lemma read_chunks_body: "read_chunks cap buffered es = (b, Inr body) \<Longrightarrow> b = body"
  by (induction cap buffered es rule: read_chunks.induct) (auto split: if_splits)

text \<open>
  C2: The verification of a report buffers at most the cap, and nothing at all of the body of a caller whose bearer is
  neither the push token nor shaped like a task token.
\<close>

theorem report_buffering_bounded:
  "length (fst (verify_operative_report ao ps rq)) \<le> max_operative_report \<and>
   ((case split_bearer (wq_authorization rq) of None \<Rightarrow> True | Some t \<Rightarrow> \<not> task_token_format t) \<longrightarrow>
     fst (verify_operative_report ao ps rq) = [])"
  using read_chunks_bound [of "[]" max_operative_report "wq_stream rq"]
  by (auto simp: verify_operative_report_def read_capped_body_def Let_def split: sum.split option.split prod.split)

section \<open>What an operative's token reaches\<close>

definition own_key :: "string \<Rightarrow> string \<Rightarrow> string \<Rightarrow> bool" where
  "own_key tid coll i \<longleftrightarrow> coll \<in> {''operative_reports'', processed_messages} \<and> prefix (tid @ '':'') i"

text \<open>The store and the lair manager without every write that is not about the task.\<close>

definition own_writes :: "string \<Rightarrow> 's store_ops \<Rightarrow> 's store_ops" where
  "own_writes tid ops = ops
     \<lparr>op_set := (\<lambda>c i d. if own_key tid c i then op_set ops c i d else st_return ()),
      op_delete := (\<lambda>c i. if own_key tid c i then op_delete ops c i else st_return ()),
      op_update := (\<lambda>c i d. st_return ()), op_increment := (\<lambda>c i d. st_return ()), op_update_if := (\<lambda>c i f v d. st_return False)\<rparr>"

definition own_reports :: "string \<Rightarrow> 's lair_ops \<Rightarrow> 's lair_ops" where
  "own_reports tid lo = lo\<lparr>lair_notify := (\<lambda>r s. if sr_task_id r = tid then lair_notify lo r s else s)\<rparr>"

lemma own_writes_simps [simp]:
  "op_get (own_writes tid ops) = op_get ops"
  "own_key tid c i \<Longrightarrow> op_set (own_writes tid ops) c i d = op_set ops c i d"
  "own_key tid c i \<Longrightarrow> op_delete (own_writes tid ops) c i = op_delete ops c i"
  by (simp_all add: own_writes_def)

lemma own_key_simps [simp]:
  "own_key tid processed_messages (tid @ CHR 0x3A # k)" "own_key tid ''operative_reports'' (tid @ CHR 0x3A # k)"
  by (simp_all add: own_key_def prefix_def)

definition own_outside :: "string \<Rightarrow> 's outside \<Rightarrow> 's outside" where
  "own_outside tid env = env\<lparr>mm_store := own_writes tid (mm_store env)\<rparr>"

lemma own_outside_simps [simp]:
  "mm_store (own_outside tid env) = own_writes tid (mm_store env)" "st_now (own_outside tid env) = st_now env"
  by (simp_all add: own_outside_def st_now_def fun_eq_iff)

lemma own_lair_simps [simp]:
  "lair_accepts (own_reports tid lo) = lair_accepts lo" "load_report (own_reports tid lo) = load_report lo"
  "sr_task_id r = tid \<Longrightarrow> lair_notify (own_reports tid lo) r = lair_notify lo r"
  by (simp_all add: own_reports_def fun_eq_iff)

lemma own_dedup:
  "check_message_dedup (own_outside tid env) [] (Some (tid @ CHR 0x3A # k)) h = check_message_dedup env [] (Some (tid @ CHR 0x3A # k)) h"
  "mark_done (own_outside tid env) [] (Some (tid @ CHR 0x3A # k)) h = mark_done env [] (Some (tid @ CHR 0x3A # k)) h"
  "release_claims (own_outside tid env) [] (Some (tid @ CHR 0x3A # k)) = release_claims env [] (Some (tid @ CHR 0x3A # k))"
  by (simp_all add: check_message_dedup_def claim_now_def claim_message_def check_marker_def set_marker_def mark_done_def
      mark_message_done_def release_claims_def release_message_claim_def message_keys_def cong: if_cong)

lemma own_no_key:
  "check_message_dedup env' [] None h = st_return False" "mark_done env' [] None h = st_return ()" "release_claims env' [] None = st_return ()"
  by (simp_all add: check_message_dedup_def mark_done_def release_claims_def message_keys_def)

lemma own_refusal: "refuse_report (own_reports tid lo) v now r s = refuse_report lo v now r s"
  by (simp add: refuse_report_def)

lemma accepted_report_own:
  assumes "key = None \<or> (\<exists>k. key = Some (tid @ CHR 0x3A # k))"
  shows "accept_report (own_outside tid env) (own_reports tid lo) (Some tid) [] key data = accept_report env lo (Some tid) [] key data"
proof (rule ext)
  fix s
  have mark: "mark_done (own_outside tid env) [] key h = mark_done env [] key h" for h
    using assms by (elim disjE exE) (simp_all add: own_dedup own_no_key)
  show "accept_report (own_outside tid env) (own_reports tid lo) (Some tid) [] key data s = accept_report env lo (Some tid) [] key data s"
  proof (cases data)
    case (Payload v)
    show ?thesis
    proof (cases "load_report lo v")
      case (Some r)
      show ?thesis
      proof (cases "sr_task_id r = tid")
        case True
        with Payload Some show ?thesis
          by (simp add: accept_report_def own_refusal mark st_bind_def split: option.split json.split)
      next
        case False
        with Payload Some show ?thesis
          by (simp add: accept_report_def own_refusal refuse_report_def st_bind_def)
      qed
    qed (simp add: accept_report_def Payload)
  qed (simp_all add: accept_report_def)
qed

text \<open>
  C3: A request with the task token of an operative touches only what belongs to the task the token was derived for:
  with every other write to the store and every report of another task taken away, the endpoint does the same.
\<close>

theorem operative_reaches_own_task_only:
  assumes "snd (verify_operative_report ao ps rq) = Inr (OperativeOf tid)"
  shows "operative_complete_handler ao ps env lo rq msg = operative_complete_handler ao ps (own_outside tid env) (own_reports tid lo) rq msg \<and>
    (\<exists>ia. ao_internal ao = Some (Some ia) \<and> split_bearer (wq_authorization rq) = Some (ao_hmac ao (ia_key ia) (task_token_context @ tid)))"
proof
  have v: "tid \<noteq> []" "\<exists>ia. ao_internal ao = Some (Some ia) \<and> split_bearer (wq_authorization rq) = Some (ao_hmac ao (ia_key ia) (task_token_context @ tid))"
    using assms
    by (auto simp: verify_operative_report_def verify_pubsub_oidc_def load_desktop_internal_auth_def verify_task_token_iff Let_def
        split: option.splits if_splits prod.splits sum.splits)
  then show "\<exists>ia. ao_internal ao = Some (Some ia) \<and> split_bearer (wq_authorization rq) = Some (ao_hmac ao (ia_key ia) (task_token_context @ tid))"
    by blast
  have "operative_complete (own_outside tid env) (own_reports tid lo) (Some tid) msg = operative_complete env lo (Some tid) msg"
  proof (cases "pm_id msg = []")
    case True
    then show ?thesis by (simp add: operative_complete_def own_no_key accepted_report_own cong: if_cong http_reply.case_cong)
  next
    case False
    then show ?thesis using v(1) by (simp add: operative_complete_def own_dedup accepted_report_own cong: if_cong http_reply.case_cong)
  qed
  then show "operative_complete_handler ao ps env lo rq msg = operative_complete_handler ao ps (own_outside tid env) (own_reports tid lo) rq msg"
    using assms by (simp add: operative_complete_handler_def verified_task_def)
qed

section \<open>A sample desktop install\<close>

definition desktop_outside :: auth_outside where
  "desktop_outside =
     \<lparr>ao_internal = Some (Some \<lparr>ia_push = ''push'', ia_key = ''key''\<rparr>), ao_hmac = (\<lambda>k m. replicate 64 CHR ''a''), ao_google = True,
      ao_oidc = (\<lambda>_ _. None), ao_data = (\<lambda>_. Some (JObj [(''task_id'', JStr ''t1'')]))\<rparr>"

definition sample_push :: push_settings where
  "sample_push = \<lparr>ps_base = sample_settings, ps_audience = [], ps_emails = []\<rparr>"

definition bearer_request :: "string \<Rightarrow> web_request" where
  "bearer_request t = \<lparr>wq_authorization = Some (''Bearer '' @ t), wq_length = None, wq_stream = [Chunk ''{}'']\<rparr>"

lemma push_fails_closed_witness:
  "split_bearer (wq_authorization (bearer_request ''push'')) = Some ''push''"
proof -
  have "verify_pubsub_oidc desktop_outside sample_push (bearer_request ''push'') = Inr InternalPush" by code_simp
  from push_fails_closed [OF this] show ?thesis by (simp add: desktop_outside_def)
qed

lemma report_buffering_bounded_witness:
  "fst (verify_operative_report desktop_outside sample_push (bearer_request ''guess'')) = []"
proof -
  have "split_bearer (wq_authorization (bearer_request ''guess'')) = Some ''guess''" "\<not> task_token_format ''guess''" by code_simp+
  then show ?thesis using report_buffering_bounded [of desktop_outside sample_push "bearer_request ''guess''"] by simp
qed

lemma operative_reaches_own_task_only_witness:
  "\<forall>(env :: unit outside) lo msg.
     operative_complete_handler desktop_outside sample_push env lo (bearer_request (replicate 64 CHR ''a'')) msg =
     operative_complete_handler desktop_outside sample_push (own_outside ''t1'' env) (own_reports ''t1'' lo)
       (bearer_request (replicate 64 CHR ''a'')) msg"
proof -
  have "split_bearer (wq_authorization (bearer_request (replicate 64 CHR ''a''))) = Some (replicate 64 CHR ''a'')"
    "task_token_format (replicate 64 CHR ''a'')" "\<not> verify_push_token \<lparr>ia_push = ''push'', ia_key = ''key''\<rparr> (Some (replicate 64 CHR ''a''))"
    "verify_task_token (\<lambda>k m. replicate 64 CHR ''a'') \<lparr>ia_push = ''push'', ia_key = ''key''\<rparr> ''t1'' (Some (replicate 64 CHR ''a''))"
    "\<And>b. reported_task_id desktop_outside b = ''t1''"
    by (code_simp, code_simp, code_simp, code_simp, simp add: reported_task_id_def desktop_outside_def doc_get_def dict_get_or_def)
  then have "snd (verify_operative_report desktop_outside sample_push (bearer_request (replicate 64 CHR ''a''))) = Inr (OperativeOf ''t1'')"
    by (simp add: verify_operative_report_def load_desktop_internal_auth_def declared_too_long_def read_capped_body_def max_operative_report_def
        desktop_outside_def bearer_request_def)
  from operative_reaches_own_task_only [OF this] show ?thesis by blast
qed

end
