(* ===== verification/Dispatch.thy ===== *)
theory Dispatch
  imports Normalizer Throttle AgentRun PushAuth
begin

text \<open>
  The dispatch service (\<open>dispatch/server.py\<close>, \<open>dispatch/handlers\<close>): authentication of a delivery, the
  replay guard, the triggers of each source and what is published. The broker, the clocks, fresh
  identifiers, the parser of JSON and HMAC-SHA256 are the outside's.
\<close>

section \<open>The outside\<close>

datatype published = TaskMessage henchmen_task | CiFailureMessage doc | EmbedMessage string string

record 'w dispatch_env =
  de_json :: "string \<Rightarrow> json option"
  de_hmac :: "string \<Rightarrow> string \<Rightarrow> string"
  de_show :: renderers
  de_clock :: "'w \<Rightarrow> int"
  de_time :: "'w \<Rightarrow> rat"
  de_ids :: "'w \<Rightarrow> fresh_ids \<times> 'w"
  de_publish :: "string \<Rightarrow> published \<Rightarrow> (string, string) dict \<Rightarrow> ('w, string) store_op"

record http_request =
  hr_body :: string
  hr_headers :: "(string, string) dict"

definition header :: "http_request \<Rightarrow> string \<Rightarrow> string" where
  "header r k = dict_get_or (hr_headers r) k []"

text \<open>An answer, or an \<open>HTTPException\<close>; any other exception is a 500 of the framework.\<close>

datatype reply = Replied json | Refused nat string

text \<open>The state of the service: its replay guard, and the outside.\<close>

type_synonym ('w, 'a) dispatch_op = "(ttl_set \<times> 'w, 'a) store_op"

definition outward :: "('w, 'a) store_op \<Rightarrow> ('w, 'a) dispatch_op" where
  "outward m s = (let (r, w) = m (snd s) in (r, (fst s, w)))"

section \<open>Authentication\<close>

definition verify_hub_signature :: "'w dispatch_env \<Rightarrow> string \<Rightarrow> string \<Rightarrow> string \<Rightarrow> bool" where
  "verify_hub_signature env body sig secret \<longleftrightarrow> sig \<noteq> [] \<and> secret \<noteq> [] \<and> ''sha256='' @ de_hmac env secret body = sig"

text \<open>A time stamp that reads as a number further than five minutes away is stale; NaN compares with nothing.\<close>

definition stale :: "rat \<Rightarrow> string \<Rightarrow> bool" where
  "stale now ts =
     (case parse_float ts of None \<Rightarrow> True | Some (Finite x) \<Rightarrow> \<bar>now - x\<bar> > 300 | Some (Infinite _) \<Rightarrow> True | Some NotANumber \<Rightarrow> False)"

definition verify_slack_signature :: "'w dispatch_env \<Rightarrow> rat \<Rightarrow> string \<Rightarrow> string \<Rightarrow> string \<Rightarrow> string \<Rightarrow> bool" where
  "verify_slack_signature env now body ts sig secret \<longleftrightarrow>
     ts \<noteq> [] \<and> sig \<noteq> [] \<and> secret \<noteq> [] \<and> \<not> stale now ts \<and> ''v0='' @ de_hmac env secret (''v0:'' @ ts @ '':'' @ body) = sig"

definition missing_secret :: "dispatch_settings \<Rightarrow> string \<Rightarrow> bool" where
  "missing_secret st secret \<longleftrightarrow> secret = [] \<and> \<not> fail_open_allowed (ds_base st)"

text \<open>The bearer of a header, empty without one.\<close>

definition bearer_text :: "string \<Rightarrow> string" where
  "bearer_text h = (case split_bearer (Some h) of None \<Rightarrow> [] | Some t \<Rightarrow> t)"

definition api_token_accepted :: "dispatch_settings \<Rightarrow> http_request \<Rightarrow> bool" where
  "api_token_accepted st r =
     (let expected = py_strip (ds_api_token st); given = bearer_text (header r ''Authorization'') in
      if expected = [] then fail_open_allowed (ds_base st) else given \<noteq> [] \<and> given = expected)"

section \<open>Publishing\<close>

definition publish_task :: "'w dispatch_env \<Rightarrow> dispatch_settings \<Rightarrow> henchmen_task \<Rightarrow> string \<Rightarrow> ('w, string) store_op" where
  "publish_task env st task key =
     de_publish env (ds_task_topic st) (TaskMessage task)
       ((''task_id'', task_id task) # (if key \<noteq> [] then [(''dedup_key'', key)] else []))"

definition ignored :: "string \<Rightarrow> json" where
  "ignored reason = JObj [(''status'', JStr ''ignored''), (''reason'', JStr reason)]"

text \<open>Normalize and publish, with the rest of the answer.\<close>

definition dispatch_task ::
  "'w dispatch_env \<Rightarrow> dispatch_settings \<Rightarrow> (fresh_ids \<Rightarrow> store_error + henchmen_task) \<Rightarrow> string \<Rightarrow> (string \<times> json) list \<Rightarrow> ('w, json) store_op" where
  "dispatch_task env st mk key extra w =
     (let (ids, w1) = de_ids env w in
      st_bind (st_lift (mk ids)) (\<lambda>task.
      st_bind (publish_task env st task key) (\<lambda>mid.
      st_return (JObj ([(''task_id'', JStr (task_id task)), (''message_id'', JStr mid), (''status'', JStr ''dispatched'')] @ extra)))) w1)"

section \<open>GitHub\<close>

definition raising :: "'a option \<Rightarrow> store_error + 'a" where
  "raising v = (case v of None \<Rightarrow> Inl bad_payload | Some x \<Rightarrow> Inr x)"

definition allowed_associations :: "string list" where
  "allowed_associations = [''owner'', ''member'', ''collaborator'']"

definition ci_failure_conclusions :: "string list" where
  "ci_failure_conclusions = [''failure'', ''timed_out'', ''startup_failure'', ''action_required'']"

definition is_issue_labeled :: "json \<Rightarrow> store_error + bool" where
  "is_issue_labeled p =
     res_bind (jget p ''action'' JNull) (\<lambda>a.
     if a \<noteq> JStr ''labeled'' then Inr False
     else res_bind (jget p ''label'' (JObj [])) (\<lambda>l. res_bind (jget l ''name'' (JStr [])) (\<lambda>n. Inr (n = JStr ''henchmen''))))"

definition comment_of :: "json \<Rightarrow> store_error + json" where
  "comment_of p = res_bind (jget p ''comment'' JNull) (\<lambda>c. Inr (py_or c (JObj [])))"

definition is_henchmen_comment :: "json \<Rightarrow> store_error + bool" where
  "is_henchmen_comment p =
     res_bind (jget p ''action'' JNull) (\<lambda>a.
     if a \<noteq> JStr ''created'' then Inr False
     else res_bind (comment_of p) (\<lambda>c.
          res_bind (jget c ''body'' (JStr [])) (\<lambda>b.
          res_bind (raising (py_in (JStr ''@henchmen'') (py_or b (JStr [])))) (\<lambda>found.
          Inr (found \<and> (has_key p ''pull_request'' \<or> has_key p ''issue''))))))"

text \<open>\<open>association.upper()\<close> is compared; on ASCII letters that is the comparison in lower case.\<close>

definition is_authorized_commenter :: "json \<Rightarrow> store_error + bool" where
  "is_authorized_commenter p =
     res_bind (comment_of p) (\<lambda>c.
     res_bind (jget c ''author_association'' (JStr [])) (\<lambda>a.
     Inr (case a of JStr s \<Rightarrow> py_lower s \<in> set allowed_associations | _ \<Rightarrow> False)))"

definition is_ci_failure :: "json \<Rightarrow> store_error + bool" where
  "is_ci_failure p =
     res_bind (jget p ''action'' JNull) (\<lambda>a.
     if a \<noteq> JStr ''completed'' then Inr False
     else res_bind (jget p ''check_suite'' (JObj [])) (\<lambda>suite.
          res_bind (jget suite ''conclusion'' JNull) (\<lambda>c0.
          res_bind (text_or_empty c0) (\<lambda>c.
          if py_lower c \<notin> set ci_failure_conclusions then Inr False
          else res_bind (string_at suite ''head_branch'' []) (\<lambda>b. Inr (prefix ''henchmen/'' b))))))"

definition is_push_to_default :: "renderers \<Rightarrow> json \<Rightarrow> store_error + bool" where
  "is_push_to_default f p =
     res_bind (jget p ''ref'' (JStr [])) (\<lambda>ref.
     res_bind (jget p ''repository'' (JObj [])) (\<lambda>r.
     res_bind (jget r ''default_branch'' (JStr ''main'')) (\<lambda>d. Inr (ref = JStr (''refs/heads/'' @ py_str f d)))))"

text \<open>The task id prefix of a branch; \<open>replace\<close> of the first occurrence, which is at the front.\<close>

definition task_prefix :: "string \<Rightarrow> string" where
  "task_prefix branch = (case split_first ''henchmen/'' branch of None \<Rightarrow> branch | Some (a, b) \<Rightarrow> a @ b)"

definition ci_failure_doc :: "json \<Rightarrow> store_error + doc" where
  "ci_failure_doc p =
     res_bind (jget p ''check_suite'' (JObj [])) (\<lambda>suite.
     res_bind (jget p ''repository'' (JObj [])) (\<lambda>r.
     res_bind (jget r ''full_name'' (JStr [])) (\<lambda>repo.
     res_bind (string_at suite ''head_branch'' []) (\<lambda>branch.
     res_bind (jget suite ''id'' (JInt 0)) (\<lambda>i.
     res_bind (jget suite ''head_sha'' (JStr [])) (\<lambda>sha.
     res_bind (jget suite ''conclusion'' JNull) (\<lambda>c.
     Inr [(''task_id_prefix'', JStr (task_prefix branch)), (''repo'', repo), (''branch'', JStr branch), (''check_suite_id'', i),
          (''head_sha'', sha), (''conclusion'', py_or c (JStr []))])))))))"

definition dispatch_ci_failure :: "'w dispatch_env \<Rightarrow> dispatch_settings \<Rightarrow> json \<Rightarrow> ('w, json) store_op" where
  "dispatch_ci_failure env st p =
     st_bind (st_lift (ci_failure_doc p)) (\<lambda>d.
     st_bind (de_publish env (ds_ci_topic st) (CiFailureMessage d) []) (\<lambda>_.
     st_return (JObj [(''status'', JStr ''ci_failure_dispatched''), (''task_id_prefix'', doc_get d ''task_id_prefix''),
       (''repo'', doc_get d ''repo''), (''check_suite_id'', doc_get d ''check_suite_id''), (''conclusion'', doc_get d ''conclusion'')])))"

definition handle_push_embed :: "'w dispatch_env \<Rightarrow> dispatch_settings \<Rightarrow> json \<Rightarrow> ('w, json) store_op" where
  "handle_push_embed env st p =
     st_bind (st_lift (res_bind (jget p ''repository'' (JObj [])) (\<lambda>r. jget r ''full_name'' (JStr [])))) (\<lambda>repo0.
     st_bind (st_lift (jget p ''after'' (JStr []))) (\<lambda>sha0.
     if \<not> py_true repo0 then st_return (ignored ''push event has no repository.full_name'')
     else st_bind (st_lift (as_string repo0)) (\<lambda>repo.
          st_bind (st_lift (as_string sha0)) (\<lambda>sha.
          st_bind (de_publish env (ds_embed_topic st) (EmbedMessage repo sha) [(''repo'', repo)]) (\<lambda>_.
          st_return (JObj [(''status'', JStr ''embed_requested''), (''repo'', JStr repo), (''commit_sha'', JStr sha)]))))))"

definition handle_github :: "'w dispatch_env \<Rightarrow> dispatch_settings \<Rightarrow> json \<Rightarrow> string \<Rightarrow> ('w, json) store_op" where
  "handle_github env st p key =
     st_bind (st_lift (is_issue_labeled p)) (\<lambda>labeled.
     if labeled then dispatch_task env st (\<lambda>ids. from_github (de_show env) ids st p) key [(''trigger'', JStr ''issue_labeled'')]
     else st_bind (st_lift (is_henchmen_comment p)) (\<lambda>comment.
     if comment then
       st_bind (st_lift (is_authorized_commenter p)) (\<lambda>ok.
       if \<not> ok then st_return (ignored ''unauthorized commenter'')
       else dispatch_task env st (\<lambda>ids. from_github (de_show env) ids st p) key [(''trigger'', JStr ''pr_comment'')])
     else st_bind (st_lift (is_ci_failure p)) (\<lambda>ci.
     if ci then dispatch_ci_failure env st p
     else st_bind (st_lift (is_push_to_default (de_show env) p)) (\<lambda>push.
     if push then handle_push_embed env st p else st_return (ignored ''no matching trigger'')))))"

section \<open>Jira and Slack\<close>

definition ready_name :: json where
  "ready_name = JStr ''Ready for Henchmen''"

definition is_ready_item :: "json \<Rightarrow> bool" where
  "is_ready_item v =
     (case v of JObj kvs \<Rightarrow> doc_get kvs ''field'' \<in> {JStr ''status'', JStr ''Status''} \<and> doc_get kvs ''toString'' = ready_name | _ \<Rightarrow> False)"

definition is_henchmen_transition :: "json \<Rightarrow> store_error + bool" where
  "is_henchmen_transition p =
     res_bind (jget p ''transition'' JNull) (\<lambda>t0.
     let t = py_or t0 (JObj []) in
     res_bind (jget t ''transitionName'' JNull) (\<lambda>n.
     res_bind (jget t ''to_status'' JNull) (\<lambda>s.
     if n = ready_name \<or> s = ready_name then Inr True
     else res_bind (jget p ''changelog'' JNull) (\<lambda>c.
          res_bind (jget (py_or c (JObj [])) ''items'' (JList [])) (\<lambda>i.
          res_bind (as_items (py_or i (JList []))) (\<lambda>items. Inr (list_ex is_ready_item items)))))))"

definition handle_jira :: "'w dispatch_env \<Rightarrow> dispatch_settings \<Rightarrow> json \<Rightarrow> string \<Rightarrow> ('w, json) store_op" where
  "handle_jira env st p key =
     st_bind (st_lift (is_henchmen_transition p)) (\<lambda>ready.
     if ready then dispatch_task env st (\<lambda>ids. from_jira (de_show env) ids st p) key []
     else st_return (ignored (''transition is not 'Ready for Henchmen'' @ [CHR 0x27])))"

definition bot_user_id :: "json \<Rightarrow> store_error + string" where
  "bot_user_id p =
     res_bind (jget p ''authorizations'' JNull) (\<lambda>a.
     Inr (case a of JList (JObj kvs # _) \<Rightarrow> (case doc_get kvs ''user_id'' of JStr s \<Rightarrow> s | _ \<Rightarrow> []) | _ \<Rightarrow> []))"

definition mentions :: "json \<Rightarrow> string \<Rightarrow> store_error + bool" where
  "mentions v m = raising (py_in (JStr m) v)"

definition is_henchmen_mention :: "json \<Rightarrow> store_error + bool" where
  "is_henchmen_mention p =
     res_bind (jget p ''event'' p) (\<lambda>event.
     res_bind (jget event ''type'' (JStr [])) (\<lambda>kind.
     res_bind (jget event ''text'' (JStr [])) (\<lambda>text.
     res_bind (mentions text ''@henchmen'') (\<lambda>plain.
     res_bind (bot_user_id p) (\<lambda>bot.
     res_bind (if bot \<noteq> [] then mentions text (''<@'' @ bot @ ''>'') else Inr False) (\<lambda>named.
     Inr (kind = JStr ''app_mention'' \<or> plain \<or> named)))))))"

definition handle_slack :: "'w dispatch_env \<Rightarrow> dispatch_settings \<Rightarrow> json \<Rightarrow> string \<Rightarrow> ('w, json) store_op" where
  "handle_slack env st p key =
     st_bind (st_lift (is_henchmen_mention p)) (\<lambda>wanted.
     if wanted then dispatch_task env st (\<lambda>ids. from_slack (de_show env) ids st p) key []
     else st_return (ignored ''not a henchmen mention''))"

section \<open>The endpoints\<close>

definition duplicate_reply :: "string \<Rightarrow> json" where
  "duplicate_reply key = JObj [(''status'', JStr ''ignored''), (''reason'', JStr ''duplicate delivery''), (''dedup_key'', JStr key)]"

text \<open>The replay guard and the handler behind it.\<close>

definition guarded :: "'w dispatch_env \<Rightarrow> string \<Rightarrow> ('w, json) store_op \<Rightarrow> ('w, reply) dispatch_op" where
  "guarded env key handler s =
     (let (new, g) = (if key = [] then (True, fst s) else add_if_absent key (de_clock env (snd s)) (fst s)) in
      if \<not> new then (Inr (Replied (duplicate_reply key)), (g, snd s))
      else st_bind (outward handler) (\<lambda>j. st_return (Replied j)) (g, snd s))"

definition parse_body :: "'w dispatch_env \<Rightarrow> string \<Rightarrow> string \<Rightarrow> reply + json" where
  "parse_body env name body =
     (case de_json env body of
        None \<Rightarrow> Inl (Refused 400 ''Invalid JSON'')
      | Some (JObj kvs) \<Rightarrow> Inr (JObj kvs)
      | Some _ \<Rightarrow> Inl (Refused 400 (name @ '' payload must be a JSON object'')))"

definition unsigned :: "string \<Rightarrow> string \<Rightarrow> reply" where
  "unsigned name secret = Refused 401 (if secret = [] then name @ '' webhook signing secret is not configured'' else ''Invalid '' @ name @ '' signature'')"

definition github_webhook :: "'w dispatch_env \<Rightarrow> dispatch_settings \<Rightarrow> http_request \<Rightarrow> ('w, reply) dispatch_op" where
  "github_webhook env st r =
     (let secret = ds_github_secret st in
      if missing_secret st secret \<or> secret \<noteq> [] \<and> \<not> verify_hub_signature env (hr_body r) (header r ''X-Hub-Signature-256'') secret
      then st_return (unsigned ''github'' secret)
      else (case parse_body env ''GitHub'' (hr_body r) of
          Inl e \<Rightarrow> st_return e
        | Inr p \<Rightarrow>
            (let delivery = header r ''X-GitHub-Delivery''; key = (if delivery \<noteq> [] then ''github:'' @ delivery else [])
             in guarded env key (handle_github env st p key))))"

definition jira_dedup_key :: "renderers \<Rightarrow> json \<Rightarrow> store_error + string" where
  "jira_dedup_key f p =
     res_bind (jget p ''webhookEvent'' (JStr [])) (\<lambda>event.
     res_bind (jget p ''issue'' JNull) (\<lambda>issue.
     res_bind (jget (py_or issue (JObj [])) ''key'' (JStr [])) (\<lambda>key.
     res_bind (jget p ''timestamp'' (JStr [])) (\<lambda>ts.
     Inr (if py_true event \<and> py_true key \<and> py_true ts
          then ''jira:'' @ py_str f event @ '':'' @ py_str f key @ '':'' @ py_str f ts else [])))))"

definition jira_webhook :: "'w dispatch_env \<Rightarrow> dispatch_settings \<Rightarrow> http_request \<Rightarrow> ('w, reply) dispatch_op" where
  "jira_webhook env st r =
     (let secret = ds_jira_secret st; hub = header r ''X-Hub-Signature'';
          sig = (if hub \<noteq> [] then hub else header r ''X-Atlassian-Webhook-Signature'') in
      if missing_secret st secret \<or> secret \<noteq> [] \<and> \<not> verify_hub_signature env (hr_body r) sig secret
      then st_return (unsigned ''jira'' secret)
      else (case parse_body env ''Jira'' (hr_body r) of
          Inl e \<Rightarrow> st_return e
        | Inr p \<Rightarrow> st_bind (st_lift (jira_dedup_key (de_show env) p)) (\<lambda>key. guarded env key (handle_jira env st p key))))"

text \<open>The URL challenge of Slack is answered before the signature is looked at, and a retry is not handled at all.\<close>

definition slack_webhook :: "'w dispatch_env \<Rightarrow> dispatch_settings \<Rightarrow> http_request \<Rightarrow> ('w, reply) dispatch_op" where
  "slack_webhook env st r s =
     (let secret = ds_slack_secret st in
      case parse_body env ''Slack'' (hr_body r) of
        Inl e \<Rightarrow> (Inr e, s)
      | Inr (JObj p) \<Rightarrow>
          if doc_get p ''type'' = JStr ''url_verification'' then (Inr (Replied (JObj [(''challenge'', doc_get p ''challenge'')])), s)
          else if missing_secret st secret \<or>
            secret \<noteq> [] \<and> \<not> verify_slack_signature env (de_time env (snd s)) (hr_body r) (header r ''X-Slack-Request-Timestamp'')
              (header r ''X-Slack-Signature'') secret
          then (Inr (unsigned ''Slack'' secret), s)
          else if header r ''X-Slack-Retry-Num'' \<noteq> [] then (Inr (Replied (ignored ''slack retry'')), s)
          else (let i = doc_get p ''event_id''; key = (if py_true i then ''slack:'' @ py_str (de_show env) i else [])
                in guarded env key (handle_slack env st (JObj p) key) s)
      | Inr _ \<Rightarrow> (Inl bad_payload, s))"

definition create_task :: "'w dispatch_env \<Rightarrow> dispatch_settings \<Rightarrow> http_request \<Rightarrow> create_request \<Rightarrow> ('w, reply) dispatch_op" where
  "create_task env st r c =
     (let repo = (if cr_repo c \<noteq> [] then cr_repo c else default_repository st) in
      if \<not> api_token_accepted st r then st_return (Refused 401 ''token'')
      else if repo = [] then st_return (Refused 422 ''repo'')
      else if cr_repo c = [] \<and> \<not> is_owner_name repo then st_return (Refused 422 ''owner/name'')
      else st_bind (outward (dispatch_task env st (\<lambda>ids. Inr (from_cli ids st (c\<lparr>cr_repo := repo\<rparr>))) [] []))
             (\<lambda>j. st_return (Replied j)))"

section \<open>Who may publish\<close>

lemma parse_body_reply: "parse_body env name body = Inl e \<Longrightarrow> \<exists>n t. e = Refused n t"
  by (auto simp: parse_body_def split: option.splits json.splits)

text \<open>
  C37: A delivery changes the service or the outside only if it is authentic: signed with the secret of its
  source, or carrying the API token. Without a secret that holds only where development shortcuts are on.
\<close>

theorem delivery_is_authentic:
  "(snd (github_webhook env st r s) = s \<or> verify_hub_signature env (hr_body r) (header r ''X-Hub-Signature-256'') (ds_github_secret st) \<or>
     ds_github_secret st = [] \<and> fail_open_allowed (ds_base st)) \<and>
   (snd (jira_webhook env st r s) = s \<or> (\<exists>h. verify_hub_signature env (hr_body r) (header r h) (ds_jira_secret st)) \<or>
     ds_jira_secret st = [] \<and> fail_open_allowed (ds_base st)) \<and>
   (snd (slack_webhook env st r s) = s \<or>
     verify_slack_signature env (de_time env (snd s)) (hr_body r) (header r ''X-Slack-Request-Timestamp'') (header r ''X-Slack-Signature'')
       (ds_slack_secret st) \<or>
     ds_slack_secret st = [] \<and> fail_open_allowed (ds_base st)) \<and>
   (snd (create_task env st r c s) = s \<or> py_strip (ds_api_token st) = bearer_text (header r ''Authorization'') \<and> py_strip (ds_api_token st) \<noteq> [] \<or>
     py_strip (ds_api_token st) = [] \<and> fail_open_allowed (ds_base st))"
proof (intro conjI)
  show "snd (github_webhook env st r s) = s \<or> verify_hub_signature env (hr_body r) (header r ''X-Hub-Signature-256'') (ds_github_secret st) \<or>
     ds_github_secret st = [] \<and> fail_open_allowed (ds_base st)"
    by (cases "ds_github_secret st = []") (simp_all add: github_webhook_def Let_def missing_secret_def)
  show "snd (jira_webhook env st r s) = s \<or> (\<exists>h. verify_hub_signature env (hr_body r) (header r h) (ds_jira_secret st)) \<or>
     ds_jira_secret st = [] \<and> fail_open_allowed (ds_base st)"
  proof -
    let ?sig = "if header r ''X-Hub-Signature'' \<noteq> [] then header r ''X-Hub-Signature'' else header r ''X-Atlassian-Webhook-Signature''"
    have "\<exists>h. ?sig = header r h" by (cases "header r ''X-Hub-Signature'' = []") auto
    then obtain h where "?sig = header r h" by blast
    then show ?thesis by (cases "ds_jira_secret st = []") (auto simp: jira_webhook_def Let_def missing_secret_def)
  qed
  show "snd (slack_webhook env st r s) = s \<or>
     verify_slack_signature env (de_time env (snd s)) (hr_body r) (header r ''X-Slack-Request-Timestamp'') (header r ''X-Slack-Signature'')
       (ds_slack_secret st) \<or>
     ds_slack_secret st = [] \<and> fail_open_allowed (ds_base st)"
    by (cases "ds_slack_secret st = []") (simp_all add: slack_webhook_def Let_def missing_secret_def split: sum.split json.split)
  show "snd (create_task env st r c s) = s \<or> py_strip (ds_api_token st) = bearer_text (header r ''Authorization'') \<and> py_strip (ds_api_token st) \<noteq> [] \<or>
     py_strip (ds_api_token st) = [] \<and> fail_open_allowed (ds_base st)"
    by (cases "api_token_accepted st r") (auto simp: create_task_def Let_def api_token_accepted_def split: if_splits)
qed

text \<open>A comment of somebody without a role in the repository publishes nothing.\<close>

lemma stranger_comment_ignored:
  assumes "is_henchmen_comment p = Inr True" "is_authorized_commenter p = Inr False"
  shows "handle_github env st p key w = (Inr (ignored ''unauthorized commenter''), w)"
proof -
  have "is_issue_labeled p = Inr False"
    using assms(1) by (auto simp: is_henchmen_comment_def is_issue_labeled_def res_bind_Inr_iff split: if_splits)
  with assms show ?thesis by (simp add: handle_github_def st_bind_def)
qed

text \<open>A branch of a task leads the CI feedback back to the task.\<close>

lemma ci_failure_names_task: "task_prefix (branch_name tid) = take 8 tid"
  by (simp add: task_prefix_def branch_name_def)

section \<open>Replays\<close>

lemma replayed_key:
  assumes "ttl_ok t g" "add_if_absent key t g = (True, g1)" "key \<noteq> []" "0 < tt_max g" "t \<le> u" "u - t \<le> tt_ttl g"
  shows "\<exists>g2. add_if_absent key u g1 = (False, g2)"
proof -
  have g1: "ttl_ok t g1" "tt_ttl g1 = tt_ttl g" "tt_max g1 = tt_max g"
    using add_ok [OF assms(1), of t key] add_ttl [of key t g] assms(2) by simp_all
  have "recent key t 0 g1" using add_enters [OF assms(1,2,3,4)] assms(5,6) by simp
  moreover have "ttl_ok u g1" using g1(1) assms(5) by (force simp: ttl_ok_def)
  ultimately have "recent key t 0 (prune_seen u g1)" using assms(4,6) g1 by (intro prune_recent) simp_all
  from recent_get [OF this] assms(3) show ?thesis by (simp add: add_if_absent_def Let_def)
qed

text \<open>
  C40: A delivery whose handling fails is lost: its key stays in the replay guard, so the repetition that
  the source or an operator sends within the time to live is answered as a duplicate and nothing is published.
\<close>

theorem failed_delivery_is_lost:
  assumes "verify_hub_signature env (hr_body r) (header r ''X-Hub-Signature-256'') (ds_github_secret st)" "parse_body env ''GitHub'' (hr_body r) = Inr p"
    and "header r ''X-GitHub-Delivery'' \<noteq> []" "key = ''github:'' @ header r ''X-GitHub-Delivery''"
    and "ttl_ok (de_clock env w) g" "0 < tt_max g" "add_if_absent key (de_clock env w) g = (True, g1)"
    and "handle_github env st p key w = (Inl e, w1)" "de_clock env w \<le> de_clock env w1" "de_clock env w1 - de_clock env w \<le> tt_ttl g"
  shows "github_webhook env st r (g, w) = (Inl e, (g1, w1)) \<and>
    (\<exists>g2. github_webhook env st r (g1, w1) = (Inr (Replied (duplicate_reply key)), (g2, w1)))"
proof -
  have key: "key \<noteq> []" "(if header r ''X-GitHub-Delivery'' \<noteq> [] then ''github:'' @ header r ''X-GitHub-Delivery'' else []) = key"
    using assms(3,4) by simp_all
  have run: "github_webhook env st r s = guarded env key (handle_github env st p key) s" for s
    using assms(1,2) key(2) by (simp add: github_webhook_def Let_def missing_secret_def verify_hub_signature_def)
  have "guarded env key (handle_github env st p key) (g, w) = (Inl e, (g1, w1))"
    using key(1) assms(7,8) by (simp add: guarded_def outward_def st_bind_def)
  moreover obtain g2 where "add_if_absent key (de_clock env w1) g1 = (False, g2)"
    using replayed_key [OF assms(5,7) key(1) assms(6,9,10)] by blast
  then have "guarded env key (handle_github env st p key) (g1, w1) = (Inr (Replied (duplicate_reply key)), (g2, w1))"
    using key(1) by (simp add: guarded_def)
  ultimately show ?thesis unfolding run by blast
qed

text \<open>A retry of Slack, which it sends when the first delivery failed, is never handled.\<close>

lemma slack_retry_ignored:
  assumes "header r ''X-Slack-Retry-Num'' \<noteq> []"
  shows "snd (slack_webhook env st r s) = s"
  using assms by (simp add: slack_webhook_def Let_def split: sum.split json.split)

section \<open>Witness\<close>

definition sample_dispatch :: "nat dispatch_env" where
  "sample_dispatch =
     \<lparr>de_json = (\<lambda>_. Some (JObj [(''action'', JStr ''labeled''), (''label'', JObj [(''name'', JStr ''henchmen'')])])),
      de_hmac = (\<lambda>_ _. ''x''), de_show = sample_renderers, de_clock = int, de_time = (\<lambda>_. 0), de_ids = (\<lambda>w. ((''u'', ''t''), w)),
      de_publish = (\<lambda>_ _ _ w. (Inl (Raised ''down''), Suc w))\<rparr>"

definition sample_dispatch_settings :: dispatch_settings where
  "sample_dispatch_settings =
     \<lparr>ds_base = sample_settings, ds_default_repo = ''o/r'', ds_default_org = [], ds_jira_repo_field = [], ds_jira_branch_field = [],
      ds_slack_secret = ''s'', ds_github_secret = ''s'', ds_jira_secret = ''s'', ds_api_token = ''t'', ds_task_topic = ''tasks'',
      ds_ci_topic = ''ci'', ds_embed_topic = ''embed''\<rparr>"

definition sample_delivery :: http_request where
  "sample_delivery = \<lparr>hr_body = ''{}'', hr_headers = [(''X-Hub-Signature-256'', ''sha256=x''), (''X-GitHub-Delivery'', ''d'')]\<rparr>"

lemma failed_delivery_is_lost_witness:
  "github_webhook sample_dispatch sample_dispatch_settings sample_delivery (fresh_ttl_set, 0) =
     (Inl (Raised ''down''), (snd (add_if_absent ''github:d'' 0 fresh_ttl_set), 1)) \<and>
   (\<exists>g2. github_webhook sample_dispatch sample_dispatch_settings sample_delivery (snd (add_if_absent ''github:d'' 0 fresh_ttl_set), 1) =
     (Inr (Replied (duplicate_reply ''github:d'')), (g2, 1)))"
proof (rule failed_delivery_is_lost [where p = "JObj [(''action'', JStr ''labeled''), (''label'', JObj [(''name'', JStr ''henchmen'')])]"])
  show "ttl_ok (de_clock sample_dispatch 0) fresh_ttl_set" by (rule fresh_ttl_ok)
  show "handle_github sample_dispatch sample_dispatch_settings
      (JObj [(''action'', JStr ''labeled''), (''label'', JObj [(''name'', JStr ''henchmen'')])]) ''github:d'' 0 = (Inl (Raised ''down''), 1)"
    by code_simp
qed (simp_all add: sample_dispatch_def sample_delivery_def sample_dispatch_settings_def header_def verify_hub_signature_def parse_body_def
      dict_get_or_def fresh_ttl_set_def add_if_absent_def prune_seen_def Let_def)

end
