(* ===== verification/Spec2Isabelle.thy ===== *)
theory Spec2Isabelle
  imports GateIsolation HandlerResults Pricing MergeQueue Watchdog Operative Dispatch
begin

text \<open>
  A verification development for Henchmen (\<open>src/src/henchmen\<close>), which turns a request from Slack, GitHub, Jira
  or the command line into a pull request. The dispatch service authenticates a delivery and publishes a
  task; Mastermind takes the task in, chooses a scheme and walks its graph; a deterministic node runs a
  handler on the host or in a gate container, an agentic node launches an operative, a container in which an
  agent works on a clone with the tools of the arsenal and reports back. A tracker keeps the state of a task
  in a document store, a watchdog recovers what stalls, and a merge queue orders what is merged.

  The theories, in the order in which a task passes through them. A path is one below \<open>src/src/henchmen\<close>.

  \<^item> \<open>Prelude\<close>, \<open>PyText\<close>, \<open>Regex\<close>: dictionaries, Python's string operations, \<open>repr\<close>, \<open>json.dumps\<close>, \<open>float\<close>,
    POSIX paths, and a backtracking matcher for the part of \<open>re\<close> the source uses.
  \<^item> \<open>Throttle\<close>, \<open>Normalizer\<close>, \<open>Dispatch\<close> (\<open>dispatch/\<close>): the replay guard and the rate limiter, the task made of each
    kind of payload, and the webhooks. Shown: nothing happens for a delivery that is not authentic, the two
    guards do what they promise, and a delivery whose handling fails is lost.
  \<^item> \<open>SchemeModel\<close>, \<open>SchemeGraph\<close>, \<open>SchemeValidation\<close>, \<open>Schemes\<close> (\<open>models/\<close>, \<open>schemes/\<close>): tasks, nodes, budgets, reports; the
    graph, its routing and its validation, which decides a declarative specification; the registered schemes.
  \<^item> \<open>Settings\<close>, \<open>Pricing\<close> (\<open>config/\<close>, \<open>providers/tiers.py\<close>, \<open>providers/pricing.py\<close>): what the modelled components
    read, model tiers and prices.
  \<^item> \<open>LintScope\<close>, \<open>Host\<close>, \<open>CiGate\<close>, \<open>GateIsolation\<close>, \<open>Handlers\<close>, \<open>HandlerResults\<close>
    (\<open>mastermind/scheme_executor/\<close>): which linter runs on which file, traces of what a gate does to its
    container, the gate itself, and the handlers of the deterministic nodes. Shown: the token is out of reach of
    repository code, a gate fails closed, and its verdict survives the transport over a container's output.
  \<^item> \<open>Executor\<close>, \<open>StandardPipeline\<close> (\<open>mastermind/scheme_executor/executor.py\<close>): the loop over the graph with its
    checkpoints, agentic dispatch and its cost gate. Shown: it terminates, and the standard schemes reach a pull
    request only behind passing gates; this theory's properties put these together.
  \<^item> \<open>DocStore\<close>, \<open>Tracker\<close>, \<open>MessageDedup\<close>, \<open>MergeQueue\<close> (\<open>providers/local/sqlite.py\<close>, \<open>observability/tracker.py\<close>,
    \<open>utils/message_dedup.py\<close>, \<open>forge/merge_queue.py\<close>): the store interface is the locale \<open>document_store\<close>; the clients prove
    their lemmas in it, and SQLite interprets it. The queue refines an abstract one, and its replicas
    interleave in a step relation.
  \<^item> \<open>Mastermind\<close>, \<open>Intake\<close>, \<open>Watchdog\<close> (\<open>mastermind/agent.py\<close>, \<open>mastermind/server.py\<close>): scheme selection, a task from
    its claim to its final state, the endpoints, and the watchdog as a refinement of one abstract step per task.
  \<^item> \<open>Guardrails\<close>, \<open>Nudges\<close>, \<open>GitHelpers\<close>, \<open>UntrustedInput\<close>, \<open>AgentLoop\<close>, \<open>AgentRun\<close> (\<open>operative/\<close>): permissions, budgets
    and the message window, the detector of stuck behaviour, sanitizing, and the loop of the agent. Shown: it ends
    within its budget and for a cause, overruns its ceiling by one call at most and calls permitted tools only.
  \<^item> \<open>Arsenal\<close>, \<open>CodeEdit\<close>, \<open>GitTools\<close> (\<open>arsenal/\<close>): the registry with every tool, the boundary of the workspace, the
    file tools, the git tools and the test tools.
  \<^item> \<open>Operative\<close> (\<open>operative/bootstrap.py\<close>): the life of an operative around the run of its agent. Shown: it ends with
    a report whatever fails, and completed work was pushed unless no change was found.

  Conventions. Data are records and datatypes with the source's names. Code that may raise is a function to
  \<open>error + result\<close>; code with effects passes the state of the outside, which is a type parameter, or a trace of
  what it did. The outside (processes, files, clocks, providers, brokers, the model) is a record of functions
  the definitions take as an argument, so every theorem holds for all behaviours of it. Times are integers in
  microseconds, amounts are exact rationals, strings are lists of characters up to U+00FF, and integers are
  unbounded, as in Python.

  Bounds. The loop of the executor takes fuel: four visits of each node and one more, because a node runs once and
  is retried at most three times (\<open>execute_terminates\<close> shows that it suffices). The loop of the agent
  is a function whose measure is what the step budget leaves. The matcher of \<open>Regex\<close> recurses on the text.

  Not modelled, because it is the code of others or only passes data to it: the cloud providers and model
  clients under \<open>providers/\<close> (their interfaces are the records above), the Slack, GitHub and Jira clients of the
  arsenal, the embedding index, Docker and Cloud Run behind \<open>lair_manager\<close>, tracing and logging. Not modelled
  because it is interaction with a person or a file format: the console, the command line and the evaluation harness.
  The time-out of a whole agent run is an exception of the outside to \<open>Operative\<close>; heartbeats run beside a node
  and are modelled one beat at a time.
\<close>

section \<open>Runs of the standard schemes\<close>

text \<open>
  What a finished run of a standard scheme amounts to: an escalation to a person, or a pull request
  behind a verified branch, a passing lint gate and a passing test gate, each with its evidence.
\<close>

definition passed_in :: "results \<Rightarrow> string \<Rightarrow> bool" where
  "passed_in nrs k \<longleftrightarrow> (\<exists>r. dict_get nrs k = Some r \<and> nr_condition r = Some Pass)"

definition ends_with_evidence ::
  "host \<Rightarrow> settings \<Rightarrow> (string \<Rightarrow> gate_result option) \<Rightarrow> henchmen_task \<Rightarrow> history \<Rightarrow> scheme_definition \<Rightarrow> bool" where
  "ends_with_evidence h st vj task t d \<longleftrightarrow>
     (\<exists>rep t'. execute (node_env h st vj task) (make_graph d) init_state t = Inr (Some (rep, t')) \<and>
        (final_status_of rep = Escalated \<or>
         final_status_of rep = PrCreated \<and> verify_evidence h task \<and>
         check_evidence h st vj task CmdLint \<and> check_evidence h st vj task CmdTests))"

lemma standard_schemes:
  "make_graph BUGFIX_STANDARD = standard_graph ''bugfix_standard'' ''Bugfix Standard'' ''3.0.0'' implement_fix_node"
  "make_graph FEATURE_STANDARD = standard_graph ''feature_standard'' ''Feature Standard'' ''4.0.0'' implement_feature_node"
  by (simp_all add: BUGFIX_STANDARD_def FEATURE_STANDARD_def)

lemma evidence_of_finished:
  assumes "get_root_node g = Inr (det_node ''create_branch'' ''Create Branch'' 30)"
    "\<exists>r. execute env g init_state t = Inr (Some r)"
    and "\<And>s' t'. exec_finished env g (det_node ''create_branch'' ''Create Branch'' 30) init_state t s' t' \<Longrightarrow> P (build_execution_report s')"
  shows "\<exists>rep t'. execute env g init_state t = Inr (Some (rep, t')) \<and> P rep"
proof -
  from assms(2) obtain rep t' where run: "execute env g init_state t = Inr (Some (rep, t'))" by auto
  from execute_finished [OF run assms(1)] assms(3) have "P rep" by metis
  with run show ?thesis by blast
qed

lemma execute_returns:
  assumes "get_root_node (make_graph d) = Inr r0"
  shows "\<exists>r. execute env (make_graph d) s w = Inr (Some r)"
  using execute_loop_terminates [OF root_in_graph [OF assms], of env s w] assms by (auto simp: execute_def)


text \<open>
  C2: Whatever the nodes return and whatever a checkpoint restored, a run of the bug fix scheme that
  processed \<open>create_pr\<close> reports a passing verification, a passing lint gate and a passing test gate.
\<close>

theorem pull_request_behind_gates:
  assumes "execute env (make_graph BUGFIX_STANDARD) (resume_state nrs rcs) w = Inr (Some (rep, w'))"
    and "''create_pr'' \<in> er_nodes_executed rep"
  shows "passed_in (er_node_results rep) ''verify_changes'' \<and>
    (passed_in (er_node_results rep) ''run_lint'' \<or> passed_in (er_node_results rep) ''run_lint_retry'') \<and>
    (passed_in (er_node_results rep) ''run_tests'' \<or> passed_in (er_node_results rep) ''run_tests_retry'')"
proof -
  obtain s' where fin: "exec_finished env (make_graph BUGFIX_STANDARD) (det_node ''create_branch'' ''Create Branch'' 30) (resume_state nrs rcs) w s' w'"
    and rep: "rep = build_execution_report s'"
    using execute_finished [OF assms(1)] std_root [OF implement_ids(1)] unfolding standard_schemes by metis
  from assms(2) rep have "''create_pr'' \<in> freshly_executed s'"
    by (simp add: build_execution_report_def Let_def)
  with pr_behind_gates [OF implement_ids(1) _ fin [unfolded standard_schemes]]
  have "verified s' \<and> lint_green s' \<and> tests_green s'" by (simp add: resume_state_def init_state_def)
  with rep show ?thesis
    by (simp add: verified_def lint_green_def tests_green_def gate_passed_def passed_in_def build_execution_report_def Let_def)
qed

definition passing_env :: "unit exec_env" where
  "passing_env = \<lparr>run_node = (\<lambda>n nrs w. (empty_result\<lparr>nr_condition := Some Pass\<rparr>, w)), checkpoint = (\<lambda>_ _ _ w. w)\<rparr>"

definition restored :: results where
  "restored = map (\<lambda>k. (k, empty_result\<lparr>nr_condition := Some Pass\<rparr>))
     [''create_branch'', ''prefetch_context'', ''implement_fix'', ''verify_changes'', ''run_lint'', ''run_tests'']"

lemmas bugfix_routes =
  std_next_nodes [OF implement_ids(1), of "''bugfix_standard''" "''Bugfix Standard''" "''3.0.0''", folded standard_schemes]

lemma exec_loop_unroll:
  "0 < n \<Longrightarrow> exec_loop n env g nd s w =
     (case exec_step env g nd s w of
        (None, s', w') \<Rightarrow> Some (s', w')
      | (Some n', s', w') \<Rightarrow> exec_loop (n - 1) env g n' s' w')"
  by (cases n) (auto split: prod.splits option.splits)

lemma restored_run:
  "\<exists>rep. execute passing_env (make_graph BUGFIX_STANDARD) (resume_state restored []) () = Inr (Some (rep, ())) \<and>
     ''create_pr'' \<in> er_nodes_executed rep"
proof -
  have fuel: "exec_fuel (make_graph BUGFIX_STANDARD) = 49" by code_simp
  have impl: "node_id implement_fix_node = ''implement_fix''" by (simp add: implement_fix_node_def)
  have root1: "get_root_node (make_graph BUGFIX_STANDARD) = Inr (det_node ''create_branch'' ''Create Branch'' 30)"
    unfolding standard_schemes by (rule std_root [OF implement_ids(1)])
  have next_impl: "next_nodes (make_graph BUGFIX_STANDARD) ''implement_fix'' c =
      (if c = Some Fail then [det_node ''escalate'' ''Escalate'' 30] else [det_node ''verify_changes'' ''Verify Changes'' 30])" for c
    using bugfix_routes(3) by (simp add: impl)
  have run: "\<exists>s'. exec_loop 49 passing_env (make_graph BUGFIX_STANDARD) (det_node ''create_branch'' ''Create Branch'' 30)
        (resume_state restored []) () = Some (s', ()) \<and> ''create_pr'' \<in> freshly_executed s'"
    by (simp add: exec_loop_unroll exec_step_def is_replay_def restored_def resume_state_def init_state_def
        route_def bugfix_routes next_impl perform_def passing_env_def empty_result_def impl
        max_node_retries_def Let_def dict_get_or_def)
  have "er_nodes_executed (build_execution_report s) = freshly_executed s" for s
    by (simp add: build_execution_report_def Let_def)
  with run show ?thesis by (auto simp: execute_def root1 fuel)
qed

definition restored_report :: execution_report where
  "restored_report = fst (the (projr (execute passing_env (make_graph BUGFIX_STANDARD) (resume_state restored []) ())))"

lemma restored_report_run:
  "execute passing_env (make_graph BUGFIX_STANDARD) (resume_state restored []) () = Inr (Some (restored_report, ()))"
  "''create_pr'' \<in> er_nodes_executed restored_report"
  using restored_run by (auto simp: restored_report_def)

lemma pull_request_behind_gates_witness:
  "passed_in (er_node_results restored_report) ''verify_changes'' \<and>
    (passed_in (er_node_results restored_report) ''run_lint'' \<or> passed_in (er_node_results restored_report) ''run_lint_retry'') \<and>
    (passed_in (er_node_results restored_report) ''run_tests'' \<or> passed_in (er_node_results restored_report) ''run_tests_retry'')"
  by (rule pull_request_behind_gates [OF restored_report_run])

text \<open>
  C3: A run of any scheme returns: either it has no single root, which raises before anything runs, or
  the loop stops within the fuel, for all results of the nodes and every restored state.
\<close>

theorem execute_terminates:
  "(\<exists>roots. execute env (make_graph d) s w = Inl roots) \<or> (\<exists>rep w'. execute env (make_graph d) s w = Inr (Some (rep, w')))"
proof (cases "get_root_node (make_graph d)")
  case (Inr r0)
  from execute_returns [OF this, of env s w] show ?thesis by auto
qed (simp add: execute_def)

section \<open>How often a node runs\<close>

text \<open>
  In a run from a fresh state, whatever the nodes return, no handler of any node of any scheme is
  called more than twice. \<open>counting\<close> is the environment with a call counter in front.
\<close>

theorem handler_called_at_most_twice:
  assumes "execute (counting env) (make_graph d) init_state ((\<lambda>_. 0), w) = Inr (Some (rep, (calls, w')))"
  shows "calls k \<le> 2"
proof -
  from assms obtain r0 where "get_root_node (make_graph d) = Inr r0" by (auto simp: execute_def split: sum.splits)
  from execute_finished [OF assms this] show ?thesis
    by (metis counting_finished fst_conv)
qed

definition failing_env :: "unit exec_env" where
  "failing_env = \<lparr>run_node = (\<lambda>n nrs w. (empty_result\<lparr>nr_condition := Some Fail\<rparr>, w)), checkpoint = (\<lambda>_ _ _ w. w)\<rparr>"

text \<open>A scheme with a loop on failure: the node runs twice, then is failed without its handler.\<close>

definition looping_scheme :: scheme_definition where
  "looping_scheme =
     \<lparr>scheme_id = ''s'', scheme_name = ''S'', scheme_version = ''1'',
      scheme_nodes = [det_node ''a'' ''A'' 1, det_node ''b'' ''B'' 1],
      scheme_edges = [edge ''a'' ''b'' (Some Fail), edge ''b'' ''b'' (Some Fail)]\<rparr>"

definition looping_calls :: "string \<Rightarrow> nat" where
  "looping_calls = fst (snd (the (projr (execute (counting failing_env) (make_graph looping_scheme) init_state ((\<lambda>_. 0), ())))))"

lemma handler_called_at_most_twice_witness: "looping_calls ''b'' \<le> 2"
proof (rule handler_called_at_most_twice)
  have "get_root_node (make_graph looping_scheme) = Inr (det_node ''a'' ''A'' 1)" by code_simp
  from execute_returns [OF this, of "counting failing_env" init_state "((\<lambda>_. 0), ())"]
  show "execute (counting failing_env) (make_graph looping_scheme) init_state ((\<lambda>_. 0), ()) =
      Inr (Some (fst (the (projr (execute (counting failing_env) (make_graph looping_scheme) init_state ((\<lambda>_. 0), ())))), (looping_calls, ())))"
    by (auto simp: looping_calls_def)
qed

section \<open>Schemes\<close>

text \<open>
  C10: A scheme validates without a problem exactly when its node ids are distinct, every node has the
  fields of its kind, every edge has both its nodes, one root reaches everything, no node has two
  edges for one outcome and the unconditional edges have no cycle.
\<close>

theorem validate_decides:
  "validate (make_graph d) = [] \<longleftrightarrow>
     distinct (map node_id (scheme_nodes d)) \<and> list_all node_ok (scheme_nodes d) \<and> well_formed d"
  by (auto simp: validate_Nil_iff validate_nodes_Nil_iff node_problems_Nil_iff list_all_iff)

text \<open>
  C11: The three-colour search of the validation returns on every graph, and returns whether the
  unconditional edges between existing nodes have a cycle.
\<close>

theorem cycle_search_correct:
  "has_unconditional_cycle g = Some (\<exists>x. (x, x) \<in> (uncond g)\<^sup>+)"
  using unconditional_cycle_decided [of g] by auto

text \<open>
  Importing the schemes registers exactly the three of them: each validates, and each of its
  deterministic nodes has a handler.
\<close>

theorem discovered_schemes:
  "case auto_discover [] of
     Inl problems \<Rightarrow> False
   | Inr r \<Rightarrow> list_schemes r = [''bugfix_standard'', ''feature_standard'', ''goal_decomposition''] \<and>
       list_all (\<lambda>(_, g). validate g = [] \<and> validate_deterministic_handlers g = []) r"
  using bugfix_valid feature_valid goal_valid schemes_have_handlers
  by (simp add: auto_discover_def register_def list_schemes_def Let_def BUGFIX_STANDARD_def FEATURE_STANDARD_def
      GOAL_DECOMPOSITION_def)

text \<open>C12: A node whose fields Pydantic accepts has an effective step budget, and the budget is valid.\<close>

theorem effective_budget_valid:
  assumes "valid_node_fields n"
  shows "\<exists>b. get_effective_budget n = Inr b \<and> valid_step_budget b"
  using effective_budget_cases [OF assms] by metis

lemma effective_budget_valid_witness:
  "\<exists>b. get_effective_budget analyze_goal_node = Inr b \<and> valid_step_budget b"
  by (rule effective_budget_valid) (simp add: analyze_goal_node_def valid_node_fields_def)

section \<open>The gate in its container\<close>

text \<open>A host on which every process succeeds, with a Python project of one file.\<close>

definition sample_host :: host where
  "sample_host =
     \<lparr>h_exec = (\<lambda>t. Inr (0, ''a.py'', [])), h_fs_op = (\<lambda>_. None), h_token = (\<lambda>_. Inr ''secret''),
      h_files = (\<lambda>_. [(''pyproject.toml'', Other), (''a.py'', Other)]), h_has_git = (\<lambda>_. True), h_is_root = True,
      h_pulls = (\<lambda>_. Inr []), h_create_pull = (\<lambda>_. Inl (OtherExn ''none'')), h_lair = (\<lambda>_. Inl (OtherExn ''none'')),
      h_chunks = (\<lambda>_ s. [s]), h_uuid = (\<lambda>_. ''0''), h_cpus = (\<lambda>s. s), h_redact = (\<lambda>s. s)\<rparr>"

definition sample_args :: "gate_command \<Rightarrow> gate_args" where
  "sample_args c =
     \<lparr>ga_check = c, ga_repo = ''o/r'', ga_branch = ''henchmen/1'', ga_base = ''main'', ga_author_name = ''A'',
      ga_author_email = ''a@b'', ga_skip_tests = False\<rparr>"

text \<open>
  C4: A gate process, whatever its arguments and its input, never runs repository code with the GitHub
  token in its environment or in the git remote, and starts the one process that gets the token again
  only after all repository code is dead and with a git directory it never had access to.
\<close>

theorem gate_isolates_token:
  assumes "git_kept h" "gate_main h dump a stdin [] = (r, t')"
  shows "isolated h t'"
  using gate_main_isolated [OF assms(1), of dump a stdin] assms(2) by (simp add: wp_def split: sum.splits)

lemma gate_isolates_token_witness:
  "isolated sample_host (snd (gate_main sample_host (\<lambda>_. ''{}'') (sample_args CmdFix) (Some ''secret'') []))"
  by (rule gate_isolates_token [OF _ prod.collapse [symmetric]]) (simp add: git_kept_def sample_host_def)




definition passing_gate :: "(exn + gate_result) \<times> history" where
  "passing_gate = run_gate sample_host CmdTests ''o/r'' ''b'' ''main'' ''secret'' ''ws'' []"


text \<open>
  C6: The forge gate (lint and tests over one clone) passes only after a successful clone and a last
  script that exited 0 as the unprivileged user: the tests can not be skipped into a pass.
\<close>

theorem forge_fails_closed:
  assumes "run_forge h repo branch base token ws True t = (Inr r, t')" "gr_condition r = Pass"
  shows "exited_zero h (Exec (clone_call repo branch ws token) # t) \<and> script_succeeded h ws t'"
  using wp_Inr [OF run_forge_fail_closed_wp assms(1)] assms(2) by blast

definition passing_forge :: "(exn + gate_result) \<times> history" where
  "passing_forge = run_forge sample_host ''o/r'' ''b'' ''main'' ''secret'' ''ws'' True []"

lemma forge_fails_closed_witness:
  "exited_zero sample_host [Exec (clone_call ''o/r'' ''b'' ''ws'' ''secret'')] \<and> script_succeeded sample_host ''ws'' (snd passing_forge)"
proof -
  have "case fst passing_forge of Inl _ \<Rightarrow> False | Inr r \<Rightarrow> gr_condition r = Pass" unfolding passing_forge_def by code_simp
  then obtain r where "fst passing_forge = Inr r" "gr_condition r = Pass" by (auto split: sum.splits)
  then show ?thesis using forge_fails_closed [of sample_host _ _ _ _ _ "[]" r "snd passing_forge"]
    by (metis passing_forge_def prod.collapse)
qed

text \<open>After masking, a token (which has no asterisk) occurs nowhere in the text.\<close>

theorem masked_token_gone:
  assumes "token \<noteq> []" "CHR ''*'' \<notin> set token"
  shows "\<not> contains_str token (mask_token token s)"
  using mask_token_removes [OF assms] by (simp add: contains_str_iff)

lemma masked_token_gone_witness: "\<not> contains_str ''ghs'' (mask_token ''ghs'' ''x gghsghshs'')"
  by (rule masked_token_gone) simp_all

text \<open>
  A result line with a raw next-line character (code point 133, which JSON rendering leaves as it
  is) inside a string is cut there: what is validated is the text in front of it, so a passing gate
  whose output has that character is reported by what its first half parses to.
\<close>

theorem result_line_cut:
  assumes "list_all (\<lambda>c. \<not> is_linebreak c) u" "list_all (\<lambda>c. \<not> is_linebreak c) v"
    and "v \<noteq> []" "\<not> prefix gate_result_marker v"
  shows "parse_gate_result vj (gate_result_marker @ (u @ CHR 0x85 # v) @ [CHR 0x0A]) = vj u"
  using parse_result_line_cut [of u v vj] assms by (simp add: list_all_iff)

lemma result_line_cut_witness:
  "parse_gate_result (\<lambda>s. if last s = CHR ''}'' then Some (gate_pass s) else None)
     (gate_result_marker @ (''{a'' @ CHR 0x85 # ''b}'') @ [CHR 0x0A]) = None"
  by (subst result_line_cut) (simp_all add: is_linebreak_def gate_result_marker_def)

text \<open>
  What the runner keeps of a container's output is a suffix of it, everything when it fits, and
  more than the cap minus one chunk otherwise, but never more than the cap or one chunk.
\<close>

theorem drained_tail:
  assumes "\<forall>c\<in>set chunks. length c \<le> m"
  shows "suffix (drain_stream cap chunks) (concat chunks) \<and> length (drain_stream cap chunks) \<le> max cap m \<and>
    (drain_stream cap chunks = concat chunks \<or> cap < length (drain_stream cap chunks) + m)"
  using drain_kept [OF assms, of cap] drain_bounded [OF assms, of cap] by auto

lemma drained_tail_witness:
  "suffix (drain_stream 4 [''abc'', ''de'', ''f'']) ''abcdef'' \<and> length (drain_stream 4 [''abc'', ''de'', ''f'']) \<le> max 4 3 \<and>
    (drain_stream 4 [''abc'', ''de'', ''f''] = ''abcdef'' \<or> 4 < length (drain_stream 4 [''abc'', ''de'', ''f'']) + 3)"
  using drained_tail [of "[''abc'', ''de'', ''f'']" 3 4] by simp

section \<open>What the lint gate judges\<close>

text \<open>The linter of a stack and the files it reads.\<close>

definition lint_runner :: "stack \<Rightarrow> string list" where
  "lint_runner st = (if st = python_stack then [''python'', ''-m'', ''ruff'', ''check'', ''--force-exclude''] else eslint_runner st)"

definition linted_extensions :: "stack \<Rightarrow> string list" where
  "linted_extensions st = (if st = python_stack then python_extensions else node_extensions)"

text \<open>
  Every command of a Python or Node lint plan is the linter's command line followed by at least one
  file, and every file it names is, from the directory the command runs in, a changed file that exists
  and is one the linter reads.
\<close>

theorem lint_judges_changed_files:
  assumes "plan_lint st ws changed = Inr plan" "c \<in> set (plan_commands plan)"
    and "st = python_stack \<or> st = node_npm_stack \<or> st = node_pnpm_stack mono_repo"
  shows "judges_changed ws changed (linted_extensions st) (lint_runner st) c"
proof (cases "st = python_stack")
  case True
  with python_plan_judges [of ws changed plan c] assms show ?thesis by (simp add: linted_extensions_def lint_runner_def)
next
  case False
  with assms have "node_plan st ws (with_suffix (filter (is_file ws) changed) node_extensions) = Inr plan"
    by (auto simp: plan_lint_def node_npm_stack_def node_pnpm_stack_def)
  from node_plan_judges [OF this assms(2)] False show ?thesis by (simp add: linted_extensions_def lint_runner_def)
qed

definition sample_workspace :: workspace where
  "sample_workspace = [(''pyproject.toml'', Other), (''a/b.py'', Other), (''c.txt'', Other)]"

lemma lint_judges_changed_files_witness:
  "judges_changed sample_workspace [''a/b.py'', ''gone.py'', ''c.txt''] (linted_extensions python_stack) (lint_runner python_stack)
     \<lparr>argv = [''python'', ''-m'', ''ruff'', ''check'', ''--force-exclude'', ''./a/b.py''], cwd = ''.''\<rparr>"
proof -
  have "case plan_lint python_stack sample_workspace [''a/b.py'', ''gone.py'', ''c.txt''] of Inl _ \<Rightarrow> False
    | Inr plan \<Rightarrow> plan_commands plan = [\<lparr>argv = [''python'', ''-m'', ''ruff'', ''check'', ''--force-exclude'', ''./a/b.py''], cwd = ''.''\<rparr>]"
    by code_simp
  then show ?thesis by (auto split: sum.splits intro!: lint_judges_changed_files)
qed


definition node_workspace :: workspace where
  "node_workspace = [(''package.json'', Manifest True [] []), (''web/package.json'', Manifest True [] []), (''web/x.ts'', Other)]"

definition node_plan_of :: lint_plan where
  "node_plan_of = projr (plan_lint node_npm_stack node_workspace [''web/x.ts''])"


section \<open>Agentic nodes\<close>

text \<open>
  C9: An agentic node always returns a verdict and dispatches at most two operatives; over the cost
  ceiling it dispatches none and fails.
\<close>

theorem agentic_dispatch_bounded:
  "\<exists>r t'. execute_agentic h st task n nrs t = (Inr r, t') \<and> nr_condition r \<noteq> None \<and> length t' \<le> length t + 2 \<and>
    (if get_cumulative_cost st nrs + estimate_dispatch_cost st n > operative_task_cost_ceiling_usd st
     then t' = t \<and> nr_condition r = Some Fail else True)"
proof -
  obtain r t' where run: "execute_agentic h st task n nrs t = (Inr r, t')" "decided r"
    using execute_agentic_decided by (rule alwaysE)
  with wp_Inr [OF execute_agentic_dispatches run(1)] execute_agentic_ceiling [of st nrs n h task t] show ?thesis
    by (auto simp: decided_def result_fail_def)
qed

text \<open>
  C8: When development shortcuts are off, or for the two fix nodes always, an agentic node passes only
  with the report of an operative that completed.
\<close>

theorem agentic_pass_needs_report:
  assumes "execute_agentic h st task n nrs t = (Inr r, t')" "nr_condition r = Some Pass"
    and "\<not> fail_open_allowed st \<or> node_id n \<in> set fix_nodes"
  shows "\<exists>t0 lair rep. h_lair h (DispatchLair (node_id n) (description (enrich_for_fix_node n task nrs)) # t0) = Inr (lair, rep) \<and>
    rep_status rep = COMPLETED \<and> nr_report r = Some rep"
  using wp_Inr [OF execute_agentic_pass [OF assms(3)] assms(1)] assms(2) by blast

definition completed_report :: operative_report where
  "completed_report =
     \<lparr>rep_operative_id = ''op'', rep_status = COMPLETED, rep_summary = ''done'', rep_error = None, rep_block_reason = None,
      rep_files_changed = [''a.py''], rep_model_name = ''m'', rep_input_tokens = 10, rep_output_tokens = 5, rep_cost_usd = 0\<rparr>"

definition sample_task :: henchmen_task where
  "sample_task =
     \<lparr>task_id = ''0123456789'', task_source_of = CLI, source_id = ''s'', title = ''t'', description = ''d'',
      task_ctx = \<lparr>ctx_repo = ''o/r'', ctx_branch = None, thread_messages = None, issue_fields = None, pr_diff = None\<rparr>,
      priority = NORMAL, task_type_of = None, created_by = ''u''\<rparr>"

definition agentic_run :: "(exn + node_result) \<times> history" where
  "agentic_run =
     execute_agentic (sample_host\<lparr>h_lair := (\<lambda>_. Inr (''lair-1'', completed_report))\<rparr>) sample_settings sample_task analyze_goal_node [] []"

lemma agentic_pass_needs_report_witness:
  "\<exists>t0 lair rep. h_lair (sample_host\<lparr>h_lair := (\<lambda>_. Inr (''lair-1'', completed_report))\<rparr>)
       (DispatchLair ''analyze_goal'' (description (enrich_for_fix_node analyze_goal_node sample_task [])) # t0) = Inr (lair, rep) \<and>
    rep_status rep = COMPLETED \<and> nr_report (projr (fst agentic_run)) = Some rep"
proof -
  have "case fst agentic_run of Inl _ \<Rightarrow> False | Inr r \<Rightarrow> nr_condition r = Some Pass" unfolding agentic_run_def by code_simp
  then obtain r where r: "fst agentic_run = Inr r" "nr_condition r = Some Pass" by (auto split: sum.splits)
  then have run: "execute_agentic (sample_host\<lparr>h_lair := (\<lambda>_. Inr (''lair-1'', completed_report))\<rparr>) sample_settings sample_task
      analyze_goal_node [] [] = (Inr r, snd agentic_run)"
    unfolding agentic_run_def by (metis prod.collapse)
  have "\<not> fail_open_allowed sample_settings" by code_simp
  with agentic_pass_needs_report [OF run r(2)] r(1) show ?thesis by (simp add: analyze_goal_node_def)
qed

section \<open>Prices\<close>

text \<open>An estimate is never negative, grows with both token counts and shrinks with the cached part.\<close>

theorem estimates_monotone:
  assumes "0 \<le> out" "i \<le> i'" "out \<le> out'" "0 \<le> cached" "cached \<le> i"
  shows "0 \<le> estimate_cost m i out cached 0 \<and> estimate_cost m i out cached 0 \<le> estimate_cost m i out 0 0 \<and>
    estimate_cost m i out 0 0 \<le> estimate_cost m i' out' 0 0"
  using estimate_cost_nonneg [OF assms(1)] cache_read_saves [OF assms(4,5)] estimate_cost_mono [OF assms(2,3)] by blast

lemma estimates_monotone_witness:
  "0 \<le> estimate_cost ''gpt-5'' 10 5 3 0 \<and> estimate_cost ''gpt-5'' 10 5 3 0 \<le> estimate_cost ''gpt-5'' 10 5 0 0 \<and>
    estimate_cost ''gpt-5'' 10 5 0 0 \<le> estimate_cost ''gpt-5'' 20 6 0 0"
  by (rule estimates_monotone) simp_all

text \<open>
  A model name that is in the price table neither as it is nor normalised is priced by the longest
  key it is a version of.
\<close>

theorem priced_by_longest_key:
  assumes "dict_get PRICE_TABLE m = None" "dict_get PRICE_TABLE (normalize_model_id m) = None"
    and "lookup_price m = Some p" "k \<in> set (dict_keys PRICE_TABLE)" "versioned k (normalize_model_id m)"
  shows "\<exists>key. dict_get PRICE_TABLE key = Some p \<and> versioned key (normalize_model_id m) \<and> length k \<le> length key"
  using lookup_longest [OF assms] .

lemma priced_by_longest_key_witness:
  "\<exists>key. dict_get PRICE_TABLE key = Some (the (lookup_price ''claude-opus-4-1-latest'')) \<and>
    versioned key (normalize_model_id ''claude-opus-4-1-latest'') \<and> length ''claude-opus-4'' \<le> length key"
proof (rule priced_by_longest_key)
  have "case lookup_price ''claude-opus-4-1-latest'' of None \<Rightarrow> False | Some _ \<Rightarrow> True" by code_simp
  then show "lookup_price ''claude-opus-4-1-latest'' = Some (the (lookup_price ''claude-opus-4-1-latest''))"
    by (auto split: option.splits)
qed code_simp+

end
